(* ===== verification/Prelude.thy ===== *)
theory Prelude
  imports Complex_Main "HOL-Library.Word"
begin

text \<open>
  Shared vocabulary of the development: the C++ integer types of the sources as words,
  the audio sample type, the two memory primitives the sources use on sample planes
  (\<^verbatim>\<open>memcpy\<close> into a plane at an offset, \<^verbatim>\<open>memset\<close> of a plane to zero) and the
  \<^verbatim>\<open>for (int ch = 0; ch < n; ++ch) plane[ch] = ...\<close> loop over channels, with the
  lemmas every component uses about them.
\<close>

named_theorems plane_simps "lemmas about memcpy/memset on sample planes"
named_theorems word_bound_simps "lemmas that read C++ unsigned arithmetic on size_t as nat"
named_theorems eval_simps "rules that evaluate the model on concrete inputs"

type_synonym size_t = "64 word"
type_synonym u64 = "64 word"
type_synonym u32 = "32 word"
type_synonym u16 = "16 word"
type_synonym byte = "8 word"

text \<open>
  A \<^verbatim>\<open>float\<close> sample is modelled as a real number: rounding of the single-precision
  multiplication by the gain and of the conversion factor is not modelled, nor are NaN
  and the infinities.
\<close>

type_synonym sample = real
type_synonym plane = "sample list"

subsection \<open>memcpy, memset and the loops over planes\<close>

text \<open>
  \<^verbatim>\<open>std::memcpy(dst + off, src, n * sizeof(float))\<close> where \<open>src\<close> has already been
  cut to its first \<open>n\<close> samples; in range when \<open>off + n \<le> length dst\<close>.
\<close>

definition blit :: "'a list \<Rightarrow> nat \<Rightarrow> 'a list \<Rightarrow> 'a list" where
  "blit dst off src = take off dst @ src @ drop (off + length src) dst"

text \<open>\<^verbatim>\<open>std::memset(dst + off, 0, n * sizeof(float))\<close>.\<close>

definition zero_fill :: "'a::zero list \<Rightarrow> nat \<Rightarrow> nat \<Rightarrow> 'a list" where
  "zero_fill dst off n = blit dst off (replicate n 0)"

text \<open>
  \<^verbatim>\<open>for (int ch = 0; ch < n; ++ch) planes[ch] = f(ch, planes[ch]);\<close> Each iteration
  touches its own plane, so the loop is a pointwise map on the first \<open>n\<close> planes.
\<close>

definition for_channels :: "nat \<Rightarrow> (nat \<Rightarrow> 'a \<Rightarrow> 'a) \<Rightarrow> 'a list \<Rightarrow> 'a list" where
  "for_channels n f xs = fold (\<lambda>ch ys. ys[ch := f ch (ys ! ch)]) [0..<n] xs"

text \<open>\<^verbatim>\<open>static_cast<int>\<close> of a \<^verbatim>\<open>float\<close> or \<^verbatim>\<open>double\<close> in range: truncation toward zero.\<close>

definition trunc_real :: "real \<Rightarrow> int" where
  "trunc_real x = (if 0 \<le> x then \<lfloor>x\<rfloor> else \<lceil>x\<rceil>)"

text \<open>Multiplying the first \<open>n\<close> samples of a plane, as \<^verbatim>\<open>for (n...) out[ch][n] *= gain\<close>.\<close>

definition scale_prefix :: "plane \<Rightarrow> nat \<Rightarrow> real \<Rightarrow> plane" where
  "scale_prefix p n g = map (\<lambda>x. x * g) (take n p) @ drop n p"

text \<open>
  An \<^verbatim>\<open>int\<close> argument of the C++ code is an Isabelle \<open>int\<close> in the range of a
  32-bit \<^verbatim>\<open>int\<close>; converted to \<^verbatim>\<open>size_t\<close> (as \<^verbatim>\<open>std::min<size_t>\<close> does) a
  negative value becomes at least \<open>2^63\<close>.
\<close>

definition c_int :: "int \<Rightarrow> bool" where
  "c_int x \<longleftrightarrow> - (2 ^ 31) \<le> x \<and> x < 2 ^ 31"

subsection \<open>Lemmas on memcpy and memset\<close>


lemma length_blit [simp, plane_simps]:
  "off + length src \<le> length dst \<Longrightarrow> length (blit dst off src) = length dst"
  by (simp add: blit_def)

lemma nth_blit [plane_simps]:
  assumes "i < length dst" and "off + length src \<le> length dst"
  shows "blit dst off src ! i = (if off \<le> i \<and> i < off + length src then src ! (i - off) else dst ! i)"
proof -
  consider "i < off" | "off \<le> i \<and> i < off + length src" | "off + length src \<le> i"
    by linarith
  then show ?thesis
  proof cases
    case 1
    with assms show ?thesis by (simp add: blit_def nth_append)
  next
    case 2
    with assms show ?thesis by (auto simp: blit_def nth_append min_def)
  next
    case 3
    with assms show ?thesis by (auto simp: blit_def nth_append min_def)
  qed
qed

lemma blit_Nil [simp, plane_simps]: "off \<le> length dst \<Longrightarrow> blit dst off [] = dst"
  by (simp add: blit_def)

lemma length_zero_fill [simp, plane_simps]:
  "off + n \<le> length dst \<Longrightarrow> length (zero_fill dst off n) = length dst"
  by (simp add: zero_fill_def)

lemma nth_zero_fill [plane_simps]:
  "i < length dst \<Longrightarrow> off + n \<le> length dst \<Longrightarrow>
   zero_fill dst off n ! i = (if off \<le> i \<and> i < off + n then 0 else dst ! i)"
  by (auto simp: zero_fill_def nth_blit)

lemma zero_fill_0 [simp, plane_simps]: "zero_fill dst off 0 = dst"
  by (simp add: zero_fill_def blit_def)

lemma zero_fill_all [plane_simps]: "zero_fill dst 0 (length dst) = replicate (length dst) 0"
  by (simp add: zero_fill_def blit_def)

lemma replicate_numeral [eval_simps]: "replicate (numeral n) x = x # replicate (pred_numeral n) x"
  by (simp add: numeral_eq_Suc)

declare upt_rec [eval_simps]

subsection \<open>Lemmas on the loop over channels\<close>

lemma for_channels_Suc:
  "for_channels (Suc n) f xs = (for_channels n f xs)[n := f n (for_channels n f xs ! n)]"
  by (simp add: for_channels_def)

lemma length_for_channels [simp, plane_simps]: "length (for_channels n f xs) = length xs"
  by (induction n) (simp_all add: for_channels_def)

lemma nth_for_channels [plane_simps]:
  "ch < length xs \<Longrightarrow> for_channels n f xs ! ch = (if ch < n then f ch (xs ! ch) else xs ! ch)"
proof (induction n)
  case 0
  then show ?case by (simp add: for_channels_def)
next
  case (Suc n)
  then show ?case by (cases "ch = n") (auto simp: for_channels_Suc nth_list_update)
qed

lemma for_channels_0 [simp]: "for_channels 0 f xs = xs"
  by (simp add: for_channels_def)

lemma length_scale_prefix [simp, plane_simps]: "length (scale_prefix p n g) = length p"
  by (simp add: scale_prefix_def)

lemma zero_fill_append_at:
  assumes "length xs = k" and "k \<le> f" and "f \<le> k + length ys"
  shows "zero_fill (xs @ ys) k (f - k) = xs @ replicate (f - k) 0 @ drop (f - k) ys"
  using assms by (simp add: zero_fill_def blit_def)

lemma scale_prefix_append:
  assumes "length xs = f"
  shows "scale_prefix (xs @ ys) f g = map (\<lambda>x. x * g) xs @ ys"
  using assms by (simp add: scale_prefix_def)

subsection \<open>Truncation toward zero and in-place loops\<close>

lemma trunc_real_mono:
  assumes "x \<le> y"
  shows "trunc_real x \<le> trunc_real y"
proof (cases "0 \<le> x")
  case True
  with assms floor_mono [OF assms] show ?thesis by (simp add: trunc_real_def)
next
  case False
  have x: "trunc_real x = \<lceil>x\<rceil>" "\<lceil>x\<rceil> \<le> 0" using False by (simp_all add: trunc_real_def)
  show ?thesis
  proof (cases "0 \<le> y")
    case True
    then have "trunc_real y = \<lfloor>y\<rfloor>" "0 \<le> \<lfloor>y\<rfloor>" by (simp_all add: trunc_real_def)
    with x show ?thesis by linarith
  next
    case False
    then have "trunc_real y = \<lceil>y\<rceil>" by (simp add: trunc_real_def)
    with x ceiling_mono [OF assms] show ?thesis by linarith
  qed
qed

lemma trunc_real_int [simp]: "trunc_real (of_int k) = k"
  by (simp add: trunc_real_def)

lemma trunc_real_error: "\<bar>of_int (trunc_real x) - x\<bar> < 1"
  by (auto simp: trunc_real_def) linarith+

lemma trunc_real_bound:
  assumes "\<bar>x\<bar> \<le> of_int m"
  shows "\<bar>trunc_real x\<bar> \<le> m"
proof -
  have "trunc_real x \<le> trunc_real (of_int m)"
    using assms by (intro trunc_real_mono) (simp add: abs_le_iff)
  moreover have "trunc_real (of_int (- m)) \<le> trunc_real x"
    using assms by (intro trunc_real_mono) (simp add: abs_le_iff)
  ultimately show ?thesis by (simp only: trunc_real_int)
qed

text \<open>A loop \<^verbatim>\<open>for (c = 0; c < n; ++c) xs[b + c] = g(c);\<close> fills a block of the array.\<close>

lemma length_fold_update [simp]: "length (fold (\<lambda>c ys. ys[h c := g c]) cs xs) = length xs"
  by (induction cs arbitrary: xs) simp_all

lemma length_fold_update2 [simp]:
  "length (fold (\<lambda>f ys. fold (\<lambda>c ys. ys[h f c := g f c]) cs ys) fs xs) = length xs"
  by (induction fs arbitrary: xs) simp_all

lemma fold_update_block:
  "b + n \<le> length xs \<Longrightarrow>
   fold (\<lambda>c ys. ys[b + c := g c]) [0..<n] xs = take b xs @ map g [0..<n] @ drop (b + n) xs"
proof (induction n)
  case 0
  then show ?case by simp
next
  case (Suc n)
  then have IH: "fold (\<lambda>c ys. ys[b + c := g c]) [0..<n] xs = take b xs @ map g [0..<n] @ drop (b + n) xs"
    by simp
  have d: "drop (b + n) xs = xs ! (b + n) # drop (b + Suc n) xs"
    using Suc.prems by (simp add: Cons_nth_drop_Suc)
  show ?case using Suc.prems
    by (simp add: IH d list_update_append nth_append)
qed

subsection \<open>size_t arithmetic read as nat\<close>

lemma unat_min_word [word_bound_simps]: "unat (min a b) = min (unat a) (unat (b :: 'a::len word))"
  by (simp add: min_def word_le_nat_alt)

lemma unat_sub_le [word_bound_simps]:
  "unat b \<le> unat a \<Longrightarrow> unat (a - b) = unat a - unat (b :: 'a::len word)"
  by (simp add: unat_sub word_le_nat_alt)

lemma unat_mod_word [word_bound_simps]: "unat (a mod b) = unat a mod unat (b :: 'a::len word)"
  by (simp add: unat_mod)

lemma unat_word_of_int_nonneg [word_bound_simps]:
  "0 \<le> i \<Longrightarrow> i < 2 ^ LENGTH('a) \<Longrightarrow> unat (word_of_int i :: 'a::len word) = nat i"
  by (simp add: unat_eq_nat_uint uint_word_of_int_eq take_bit_int_eq_self)

lemma unat_word_of_int_neg:
  assumes "c_int x" and "x < 0"
  shows "2 ^ 63 \<le> unat (word_of_int x :: size_t)"
proof -
  have "(x + 2 ^ 64) mod 2 ^ 64 = x + 2 ^ 64" using assms
    by (intro mod_pos_pos_trivial) (auto simp: c_int_def)
  then have "uint (word_of_int x :: size_t) = x + 2 ^ 64"
    by (simp add: uint_word_of_int)
  moreover have "2 ^ 63 \<le> x + 2 ^ 64" using assms by (simp add: c_int_def)
  ultimately show ?thesis by (simp add: unat_eq_nat_uint nat_le_iff)
qed

lemma c_int_nonneg: "0 \<le> x \<Longrightarrow> x < 2 ^ 31 \<Longrightarrow> c_int x"
  by (simp add: c_int_def)

lemma c_int_request [word_bound_simps]:
  assumes "c_int x" and "a < 2 ^ 31"
  shows "min (unat (word_of_int x :: size_t)) a = (if x < 0 then a else min (nat x) a)"
proof (cases "x < 0")
  case True
  have "2 ^ 63 \<le> unat (word_of_int x :: size_t)" by (rule unat_word_of_int_neg [OF assms(1) True])
  with True assms show ?thesis by simp
next
  case False
  with assms show ?thesis by (simp add: c_int_def unat_word_of_int_nonneg)
qed

text \<open>The narrowing \<^verbatim>\<open>(int)x\<close> of an unsigned count that fits in 31 bits keeps its value.\<close>

lemma sint_ucast_small [word_bound_simps]:
  "unat x < 2 ^ 31 \<Longrightarrow> sint (ucast x :: 32 word) = int (unat (x :: 'a::len word))"
proof -
  assume "unat x < 2 ^ 31"
  then have "uint x < 2 ^ 31" by (metis of_nat_less_numeral_power_cancel_iff of_nat_unat)
  moreover have "0 \<le> uint x" by simp
  ultimately have "signed_take_bit 31 (uint x) = uint x"
    by (intro signed_take_bit_int_eq_self) linarith+
  then show ?thesis by (simp add: signed_ucast_eq)
qed

lemma unat_add_mod_dvd:
  assumes "N dvd 2 ^ LENGTH('a) \<or> unat c + unat k < 2 ^ LENGTH('a)"
  shows "unat (c + k) mod N = (unat c + unat (k :: 'a::len word)) mod N"
  using assms
proof
  assume "N dvd 2 ^ LENGTH('a)"
  then show ?thesis by (simp add: unat_word_ariths(1) mod_mod_cancel)
next
  assume "unat c + unat k < 2 ^ LENGTH('a)"
  then show ?thesis by (simp add: unat_add_lem [THEN iffD1])
qed

text \<open>Reading a \<^verbatim>\<open>uint32_t\<close> as an \<^verbatim>\<open>int\<close> (\<^verbatim>\<open>static_cast<int>\<close>) and the \<^verbatim>\<open>std::max\<close> of two words.\<close>

lemma sint_u32_small: "unat (x :: u32) < 2 ^ 31 \<Longrightarrow> sint x = int (unat x)"
  using sint_ucast_small [of x] by simp

lemma uint_ge_of_unat: "n \<le> unat (x :: 'a::len word) \<Longrightarrow> int n \<le> uint x"
proof -
  assume "n \<le> unat x"
  then have "int n \<le> int (unat x)" by (simp only: of_nat_le_iff)
  then show ?thesis by (simp only: of_nat_unat)
qed

lemma sint_u32_neg:
  assumes "2 ^ 31 \<le> uint (x :: u32)"
  shows "sint x = uint x - 2 ^ 32"
proof -
  have lt: "uint x < 2 ^ LENGTH(32)" by (rule unsigned_less)
  have "sint x = (uint x + 2 ^ 31) mod 2 ^ 32 - 2 ^ 31"
    using int_word_sint [of "uint x", where 'a = 32] by simp
  also have e: "uint x + 2 ^ 31 = (uint x - 2 ^ 31) + 2 ^ 32" by simp
  then have "(uint x + 2 ^ 31) mod 2 ^ 32 = (uint x - 2 ^ 31) mod 2 ^ 32"
    by (simp only: mod_add_self2)
  also have "\<dots> = uint x - 2 ^ 31"
    using assms lt by (intro mod_pos_pos_trivial) simp_all
  finally show ?thesis by simp
qed

lemma c_int_sint32: "c_int (sint (x :: u32))"
  using sint_ge [of x] sint_lt [of x] by (simp add: c_int_def)

lemma unat_max_word: "unat (max a b) = max (unat a) (unat (b :: 'a::len word))"
  by (simp add: max_def word_le_nat_alt)

text \<open>A loop \<^verbatim>\<open>while (offset < frames) offset += c;\<close> with \<open>0 < c \<le> frames - offset\<close> progresses.\<close>

lemma word_advance_lt:
  assumes "offset < frames" and "0 < c" and "c \<le> frames - offset"
  shows "unat frames - unat (offset + c) < unat frames - unat (offset :: u32)"
proof -
  have "unat (frames - offset) = unat frames - unat offset"
    using assms(1) by (simp add: unat_sub less_imp_le)
  then have "unat c \<le> unat frames - unat offset"
    using assms(3) by (simp add: word_le_nat_alt)
  moreover have "unat frames < 2 ^ LENGTH(32)" by (rule unsigned_less)
  ultimately have "unat offset + unat c < 2 ^ 32"
    using assms(1) by (simp add: word_less_nat_alt)
  then have "unat (offset + c) = unat offset + unat c" by (simp add: unat_add_lem [THEN iffD1])
  moreover have "0 < unat c" using assms(2) by (simp add: unat_gt_0)
  ultimately show ?thesis using \<open>unat c \<le> unat frames - unat offset\<close> by linarith
qed

end
