(* ===== verification/RingBuffer.thy ===== *)
theory RingBuffer
  imports Prelude
begin

text \<open>
  The lock-free single-producer/single-consumer ring buffer of planar float audio,
  \<^verbatim>\<open>atome::RingBuffer\<close> (src/src/core/ring_buffer.h, ring_buffer.cpp). The object is the
  record \<open>ring\<close>; each method is a function from the object (and its arguments) to the
  updated object and the method's return value. The cursors are the \<^verbatim>\<open>size_t\<close> atomics
  \<^verbatim>\<open>mWriteIndex\<close>/\<^verbatim>\<open>mReadIndex\<close> as 64-bit words, so their wrap-around at \<open>2^64\<close> and
  the unsigned subtraction \<^verbatim>\<open>write - read\<close> are those of the code. Memory ordering is
  not modelled here: each method is one atomic step (see the header of the root theory).

  The abstraction \<open>rb_frames\<close> reads, per channel, the queued frames from the read cursor
  on; the refinement lemmas show that \<open>rb_push\<close> appends to and \<open>rb_pop\<close> removes from
  the front of that queue, as the list queue \<open>q_push\<close>/\<open>q_pop\<close> does.
\<close>

record 's ring =
  rb_channels :: int
  rb_capacity :: int
  rb_data :: "'s list list"
  rb_write :: size_t
  rb_read :: size_t

text \<open>
  The constructor. \<^verbatim>\<open>mData(channels)\<close> and \<^verbatim>\<open>assign(capacityFrames, 0.0f)\<close> convert a
  negative \<^verbatim>\<open>int\<close> to a huge \<^verbatim>\<open>size_t\<close>, and \<^verbatim>\<open>std::vector\<close> throws
  \<^verbatim>\<open>std::length_error\<close>.
\<close>

datatype rb_error = Length_error

definition rb_new :: "int \<Rightarrow> int \<Rightarrow> rb_error + 's::zero ring" where
  "rb_new channels capacityFrames =
     (if channels < 0 \<or> capacityFrames < 0 then Inl Length_error
      else Inr \<lparr>rb_channels = channels, rb_capacity = capacityFrames,
                rb_data = replicate (nat channels) (replicate (nat capacityFrames) 0),
                rb_write = 0, rb_read = 0\<rparr>)"

definition rb_clear :: "'s::zero ring \<Rightarrow> 's ring" where
  "rb_clear rb =
     rb\<lparr>rb_read := 0, rb_write := 0,
        rb_data := map (\<lambda>v. replicate (length v) 0) (rb_data rb)\<rparr>"

text \<open>
  The two \<^verbatim>\<open>memcpy\<close> calls of one channel in \<^verbatim>\<open>push\<close>: \<open>first\<close> frames to the tail of
  the plane from \<open>wmod\<close> on, then, if \<open>second \<noteq> 0\<close>, the rest to its head.
\<close>

definition rb_copy_in :: "'s list \<Rightarrow> nat \<Rightarrow> nat \<Rightarrow> nat \<Rightarrow> 's list \<Rightarrow> 's list" where
  "rb_copy_in plane wmod first second inp =
     (let p1 = blit plane wmod (take first inp)
      in if second \<noteq> 0 then blit p1 0 (take second (drop first inp)) else p1)"

definition rb_push :: "'s ring \<Rightarrow> 's list list \<Rightarrow> int \<Rightarrow> int \<Rightarrow> 's ring \<times> int" where
  "rb_push rb ins channels frames =
     (let write = rb_write rb;
          read = rb_read rb;
          filled = write - read;
          freeSpace = (word_of_int (rb_capacity rb) :: size_t) - filled;
          toWrite = min (word_of_int frames) freeSpace
      in if toWrite = 0 then (rb, 0)
         else
           let cap = (word_of_int (rb_capacity rb) :: size_t);
               wmod = write mod cap;
               first = min toWrite (cap - wmod);
               second = toWrite - first;
               n = nat (min channels (rb_channels rb));
               data' = for_channels n
                 (\<lambda>ch plane. rb_copy_in plane (unat wmod) (unat first) (unat second) (ins ! ch))
                 (rb_data rb)
           in (rb\<lparr>rb_data := data', rb_write := write + toWrite\<rparr>,
               sint (ucast toWrite :: 32 word)))"

text \<open>
  The two \<^verbatim>\<open>memcpy\<close> calls of one channel in \<^verbatim>\<open>pop\<close>: \<open>first\<close> frames from the plane
  at \<open>rmod\<close> to the front of the output, then, if \<open>second \<noteq> 0\<close>, the head of the plane
  after them.
\<close>

definition rb_copy_out :: "'s list \<Rightarrow> 's list \<Rightarrow> nat \<Rightarrow> nat \<Rightarrow> nat \<Rightarrow> 's list" where
  "rb_copy_out out plane rmod first second =
     (let o1 = blit out 0 (take first (drop rmod plane))
      in if second \<noteq> 0 then blit o1 first (take second plane) else o1)"

definition rb_pop :: "'s ring \<Rightarrow> 's list list \<Rightarrow> int \<Rightarrow> int \<Rightarrow> 's ring \<times> 's list list \<times> int" where
  "rb_pop rb outs channels frames =
     (let write = rb_write rb;
          read = rb_read rb;
          available = write - read;
          toRead = min (word_of_int frames) available
      in if toRead = 0 then (rb, outs, 0)
         else
           let cap = (word_of_int (rb_capacity rb) :: size_t);
               rmod = read mod cap;
               first = min toRead (cap - rmod);
               second = toRead - first;
               n = nat (min channels (rb_channels rb));
               outs' = for_channels n
                 (\<lambda>ch out. rb_copy_out out (rb_data rb ! ch) (unat rmod) (unat first) (unat second))
                 outs
           in (rb\<lparr>rb_read := read + toRead\<rparr>, outs', sint (ucast toRead :: 32 word)))"

subsection \<open>Invariant and abstraction\<close>

abbreviation rb_cap :: "'s ring \<Rightarrow> nat" where
  "rb_cap rb \<equiv> nat (rb_capacity rb)"

text \<open>Frames filled, \<^verbatim>\<open>write - read\<close>, and the slot of the \<open>i\<close>-th queued frame.\<close>

definition rb_size :: "'s ring \<Rightarrow> nat" where
  "rb_size rb = unat (rb_write rb - rb_read rb)"

definition rb_slot :: "'s ring \<Rightarrow> nat \<Rightarrow> nat" where
  "rb_slot rb i = (unat (rb_read rb) + i) mod rb_cap rb"

definition rb_frames :: "'s ring \<Rightarrow> nat \<Rightarrow> 's list" where
  "rb_frames rb ch = map (\<lambda>i. rb_data rb ! ch ! rb_slot rb i) [0..<rb_size rb]"

text \<open>
  The shape the constructor gives the object and the capacity bound: at most \<open>N\<close> frames
  filled (\<open>N\<close> the capacity). Every call of \<open>push\<close> and \<open>pop\<close> keeps it.
\<close>

definition rb_wf :: "'s ring \<Rightarrow> bool" where
  "rb_wf rb \<longleftrightarrow>
     0 \<le> rb_channels rb \<and> 0 < rb_capacity rb \<and> rb_capacity rb < 2 ^ 31 \<and>
     length (rb_data rb) = nat (rb_channels rb) \<and>
     list_all (\<lambda>p. length p = rb_cap rb) (rb_data rb) \<and>
     rb_size rb \<le> rb_cap rb"

text \<open>
  The invariant adds that the write cursor's slot is the slot just after the queued
  frames: what the producer and the consumer agree on, both mapping a cursor \<open>c\<close> to
  slot \<^verbatim>\<open>c % N\<close>.
\<close>

definition rb_inv :: "'s ring \<Rightarrow> bool" where
  "rb_inv rb \<longleftrightarrow>
     rb_wf rb \<and> (unat (rb_read rb) + rb_size rb) mod rb_cap rb = unat (rb_write rb) mod rb_cap rb"

text \<open>
  Advancing a cursor \<open>c\<close> by up to \<open>N\<close> frames moves its slot by the same amount
  unless the cursor wraps at \<open>2^64\<close> and \<open>N\<close> does not divide \<open>2^64\<close>.
\<close>

definition rb_slot_safe :: "'s ring \<Rightarrow> size_t \<Rightarrow> bool" where
  "rb_slot_safe rb c \<longleftrightarrow> rb_cap rb dvd 2 ^ 64 \<or> unat c + rb_cap rb < 2 ^ 64"

subsection \<open>The contract: a bounded queue of frames per channel\<close>

text \<open>
  What \<^verbatim>\<open>push\<close> and \<^verbatim>\<open>pop\<close> promise (spec \S 4.1), as a queue that holds the
  number of queued frames and, per channel, the queued samples. \<open>q_push\<close> accepts the
  minimum of the request and the free space; \<open>q_pop\<close> hands out the minimum of the request
  and the queued frames.
\<close>

record 's fqueue =
  fq_len :: nat
  fq_chans :: "'s list list"

definition q_push :: "nat \<Rightarrow> 's fqueue \<Rightarrow> 's list list \<Rightarrow> nat \<Rightarrow> 's fqueue \<times> nat" where
  "q_push cap q ins frames =
     (let k = min frames (cap - fq_len q)
      in (\<lparr>fq_len = fq_len q + k, fq_chans = map2 (\<lambda>qs inp. qs @ take k inp) (fq_chans q) ins\<rparr>, k))"

definition q_pop :: "'s fqueue \<Rightarrow> nat \<Rightarrow> 's fqueue \<times> 's list list \<times> nat" where
  "q_pop q frames =
     (let k = min frames (fq_len q)
      in (\<lparr>fq_len = fq_len q - k, fq_chans = map (drop k) (fq_chans q)\<rparr>, map (take k) (fq_chans q), k))"

definition rb_abs :: "'s ring \<Rightarrow> 's fqueue" where
  "rb_abs rb = \<lparr>fq_len = rb_size rb, fq_chans = map (rb_frames rb) [0..<nat (rb_channels rb)]\<rparr>"

lemma rb_inv_wf: "rb_inv rb \<Longrightarrow> rb_wf rb"
  by (simp add: rb_inv_def)

lemma rb_wf_cap_word [word_bound_simps]:
  "rb_wf rb \<Longrightarrow> unat (word_of_int (rb_capacity rb) :: size_t) = rb_cap rb"
  by (simp add: rb_wf_def unat_word_of_int_nonneg)

lemma rb_slot_safe_add:
  assumes "rb_slot_safe rb c" and "unat k \<le> rb_cap rb"
  shows "unat (c + k) mod rb_cap rb = (unat c + unat k) mod rb_cap rb"
proof -
  from assms have "rb_cap rb dvd 2 ^ LENGTH(64) \<or> unat c + unat k < 2 ^ LENGTH(64)"
    by (auto simp: rb_slot_safe_def)
  then show ?thesis by (rule unat_add_mod_dvd)
qed

lemma rb_wf_size_word:
  "rb_wf rb \<Longrightarrow> unat ((word_of_int (rb_capacity rb) :: size_t) - (rb_write rb - rb_read rb)) =
     rb_cap rb - rb_size rb"
proof -
  assume inv: "rb_wf rb"
  then have "unat (rb_write rb - rb_read rb) \<le> unat (word_of_int (rb_capacity rb) :: size_t)"
    by (simp add: rb_wf_cap_word) (simp add: rb_wf_def rb_size_def)
  with inv show ?thesis by (simp add: unat_sub_le rb_wf_cap_word rb_size_def)
qed


lemma rb_wf_cap_bound: "rb_wf rb \<Longrightarrow> rb_cap rb < 2 ^ 31"
  by (simp add: rb_wf_def nat_less_iff)

text \<open>
  The word arithmetic that \<^verbatim>\<open>push\<close> and \<^verbatim>\<open>pop\<close> share, read as nat: a count \<open>t\<close> of
  \<open>k \<le> N\<close> frames, the slot \<^verbatim>\<open>c % N\<close> of a cursor, the split of the copy into the
  segment up to the end of the storage and the wrapped rest, and the \<^verbatim>\<open>(int)\<close> return.
\<close>

lemma rb_count_nat:
  assumes inv: "rb_wf rb" and t: "unat (t :: size_t) = k" and kN: "k \<le> rb_cap rb"
  shows "sint (ucast t :: 32 word) = int k"
    and "t = of_nat k"
    and "(t = 0) = (k = 0)"
proof -
  have "unat t < 2 ^ 31" using t kN rb_wf_cap_bound [OF inv] by linarith
  then show "sint (ucast t :: 32 word) = int k" by (simp add: sint_ucast_small t)
  show "t = of_nat k" by (simp flip: t)
  show "(t = 0) = (k = 0)" using t by (metis unat_0_iff)
qed

lemma rb_split_nat:
  assumes inv: "rb_wf rb" and t: "unat (t :: size_t) = k"
  defines "cap \<equiv> word_of_int (rb_capacity rb) :: size_t"
  shows "unat (c mod cap) = unat c mod rb_cap rb"
    and "unat (min t (cap - c mod cap)) = min k (rb_cap rb - unat c mod rb_cap rb)"
    and "unat (t - min t (cap - c mod cap)) = k - min k (rb_cap rb - unat c mod rb_cap rb)"
proof -
  have capN: "unat cap = rb_cap rb" using inv unfolding cap_def by (rule rb_wf_cap_word)
  have Npos: "0 < rb_cap rb" using inv by (simp add: rb_wf_def)
  show m: "unat (c mod cap) = unat c mod rb_cap rb" by (simp add: unat_mod_word capN)
  have mN: "unat c mod rb_cap rb < rb_cap rb" using Npos by simp
  have c1: "unat (cap - c mod cap) = rb_cap rb - unat c mod rb_cap rb"
    using m mN capN by (simp add: unat_sub_le)
  show f1: "unat (min t (cap - c mod cap)) = min k (rb_cap rb - unat c mod rb_cap rb)"
    by (simp only: unat_min_word [of t] t c1)
  show "unat (t - min t (cap - c mod cap)) = k - min k (rb_cap rb - unat c mod rb_cap rb)"
    by (simp only: unat_sub_le f1 t min.cobounded1 unat_min_word [of t] c1)
qed

lemma rb_push_nat:
  assumes inv: "rb_wf rb" and fr: "c_int frames"
  defines "k \<equiv> (if frames < 0 then rb_cap rb - rb_size rb else min (nat frames) (rb_cap rb - rb_size rb))"
    and "wm \<equiv> unat (rb_write rb) mod rb_cap rb"
  shows "rb_push rb ins channels frames =
    (if k = 0 then (rb, 0)
     else (rb\<lparr>rb_data := for_channels (nat (min channels (rb_channels rb)))
                (\<lambda>ch plane. rb_copy_in plane wm (min k (rb_cap rb - wm)) (k - min k (rb_cap rb - wm)) (ins ! ch))
                (rb_data rb),
             rb_write := rb_write rb + of_nat k\<rparr>, int k))"
proof -
  let ?tw = "min (word_of_int frames) ((word_of_int (rb_capacity rb) :: size_t) - (rb_write rb - rb_read rb))"
  have "rb_cap rb - rb_size rb < 2 ^ 31" using rb_wf_cap_bound [OF inv] by linarith
  then have tw: "unat ?tw = k" using inv fr
    by (simp add: unat_min_word rb_wf_size_word c_int_request k_def)
  have kN: "k \<le> rb_cap rb" by (simp add: k_def min.coboundedI2)
  note sp = rb_split_nat [OF inv tw, of "rb_write rb", folded wm_def]
  note ct = rb_count_nat [OF inv tw kN]
  show ?thesis
    unfolding rb_push_def Let_def sp ct(1,3)
    by (simp add: ct(2))
qed

lemma rb_pop_nat:
  assumes inv: "rb_wf rb" and fr: "c_int frames"
  defines "k \<equiv> (if frames < 0 then rb_size rb else min (nat frames) (rb_size rb))"
    and "rm \<equiv> unat (rb_read rb) mod rb_cap rb"
  shows "rb_pop rb outs channels frames =
    (if k = 0 then (rb, outs, 0)
     else (rb\<lparr>rb_read := rb_read rb + of_nat k\<rparr>,
           for_channels (nat (min channels (rb_channels rb)))
             (\<lambda>ch out. rb_copy_out out (rb_data rb ! ch) rm (min k (rb_cap rb - rm)) (k - min k (rb_cap rb - rm)))
             outs,
           int k))"
proof -
  let ?tr = "min (word_of_int frames) (rb_write rb - rb_read rb)"
  have sN: "rb_size rb \<le> rb_cap rb" using inv by (simp add: rb_wf_def)
  then have "rb_size rb < 2 ^ 31" using rb_wf_cap_bound [OF inv] by linarith
  then have tr: "unat ?tr = k" using fr
    by (simp add: unat_min_word c_int_request k_def flip: rb_size_def)
  from sN have kN: "k \<le> rb_cap rb" by (simp add: k_def min.coboundedI2)
  note sp = rb_split_nat [OF inv tr, of "rb_read rb", folded rm_def]
  note ct = rb_count_nat [OF inv tr kN]
  show ?thesis
    unfolding rb_pop_def Let_def sp ct(1,3)
    by (simp add: ct(2))
qed

subsection \<open>The two copies of one channel\<close>

lemma rb_copy_out_eq:
  assumes "length plane = N" and "rm < N" and "k \<le> N" and "k \<le> length out"
  shows "rb_copy_out out plane rm (min k (N - rm)) (k - min k (N - rm)) =
         map (\<lambda>i. plane ! ((rm + i) mod N)) [0..<k] @ drop k out"
proof (rule nth_equalityI)
  let ?f = "min k (N - rm)" and ?s = "k - min k (N - rm)"
  have l1: "length (blit out 0 (take ?f (drop rm plane))) = length out"
    using assms by simp
  show "length (rb_copy_out out plane rm ?f ?s) = length (map (\<lambda>i. plane ! ((rm + i) mod N)) [0..<k] @ drop k out)"
    using assms l1 by (simp add: rb_copy_out_def Let_def)
  fix j assume "j < length (rb_copy_out out plane rm ?f ?s)"
  then have j: "j < length out" using assms l1 by (simp add: rb_copy_out_def Let_def split: if_splits)
  consider "j < ?f" | "?f \<le> j" "j < k" | "k \<le> j" by linarith
  then show "rb_copy_out out plane rm ?f ?s ! j = (map (\<lambda>i. plane ! ((rm + i) mod N)) [0..<k] @ drop k out) ! j"
  proof cases
    case 1
    then show ?thesis using assms j l1
      by (auto simp: rb_copy_out_def Let_def nth_blit nth_append)
  next
    case 2
    then have "?f = N - rm" and "(rm + j) mod N = j - ?f" using assms
      by (auto simp: mod_if)
    with 2 show ?thesis using assms j l1
      by (auto simp: rb_copy_out_def Let_def nth_blit nth_append)
  next
    case 3
    then show ?thesis using assms j l1
      by (auto simp: rb_copy_out_def Let_def nth_blit nth_append)
  qed
qed

lemma rb_copy_in_nth:
  assumes "length plane = N" and "wm < N" and "k \<le> N" and "k \<le> length inp" and "i < N"
  shows "rb_copy_in plane wm (min k (N - wm)) (k - min k (N - wm)) inp ! ((wm + i) mod N) =
         (if i < k then inp ! i else plane ! ((wm + i) mod N))"
proof -
  let ?f = "min k (N - wm)" and ?s = "k - min k (N - wm)"
  have l1: "length (blit plane wm (take ?f inp)) = N"
    using assms by simp
  consider "wm + i < N" "i < ?f" | "wm + i < N" "?f \<le> i" | "N \<le> wm + i" "i < k" | "N \<le> wm + i" "k \<le> i"
    by linarith
  then show ?thesis
  proof cases
    case 1
    then show ?thesis using assms l1
      by (auto simp: rb_copy_in_def Let_def nth_blit)
  next
    case 2
    then show ?thesis using assms l1
      by (auto simp: rb_copy_in_def Let_def nth_blit)
  next
    case 3
    then have "?f = N - wm" and "(wm + i) mod N = i - ?f" using assms
      by (auto simp: mod_if)
    with 3 show ?thesis using assms l1
      by (auto simp: rb_copy_in_def Let_def nth_blit)
  next
    case 4
    then have "(wm + i) mod N = wm + i - N" using assms
      by (auto simp: mod_if)
    with 4 show ?thesis using assms l1
      by (auto simp: rb_copy_in_def Let_def nth_blit)
  qed
qed

lemma length_rb_copy_in:
  assumes "length plane = N" and "wm < N" and "k \<le> N" and "k \<le> length inp"
  shows "length (rb_copy_in plane wm (min k (N - wm)) (k - min k (N - wm)) inp) = N"
  using assms by (simp add: rb_copy_in_def Let_def)

subsection \<open>Effect of push and pop on the queued frames\<close>

lemma slot_before:
  assumes "(a + s) mod N = w" and "s \<le> N"
  shows "(a + i) mod (N::nat) = (w + (i + N - s)) mod N"
proof -
  have "(w + (i + N - s)) mod N = (a + s + (i + N - s)) mod N"
    by (simp add: assms(1) [symmetric] mod_add_left_eq)
  also have "a + s + (i + N - s) = (a + i) + N" using assms(2) by simp
  finally show ?thesis by simp
qed

lemma slot_after:
  assumes "(a + s) mod N = w" and "s \<le> i"
  shows "(a + i) mod (N::nat) = (w + (i - s)) mod N"
proof -
  have "(w + (i - s)) mod N = (a + s + (i - s)) mod N"
    by (simp add: assms(1) [symmetric] mod_add_left_eq)
  also have "a + s + (i - s) = a + i" using assms(2) by simp
  finally show ?thesis by simp
qed

lemma rb_push_size:
  assumes "rb_wf rb" and "k \<le> rb_cap rb - rb_size rb"
  shows "unat (rb_write rb + of_nat k - rb_read rb) = rb_size rb + k"
proof -
  have "rb_size rb \<le> rb_cap rb" using assms(1) by (simp add: rb_inv_def rb_wf_def)
  then have "rb_size rb + k \<le> rb_cap rb" using assms(2) by arith
  also have "\<dots> < 2 ^ 31" using assms(1) by (rule rb_wf_cap_bound)
  also have "(2::nat) ^ 31 < 2 ^ 64" by simp
  finally have lt: "rb_size rb + k < 2 ^ 64" .
  have eq: "rb_write rb + of_nat k - rb_read rb = (rb_write rb - rb_read rb) + of_nat k" by simp
  have "unat ((rb_write rb - rb_read rb) + (of_nat k :: size_t)) = rb_size rb + k"
    using lt by (simp add: unat_word_ariths(1) unat_of_nat rb_size_def)
  then show ?thesis by (simp only: eq)
qed

lemma rb_push_frames:
  assumes inv: "rb_inv rb" and fr: "c_int frames"
    and res: "rb_push rb ins channels frames = (rb', r)"
    and ch: "ch < nat (min channels (rb_channels rb))"
    and len: "nat r \<le> length (ins ! ch)"
  shows "rb_frames rb' ch = rb_frames rb ch @ take (nat r) (ins ! ch)"
proof -
  define k where "k = (if frames < 0 then rb_cap rb - rb_size rb else min (nat frames) (rb_cap rb - rb_size rb))"
  define wm where "wm = unat (rb_write rb) mod rb_cap rb"
  define N where "N = rb_cap rb"
  define s where "s = rb_size rb"
  note push = rb_push_nat [OF rb_inv_wf [OF inv] fr, of ins channels, folded k_def wm_def]
  show ?thesis
  proof (cases "k = 0")
    case True
    with push res show ?thesis by simp
  next
    case False
    have kN: "k \<le> N - s" by (simp add: k_def N_def s_def)
    have Npos: "0 < N" and sN: "s \<le> N" and coh: "(unat (rb_read rb) + s) mod N = wm"
      using inv by (simp_all add: rb_inv_def rb_wf_def N_def s_def wm_def)
    have chl: "ch < length (rb_data rb)" using inv ch by (simp add: rb_inv_def rb_wf_def)
    have plen: "length (rb_data rb ! ch) = N"
      using inv chl by (simp add: rb_inv_def rb_wf_def list_all_length N_def)
    have wmN: "wm < N" using Npos by (simp add: wm_def N_def)
    from False push res have r: "r = int k" and rb': "rb' = rb\<lparr>rb_data := for_channels (nat (min channels (rb_channels rb)))
                (\<lambda>ch plane. rb_copy_in plane wm (min k (N - wm)) (k - min k (N - wm)) (ins ! ch))
                (rb_data rb), rb_write := rb_write rb + of_nat k\<rparr>"
      by (auto simp: N_def)
    have klen: "k \<le> length (ins ! ch)" using len r by simp
    have size': "rb_size rb' = s + k"
      using rb_push_size [OF rb_inv_wf [OF inv]] kN by (simp add: rb' rb_size_def s_def N_def)
    have data': "rb_data rb' ! ch = rb_copy_in (rb_data rb ! ch) wm (min k (N - wm)) (k - min k (N - wm)) (ins ! ch)"
      using ch chl by (simp add: rb' nth_for_channels)
    have slot': "rb_slot rb' = rb_slot rb" by (simp add: rb' rb_slot_def fun_eq_iff)
    show ?thesis
    proof (rule nth_equalityI)
      show "length (rb_frames rb' ch) = length (rb_frames rb ch @ take (nat r) (ins ! ch))"
        using klen by (simp add: rb_frames_def size' r s_def)
    next
      fix i assume "i < length (rb_frames rb' ch)"
      then have i: "i < s + k" by (simp add: rb_frames_def size')
      show "rb_frames rb' ch ! i = (rb_frames rb ch @ take (nat r) (ins ! ch)) ! i"
      proof (cases "i < s")
        case True
        have sl: "rb_slot rb i = (wm + (i + N - s)) mod N"
          using slot_before [OF coh sN] by (simp add: rb_slot_def N_def)
        have "i + N - s < N" using True sN by arith
        moreover have "\<not> i + N - s < k" using kN by arith
        ultimately
        have "rb_data rb' ! ch ! rb_slot rb i = rb_data rb ! ch ! rb_slot rb i"
          unfolding data' sl using plen wmN kN klen
          by (subst rb_copy_in_nth) simp_all
        with True i show ?thesis
          by (simp add: rb_frames_def size' slot' nth_append s_def)
      next
        case False
        have sl: "rb_slot rb i = (wm + (i - s)) mod N"
          using slot_after [OF coh] False by (simp add: rb_slot_def N_def)
        have "i - s < N" using False i kN by arith
        moreover have "i - s < k" using False i by arith
        ultimately
        have "rb_data rb' ! ch ! rb_slot rb i = ins ! ch ! (i - s)"
          unfolding data' sl using plen wmN kN klen
          by (subst rb_copy_in_nth) simp_all
        with False i r show ?thesis
          by (simp add: rb_frames_def size' slot' nth_append s_def)
      qed
    qed
  qed
qed

lemma length_rb_copy_in_gen:
  assumes "length plane = N" and "wm < N" and "k \<le> N"
  shows "length (rb_copy_in plane wm (min k (N - wm)) (k - min k (N - wm)) inp) = N"
proof -
  have "wm + length (take (min k (N - wm)) inp) \<le> N" using assms by simp
  then show ?thesis using assms by (simp add: rb_copy_in_def Let_def)
qed

lemma rb_of_nat_count:
  assumes "rb_wf rb" and "k \<le> rb_cap rb"
  shows "unat (of_nat k :: size_t) = k"
proof -
  have "k < 2 ^ 31" using assms rb_wf_cap_bound [OF assms(1)] by linarith
  then show ?thesis by (simp add: unat_of_nat)
qed

lemma rb_push_wf:
  assumes wf: "rb_wf rb" and fr: "c_int frames"
  shows "rb_wf (fst (rb_push rb ins channels frames))"
proof -
  define k where "k = (if frames < 0 then rb_cap rb - rb_size rb else min (nat frames) (rb_cap rb - rb_size rb))"
  define wm where "wm = unat (rb_write rb) mod rb_cap rb"
  note push = rb_push_nat [OF wf fr, of ins channels, folded k_def wm_def]
  show ?thesis
  proof (cases "k = 0")
    case True
    with push wf show ?thesis by simp
  next
    case False
    let ?rb' = "fst (rb_push rb ins channels frames)"
    have kN: "k \<le> rb_cap rb - rb_size rb" by (simp add: k_def)
    have Npos: "0 < rb_cap rb" using wf by (simp add: rb_wf_def)
    have wmN: "wm < rb_cap rb" using Npos by (simp add: wm_def)
    have size': "rb_size ?rb' = rb_size rb + k"
      using False push rb_push_size [OF wf kN] by (simp add: rb_size_def)
    have planes: "list_all (\<lambda>p. length p = rb_cap rb) (rb_data ?rb')"
      using False push wf wmN kN
      by (auto simp: rb_wf_def list_all_length nth_for_channels length_rb_copy_in_gen)
    have f: "rb_channels ?rb' = rb_channels rb" "rb_capacity ?rb' = rb_capacity rb"
      "length (rb_data ?rb') = length (rb_data rb)"
      using False push by simp_all
    have "rb_size rb \<le> rb_cap rb" using wf by (simp add: rb_wf_def)
    with kN have "rb_size rb + k \<le> rb_cap rb" by arith
    then show ?thesis
      using wf planes size' unfolding rb_wf_def f by simp
  qed
qed

lemma rb_push_inv:
  assumes inv: "rb_inv rb" and fr: "c_int frames"
    and safe: "rb_slot_safe rb (rb_write rb)"
  shows "rb_inv (fst (rb_push rb ins channels frames))"
proof -
  have wf: "rb_wf rb" using inv by (rule rb_inv_wf)
  define k where "k = (if frames < 0 then rb_cap rb - rb_size rb else min (nat frames) (rb_cap rb - rb_size rb))"
  define wm where "wm = unat (rb_write rb) mod rb_cap rb"
  note push = rb_push_nat [OF wf fr, of ins channels, folded k_def wm_def]
  have wf': "rb_wf (fst (rb_push rb ins channels frames))" using wf fr by (rule rb_push_wf)
  show ?thesis
  proof (cases "k = 0")
    case True
    with push inv show ?thesis by simp
  next
    case False
    let ?rb' = "fst (rb_push rb ins channels frames)"
    have kN: "k \<le> rb_cap rb - rb_size rb" by (simp add: k_def)
    have size': "rb_size ?rb' = rb_size rb + k"
      using False push rb_push_size [OF wf kN] by (simp add: rb_size_def)
    have "(unat (rb_read rb) + rb_size rb) mod rb_cap rb = wm"
      using inv by (simp add: rb_inv_def wm_def)
    then have "(unat (rb_read rb) + (rb_size rb + k)) mod rb_cap rb = (unat (rb_write rb) + k) mod rb_cap rb"
      by (metis add.assoc mod_add_left_eq wm_def)
    also have "\<dots> = unat (rb_write rb + of_nat k) mod rb_cap rb"
      using rb_slot_safe_add [OF safe, of "of_nat k"] kN rb_of_nat_count [OF wf, of k] by simp
    finally have "(unat (rb_read ?rb') + rb_size ?rb') mod rb_cap ?rb' = unat (rb_write ?rb') mod rb_cap ?rb'"
      using False push size' by simp
    with wf' show ?thesis by (simp add: rb_inv_def)
  qed
qed

lemma rb_pop_size:
  assumes "k \<le> rb_size rb"
  shows "unat (rb_write rb - (rb_read rb + of_nat k)) = rb_size rb - k"
proof -
  have eq: "rb_write rb - (rb_read rb + of_nat k) = (rb_write rb - rb_read rb) - of_nat k" by simp
  have "unat (rb_write rb - rb_read rb) < 2 ^ LENGTH(64)" by (rule unsigned_less)
  then have "unat (of_nat k :: size_t) = k"
    using assms by (simp add: unat_of_nat rb_size_def)
  then have "unat ((rb_write rb - rb_read rb) - (of_nat k :: size_t)) = rb_size rb - k"
    using assms by (simp add: unat_sub_le rb_size_def)
  then show ?thesis by (simp only: eq)
qed

lemma rb_pop_wf:
  assumes wf: "rb_wf rb" and fr: "c_int frames"
  shows "rb_wf (fst (rb_pop rb outs channels frames))"
proof -
  define k where "k = (if frames < 0 then rb_size rb else min (nat frames) (rb_size rb))"
  define rm where "rm = unat (rb_read rb) mod rb_cap rb"
  note pop = rb_pop_nat [OF wf fr, of outs channels, folded k_def rm_def]
  show ?thesis
  proof (cases "k = 0")
    case True
    with pop wf show ?thesis by simp
  next
    case False
    let ?rb' = "fst (rb_pop rb outs channels frames)"
    have ks: "k \<le> rb_size rb" by (simp add: k_def)
    have size': "rb_size ?rb' = rb_size rb - k"
      using False pop rb_pop_size [OF ks] by (simp add: rb_size_def)
    have f: "rb_channels ?rb' = rb_channels rb" "rb_capacity ?rb' = rb_capacity rb"
      "rb_data ?rb' = rb_data rb"
      using False pop by simp_all
    have "rb_size rb \<le> rb_cap rb" using wf by (simp add: rb_wf_def)
    then have "rb_size rb - k \<le> rb_cap rb" by linarith
    then show ?thesis
      using wf size' unfolding rb_wf_def f by simp
  qed
qed

lemma rb_pop_inv:
  assumes inv: "rb_inv rb" and fr: "c_int frames"
    and safe: "rb_slot_safe rb (rb_read rb)"
  shows "rb_inv (fst (rb_pop rb outs channels frames))"
proof -
  have wf: "rb_wf rb" using inv by (rule rb_inv_wf)
  define k where "k = (if frames < 0 then rb_size rb else min (nat frames) (rb_size rb))"
  define rm where "rm = unat (rb_read rb) mod rb_cap rb"
  note pop = rb_pop_nat [OF wf fr, of outs channels, folded k_def rm_def]
  have wf': "rb_wf (fst (rb_pop rb outs channels frames))" using wf fr by (rule rb_pop_wf)
  show ?thesis
  proof (cases "k = 0")
    case True
    with pop inv show ?thesis by simp
  next
    case False
    let ?rb' = "fst (rb_pop rb outs channels frames)"
    have ks: "k \<le> rb_size rb" by (simp add: k_def)
    have sN: "rb_size rb \<le> rb_cap rb" using wf by (simp add: rb_wf_def)
    have size': "rb_size ?rb' = rb_size rb - k"
      using False pop rb_pop_size [OF ks] by (simp add: rb_size_def)
    have "unat (rb_read rb + of_nat k) mod rb_cap rb = (unat (rb_read rb) + k) mod rb_cap rb"
      using rb_slot_safe_add [OF safe, of "of_nat k"] ks sN rb_of_nat_count [OF wf, of k] by simp
    then have "(unat (rb_read rb + of_nat k) + (rb_size rb - k)) mod rb_cap rb
             = (unat (rb_read rb) + rb_size rb) mod rb_cap rb"
      using ks by (metis add.assoc le_add_diff_inverse mod_add_left_eq)
    also have "\<dots> = unat (rb_write rb) mod rb_cap rb" using inv by (simp add: rb_inv_def)
    finally have "(unat (rb_read ?rb') + rb_size ?rb') mod rb_cap ?rb' = unat (rb_write ?rb') mod rb_cap ?rb'"
      using False pop size' by simp
    with wf' show ?thesis by (simp add: rb_inv_def)
  qed
qed

lemma rb_pop_out:
  assumes inv: "rb_inv rb" and fr: "c_int frames"
    and res: "rb_pop rb outs channels frames = (rb', outs', r)"
    and ch: "ch < nat (min channels (rb_channels rb))" and chl: "ch < length outs"
    and len: "nat r \<le> length (outs ! ch)"
  shows "outs' ! ch = take (nat r) (rb_frames rb ch) @ drop (nat r) (outs ! ch)"
proof -
  define k where "k = (if frames < 0 then rb_size rb else min (nat frames) (rb_size rb))"
  define rm where "rm = unat (rb_read rb) mod rb_cap rb"
  note pop = rb_pop_nat [OF rb_inv_wf [OF inv] fr, of outs channels, folded k_def rm_def]
  show ?thesis
  proof (cases "k = 0")
    case True
    with pop res show ?thesis by simp
  next
    case False
    have ks: "k \<le> rb_size rb" by (simp add: k_def)
    have sN: "rb_size rb \<le> rb_cap rb" and Npos: "0 < rb_cap rb" using inv by (simp_all add: rb_inv_def rb_wf_def)
    have chd: "ch < length (rb_data rb)" using inv ch by (simp add: rb_inv_def rb_wf_def)
    have plen: "length (rb_data rb ! ch) = rb_cap rb"
      using inv chd by (simp add: rb_inv_def rb_wf_def list_all_length)
    from False pop res have r: "r = int k"
      and o: "outs' = for_channels (nat (min channels (rb_channels rb)))
             (\<lambda>ch out. rb_copy_out out (rb_data rb ! ch) rm (min k (rb_cap rb - rm)) (k - min k (rb_cap rb - rm))) outs"
      by auto
    have rmN: "rm < rb_cap rb" using Npos by (simp add: rm_def)
    have "outs' ! ch = map (\<lambda>i. rb_data rb ! ch ! ((rm + i) mod rb_cap rb)) [0..<k] @ drop k (outs ! ch)"
      using ch chl plen rmN ks sN len r by (simp add: o nth_for_channels rb_copy_out_eq)
    moreover have "take k (rb_frames rb ch) = map (\<lambda>i. rb_data rb ! ch ! ((rm + i) mod rb_cap rb)) [0..<k]"
      using ks by (simp add: rb_frames_def take_map rb_slot_def rm_def mod_add_left_eq min_def)
    ultimately show ?thesis using r by simp
  qed
qed

lemma rb_pop_out_other:
  assumes "rb_pop rb outs channels frames = (rb', outs', r)"
    and "nat (min channels (rb_channels rb)) \<le> ch" and "ch < length outs"
  shows "outs' ! ch = outs ! ch"
  using assms by (auto simp: rb_pop_def Let_def nth_for_channels split: if_splits)

lemma rb_pop_frames:
  assumes inv: "rb_inv rb" and fr: "c_int frames" and safe: "rb_slot_safe rb (rb_read rb)"
    and res: "rb_pop rb outs channels frames = (rb', outs', r)"
  shows "rb_frames rb' ch = drop (nat r) (rb_frames rb ch)"
proof -
  define k where "k = (if frames < 0 then rb_size rb else min (nat frames) (rb_size rb))"
  define rm where "rm = unat (rb_read rb) mod rb_cap rb"
  note pop = rb_pop_nat [OF rb_inv_wf [OF inv] fr, of outs channels, folded k_def rm_def]
  show ?thesis
  proof (cases "k = 0")
    case True
    with pop res show ?thesis by simp
  next
    case False
    have ks: "k \<le> rb_size rb" by (simp add: k_def)
    have sN: "rb_size rb \<le> rb_cap rb" using inv by (simp add: rb_inv_def rb_wf_def)
    have k64: "unat (of_nat k :: size_t) = k" using ks sN by (intro rb_of_nat_count [OF rb_inv_wf [OF inv]]) simp
    from False pop res have r: "r = int k" and rb': "rb' = rb\<lparr>rb_read := rb_read rb + of_nat k\<rparr>"
      by auto
    have size': "rb_size rb' = rb_size rb - k" using rb_pop_size [OF ks] by (simp add: rb' rb_size_def)
    have slot': "rb_slot rb' i = rb_slot rb (k + i)" for i
    proof -
      have "unat (rb_read rb + of_nat k) mod rb_cap rb = (unat (rb_read rb) + k) mod rb_cap rb"
        using rb_slot_safe_add [OF safe, of "of_nat k"] ks sN k64 by simp
      then have "(unat (rb_read rb + of_nat k) + i) mod rb_cap rb = (unat (rb_read rb) + k + i) mod rb_cap rb"
        by (metis mod_add_left_eq)
      then show ?thesis by (simp add: rb_slot_def rb' add.assoc)
    qed
    have data': "rb_data rb' = rb_data rb" by (simp add: rb')
    show ?thesis
    proof (rule nth_equalityI)
      show "length (rb_frames rb' ch) = length (drop (nat r) (rb_frames rb ch))"
        by (simp add: rb_frames_def size' r)
    next
      fix i assume "i < length (rb_frames rb' ch)"
      then have "k + i < rb_size rb" by (simp add: rb_frames_def size')
      then show "rb_frames rb' ch ! i = drop (nat r) (rb_frames rb ch) ! i"
        using ks by (simp add: rb_frames_def size' slot' r data')
    qed
  qed
qed

lemma rb_push_frames_other:
  assumes inv: "rb_inv rb" and fr: "c_int frames"
    and res: "rb_push rb ins channels frames = (rb', r)"
    and ch: "nat (min channels (rb_channels rb)) \<le> ch" "ch < nat (rb_channels rb)"
  shows "rb_frames rb' ch =
           rb_frames rb ch @ map (\<lambda>j. rb_data rb ! ch ! ((unat (rb_write rb) + j) mod rb_cap rb)) [0..<nat r]"
proof -
  define k where "k = (if frames < 0 then rb_cap rb - rb_size rb else min (nat frames) (rb_cap rb - rb_size rb))"
  define wm where "wm = unat (rb_write rb) mod rb_cap rb"
  note push = rb_push_nat [OF rb_inv_wf [OF inv] fr, of ins channels, folded k_def wm_def]
  show ?thesis
  proof (cases "k = 0")
    case True
    with push res show ?thesis by simp
  next
    case False
    have kN: "k \<le> rb_cap rb - rb_size rb" by (simp add: k_def)
    have coh: "(unat (rb_read rb) + rb_size rb) mod rb_cap rb = unat (rb_write rb) mod rb_cap rb"
      using inv by (simp add: rb_inv_def rb_wf_def)
    have chd: "ch < length (rb_data rb)" using inv ch by (simp add: rb_inv_def rb_wf_def)
    from False push res have r: "r = int k" and rb': "rb' = rb\<lparr>rb_data := for_channels (nat (min channels (rb_channels rb)))
                (\<lambda>ch plane. rb_copy_in plane wm (min k (rb_cap rb - wm)) (k - min k (rb_cap rb - wm)) (ins ! ch))
                (rb_data rb), rb_write := rb_write rb + of_nat k\<rparr>"
      by auto
    have size': "rb_size rb' = rb_size rb + k"
      using rb_push_size [OF rb_inv_wf [OF inv] kN] by (simp add: rb' rb_size_def)
    have nc: "\<not> ch < nat (min channels (rb_channels rb))" using ch(1) by simp
    have data': "rb_data rb' ! ch = rb_data rb ! ch"
      unfolding rb' using nth_for_channels [OF chd] nc by simp
    have slot': "rb_slot rb' = rb_slot rb" by (simp add: rb' rb_slot_def fun_eq_iff)
    have tail: "rb_slot rb (rb_size rb + j) = (unat (rb_write rb) + j) mod rb_cap rb" for j
      using slot_after [OF coh, of "rb_size rb + j"] by (simp add: rb_slot_def mod_add_left_eq)
    have "rb_frames rb' ch = map (\<lambda>i. rb_data rb ! ch ! rb_slot rb i) [0..<rb_size rb + k]"
      by (simp add: rb_frames_def size' slot' data')
    also have "\<dots> = rb_frames rb ch @ map (\<lambda>j. rb_data rb ! ch ! rb_slot rb (rb_size rb + j)) [0..<k]"
      by (rule nth_equalityI) (auto simp: rb_frames_def nth_append)
    finally show ?thesis by (simp add: tail r)
  qed
qed

subsection \<open>Results of one call\<close>

lemma rb_push_result:
  assumes wf: "rb_wf rb" and fr: "c_int frames"
    and res: "rb_push rb ins channels frames = (rb', r)"
  shows "r = int (if frames < 0 then rb_cap rb - rb_size rb else min (nat frames) (rb_cap rb - rb_size rb))"
    and "rb_size rb' = rb_size rb + nat r"
    and "rb_read rb' = rb_read rb" and "rb_channels rb' = rb_channels rb"
    and "rb_capacity rb' = rb_capacity rb"
proof -
  define k where "k = (if frames < 0 then rb_cap rb - rb_size rb else min (nat frames) (rb_cap rb - rb_size rb))"
  define wm where "wm = unat (rb_write rb) mod rb_cap rb"
  note push = rb_push_nat [OF wf fr, of ins channels, folded k_def wm_def]
  have kN: "k \<le> rb_cap rb - rb_size rb" by (simp add: k_def)
  show "r = int k" using push res by (simp split: if_splits)
  show "rb_size rb' = rb_size rb + nat r"
    using push res rb_push_size [OF wf kN] by (auto simp: rb_size_def split: if_splits)
  show "rb_read rb' = rb_read rb" "rb_channels rb' = rb_channels rb" "rb_capacity rb' = rb_capacity rb"
    using push res by (auto split: if_splits)
qed

lemma rb_pop_result:
  assumes wf: "rb_wf rb" and fr: "c_int frames"
    and res: "rb_pop rb outs channels frames = (rb', outs', r)"
  shows "r = int (if frames < 0 then rb_size rb else min (nat frames) (rb_size rb))"
    and "rb_size rb' = rb_size rb - nat r"
    and "rb_write rb' = rb_write rb" and "rb_channels rb' = rb_channels rb"
    and "rb_capacity rb' = rb_capacity rb" and "rb_data rb' = rb_data rb"
    and "length outs' = length outs"
proof -
  define k where "k = (if frames < 0 then rb_size rb else min (nat frames) (rb_size rb))"
  define rm where "rm = unat (rb_read rb) mod rb_cap rb"
  note pop = rb_pop_nat [OF wf fr, of outs channels, folded k_def rm_def]
  have ks: "k \<le> rb_size rb" by (simp add: k_def)
  show "r = int k" using pop res by (simp split: if_splits)
  show "rb_size rb' = rb_size rb - nat r"
    using pop res rb_pop_size [OF ks] by (auto simp: rb_size_def split: if_splits)
  show "rb_write rb' = rb_write rb" "rb_channels rb' = rb_channels rb" "rb_capacity rb' = rb_capacity rb"
    "rb_data rb' = rb_data rb" "length outs' = length outs"
    using pop res by (auto split: if_splits)
qed


subsection \<open>Refinement of the queue contract\<close>

lemma rb_push_abs:
  assumes inv: "rb_inv rb" and safe: "rb_slot_safe rb (rb_write rb)"
    and fr: "0 \<le> frames" "frames < 2 ^ 31"
    and chans: "rb_channels rb \<le> channels" "nat (rb_channels rb) \<le> length ins"
    and lens: "list_all (\<lambda>p. nat frames \<le> length p) ins"
    and res: "rb_push rb ins channels frames = (rb', r)"
  shows "rb_inv rb' \<and> q_push (rb_cap rb) (rb_abs rb) ins (nat frames) = (rb_abs rb', nat r)"
proof -
  have wf: "rb_wf rb" using inv by (rule rb_inv_wf)
  have ci: "c_int frames" using fr by (rule c_int_nonneg)
  note rr = rb_push_result [OF wf ci res]
  have r: "nat r = min (nat frames) (rb_cap rb - rb_size rb)" using rr(1) fr by simp
  have inv': "rb_inv rb'" using rb_push_inv [OF inv ci safe, of ins channels] res by simp
  have chs: "map (rb_frames rb') [0..<nat (rb_channels rb)] =
      map2 (\<lambda>qs inp. qs @ take (nat r) inp) (map (rb_frames rb) [0..<nat (rb_channels rb)]) ins"
  proof (rule nth_equalityI)
    show "length (map (rb_frames rb') [0..<nat (rb_channels rb)]) =
      length (map2 (\<lambda>qs inp. qs @ take (nat r) inp) (map (rb_frames rb) [0..<nat (rb_channels rb)]) ins)"
      using chans by simp
  next
    fix ch assume "ch < length (map (rb_frames rb') [0..<nat (rb_channels rb)])"
    then have ch: "ch < nat (rb_channels rb)" by simp
    then have chn: "ch < nat (min channels (rb_channels rb))" using chans by simp
    have "nat frames \<le> length (ins ! ch)"
      using lens ch chans by (simp add: list_all_length)
    then have "nat r \<le> length (ins ! ch)" using r by (simp add: min_le_iff_disj)
    with rb_push_frames [OF inv ci res chn] ch chans
    show "map (rb_frames rb') [0..<nat (rb_channels rb)] ! ch =
      map2 (\<lambda>qs inp. qs @ take (nat r) inp) (map (rb_frames rb) [0..<nat (rb_channels rb)]) ins ! ch"
      by simp
  qed
  show ?thesis
    using inv' chs r rr(2,4) by (simp add: q_push_def rb_abs_def Let_def)
qed

text \<open>
  C1. \<^verbatim>\<open>push\<close> implements the queue contract: from a state satisfying the invariant,
  a call that supplies all channels with at least the requested frames keeps the
  invariant and changes the abstract queue exactly as \<open>q_push\<close> does, returning the
  number of frames \<open>q_push\<close> accepts (the minimum of request and free space). The slot
  of the write cursor must not jump at \<open>2^64\<close> (\<open>rb_slot_safe\<close>).
\<close>

theorem rb_push_refines:
  assumes inv: "rb_inv rb" and safe: "rb_slot_safe rb (rb_write rb)"
    and fr: "0 \<le> frames" "frames < 2 ^ 31"
    and chans: "rb_channels rb \<le> channels" "nat (rb_channels rb) \<le> length ins"
    and lens: "list_all (\<lambda>p. nat frames \<le> length p) ins"
    and res: "rb_push rb ins channels frames = (rb', r)"
  shows "rb_inv rb' \<and> q_push (rb_cap rb) (rb_abs rb) ins (nat frames) = (rb_abs rb', nat r)"
  using rb_push_abs [OF inv safe fr chans lens res] .

text \<open>
  C2. \<^verbatim>\<open>pop\<close> implements the queue contract: it keeps the invariant, the abstract
  queue changes as \<open>q_pop\<close> says, the first \<open>k\<close> samples of each output plane are the
  \<open>k\<close> frames \<open>q_pop\<close> hands out (\<open>k\<close> the returned count, the minimum of request
  and queued frames), and the samples after them are left as they were.
\<close>

theorem rb_pop_refines:
  assumes inv: "rb_inv rb" and safe: "rb_slot_safe rb (rb_read rb)"
    and fr: "0 \<le> frames" "frames < 2 ^ 31"
    and chans: "rb_channels rb \<le> channels" "nat (rb_channels rb) \<le> length outs"
    and lens: "list_all (\<lambda>p. nat frames \<le> length p) outs"
    and res: "rb_pop rb outs channels frames = (rb', outs', r)"
  shows "rb_inv rb' \<and>
         q_pop (rb_abs rb) (nat frames) = (rb_abs rb', map (take (nat r)) (take (nat (rb_channels rb)) outs'), nat r) \<and>
         map (drop (nat r)) outs' = map (drop (nat r)) outs"
proof -
  have wf: "rb_wf rb" using inv by (rule rb_inv_wf)
  have ci: "c_int frames" using fr by (rule c_int_nonneg)
  note rr = rb_pop_result [OF wf ci res]
  have r: "nat r = min (nat frames) (rb_size rb)" using rr(1) fr by simp
  have inv': "rb_inv rb'" using rb_pop_inv [OF inv ci safe, of outs channels] res by simp
  have outch: "outs' ! ch = take (nat r) (rb_frames rb ch) @ drop (nat r) (outs ! ch)"
    if "ch < nat (rb_channels rb)" for ch
  proof -
    have chn: "ch < nat (min channels (rb_channels rb))" using that chans by simp
    have "nat frames \<le> length (outs ! ch)" using lens that chans by (simp add: list_all_length)
    then have "nat r \<le> length (outs ! ch)" using r by (simp add: min_le_iff_disj)
    then show ?thesis using rb_pop_out [OF inv ci res chn] that chans by simp
  qed
  have lenr: "nat r \<le> length (outs ! ch)" if "ch < length outs" for ch
  proof -
    have "nat frames \<le> length (outs ! ch)" using lens that by (simp add: list_all_length)
    then show ?thesis using r by (simp add: min_le_iff_disj)
  qed
  have frames': "rb_frames rb' ch = drop (nat r) (rb_frames rb ch)" for ch
    by (rule rb_pop_frames [OF inv ci safe res])
  have taken: "map (take (nat r)) (take (nat (rb_channels rb)) outs') = map (take (nat r)) (map (rb_frames rb) [0..<nat (rb_channels rb)])"
  proof (rule nth_equalityI)
    show "length (map (take (nat r)) (take (nat (rb_channels rb)) outs')) =
      length (map (take (nat r)) (map (rb_frames rb) [0..<nat (rb_channels rb)]))"
      using chans rr(7) by simp
  next
    fix i assume "i < length (map (take (nat r)) (take (nat (rb_channels rb)) outs'))"
    then have i: "i < nat (rb_channels rb)" by simp
    have "nat r \<le> length (rb_frames rb i)" by (simp add: rb_frames_def r)
    then show "map (take (nat r)) (take (nat (rb_channels rb)) outs') ! i =
      map (take (nat r)) (map (rb_frames rb) [0..<nat (rb_channels rb)]) ! i"
      using outch [OF i] i chans rr(7) by simp
  qed
  have rest: "map (drop (nat r)) outs' = map (drop (nat r)) outs"
  proof (rule nth_equalityI)
    show "length (map (drop (nat r)) outs') = length (map (drop (nat r)) outs)" using rr(7) by simp
  next
    fix ch assume "ch < length (map (drop (nat r)) outs')"
    then have ch: "ch < length outs" using rr(7) by simp
    show "map (drop (nat r)) outs' ! ch = map (drop (nat r)) outs ! ch"
    proof (cases "ch < nat (rb_channels rb)")
      case True
      then show ?thesis using outch [OF True] ch lenr [OF ch] rr(7)
        by (simp add: rb_frames_def r min_def)
    next
      case False
      then have "nat (min channels (rb_channels rb)) \<le> ch" by simp
      then show ?thesis using rb_pop_out_other [OF res _ ch] ch rr(7) by simp
    qed
  qed
  show ?thesis
    using inv' taken rest r rr(2,4) frames'
    by (simp add: q_pop_def rb_abs_def Let_def map_map comp_def)
qed

theorem rb_push_refines_witness:
  "rb_inv \<lparr>rb_channels = 1, rb_capacity = 4, rb_data = [[9, 9, 9, 9 :: int]], rb_write = 3, rb_read = 3\<rparr> \<and>
   rb_slot_safe \<lparr>rb_channels = 1, rb_capacity = 4, rb_data = [[9, 9, 9, 9 :: int]], rb_write = 3, rb_read = 3\<rparr> 3 \<and>
   rb_push \<lparr>rb_channels = 1, rb_capacity = 4, rb_data = [[9, 9, 9, 9 :: int]], rb_write = 3, rb_read = 3\<rparr> [[1, 2, 3]] 1 3 =
     (\<lparr>rb_channels = 1, rb_capacity = 4, rb_data = [[2, 3, 9, 1]], rb_write = 6, rb_read = 3\<rparr>, 3) \<and>
   rb_inv \<lparr>rb_channels = 1, rb_capacity = 4, rb_data = [[2, 3, 9, 1 :: int]], rb_write = 6, rb_read = 3\<rparr> \<and>
   q_push 4 (rb_abs \<lparr>rb_channels = 1, rb_capacity = 4, rb_data = [[9, 9, 9, 9 :: int]], rb_write = 3, rb_read = 3\<rparr>) [[1, 2, 3]] 3 =
     (rb_abs \<lparr>rb_channels = 1, rb_capacity = 4, rb_data = [[2, 3, 9, 1]], rb_write = 6, rb_read = 3\<rparr>, 3)"
proof -
  let ?r0 = "\<lparr>rb_channels = 1, rb_capacity = 4, rb_data = [[9, 9, 9, 9 :: int]], rb_write = 3, rb_read = 3\<rparr>"
  let ?r1 = "\<lparr>rb_channels = 1, rb_capacity = 4, rb_data = [[2, 3, 9, 1 :: int]], rb_write = 6, rb_read = 3\<rparr>"
  have inv: "rb_inv ?r0" by (simp add: rb_inv_def rb_wf_def rb_size_def)
  have safe: "rb_slot_safe ?r0 3" by (simp add: rb_slot_safe_def)
  have res: "rb_push ?r0 [[1, 2, 3]] 1 3 = (?r1, 3)"
    by (simp add: rb_push_def rb_copy_in_def blit_def for_channels_def)
  have "rb_inv ?r1 \<and> q_push (rb_cap ?r0) (rb_abs ?r0) [[1, 2, 3]] (nat 3) = (rb_abs ?r1, nat 3)"
    by (rule rb_push_refines [OF inv _ _ _ _ _ _ res]) (simp_all add: safe)
  then show ?thesis using inv safe res by simp
qed

theorem rb_pop_refines_witness:
  "rb_inv \<lparr>rb_channels = 1, rb_capacity = 4, rb_data = [[2, 3, 9, 1 :: int]], rb_write = 6, rb_read = 3\<rparr> \<and>
   rb_pop \<lparr>rb_channels = 1, rb_capacity = 4, rb_data = [[2, 3, 9, 1 :: int]], rb_write = 6, rb_read = 3\<rparr> [[0, 0, 0, 0, 0]] 1 5 =
     (\<lparr>rb_channels = 1, rb_capacity = 4, rb_data = [[2, 3, 9, 1]], rb_write = 6, rb_read = 6\<rparr>, [[1, 2, 3, 0, 0]], 3) \<and>
   q_pop (rb_abs \<lparr>rb_channels = 1, rb_capacity = 4, rb_data = [[2, 3, 9, 1 :: int]], rb_write = 6, rb_read = 3\<rparr>) 5 =
     (rb_abs \<lparr>rb_channels = 1, rb_capacity = 4, rb_data = [[2, 3, 9, 1]], rb_write = 6, rb_read = 6\<rparr>, [[1, 2, 3]], 3)"
proof -
  let ?r0 = "\<lparr>rb_channels = 1, rb_capacity = 4, rb_data = [[2, 3, 9, 1 :: int]], rb_write = 6, rb_read = 3\<rparr>"
  let ?r1 = "\<lparr>rb_channels = 1, rb_capacity = 4, rb_data = [[2, 3, 9, 1 :: int]], rb_write = 6, rb_read = 6\<rparr>"
  have inv: "rb_inv ?r0" by (simp add: rb_inv_def rb_wf_def rb_size_def)
  have safe: "rb_slot_safe ?r0 3" by (simp add: rb_slot_safe_def)
  have res: "rb_pop ?r0 [[0, 0, 0, 0, 0]] 1 5 = (?r1, [[1, 2, 3, 0, 0]], 3)"
    by (simp add: rb_pop_def rb_copy_out_def blit_def for_channels_def)
  have "rb_inv ?r1 \<and> q_pop (rb_abs ?r0) (nat 5) = (rb_abs ?r1, map (take (nat 3)) (take (nat (rb_channels ?r0)) [[1, 2, 3, 0, 0]]), nat 3) \<and>
        map (drop (nat 3)) [[1, 2, 3, 0, 0 :: int]] = map (drop (nat 3)) [[0, 0, 0, 0, 0]]"
    by (rule rb_pop_refines [OF inv _ _ _ _ _ _ res]) (simp_all add: safe)
  then show ?thesis using inv res by simp
qed

subsection \<open>Construction, clearing and output lengths\<close>

lemma rb_pop_out_length:
  assumes wf: "rb_wf rb" and fr: "c_int frames"
    and res: "rb_pop rb outs channels frames = (rb', outs', r)"
    and ch: "ch < length outs" and len: "nat r \<le> length (outs ! ch)"
  shows "length (outs' ! ch) = length (outs ! ch)"
proof -
  define k where "k = (if frames < 0 then rb_size rb else min (nat frames) (rb_size rb))"
  define rm where "rm = unat (rb_read rb) mod rb_cap rb"
  note pop = rb_pop_nat [OF wf fr, of outs channels, folded k_def rm_def]
  show ?thesis
  proof (cases "k = 0")
    case True
    with pop res show ?thesis by simp
  next
    case False
    have kN: "k \<le> rb_cap rb" using wf by (simp add: k_def rb_wf_def min.coboundedI2)
    have rmN: "rm < rb_cap rb" using wf by (simp add: rm_def rb_wf_def)
    from False pop res have r: "r = int k"
      and o: "outs' = for_channels (nat (min channels (rb_channels rb)))
             (\<lambda>ch out. rb_copy_out out (rb_data rb ! ch) rm (min k (rb_cap rb - rm)) (k - min k (rb_cap rb - rm))) outs"
      by auto
    show ?thesis
    proof (cases "ch < nat (min channels (rb_channels rb))")
      case True
      then have "ch < length (rb_data rb)" using wf by (simp add: rb_wf_def)
      then have "length (rb_data rb ! ch) = rb_cap rb" using wf by (simp add: rb_wf_def list_all_length)
      then show ?thesis using True ch len r kN rmN by (simp add: o nth_for_channels rb_copy_out_eq)
    next
      case False
      then show ?thesis using ch by (simp add: o nth_for_channels)
    qed
  qed
qed

lemma rb_frames_empty: "rb_size rb = 0 \<Longrightarrow> map (rb_frames rb) xs = replicate (length xs) []"
proof -
  assume "rb_size rb = 0"
  then have "rb_frames rb = (\<lambda>_. [])" by (simp add: fun_eq_iff rb_frames_def)
  then show ?thesis by (simp add: map_replicate_const)
qed

lemma rb_new_inv:
  assumes "rb_new channels capacity = Inr rb" and "0 < capacity" and "capacity < 2 ^ 31"
  shows "rb_inv rb \<and> rb_abs rb = \<lparr>fq_len = 0, fq_chans = replicate (nat channels) []\<rparr>"
proof -
  have "rb_size rb = 0" using assms by (auto simp: rb_new_def rb_size_def split: if_splits)
  then show ?thesis using assms
    by (auto simp: rb_new_def rb_inv_def rb_wf_def rb_abs_def rb_frames_empty list_all_length split: if_splits)
qed

text \<open>
  C23. \<^verbatim>\<open>clear\<close> resets both cursors and zeroes the storage: from any well-shaped
  ring it yields the empty queue, with the invariant.
\<close>

theorem rb_clear_empty:
  assumes "rb_wf rb"
  shows "rb_inv (rb_clear rb) \<and> rb_abs (rb_clear rb) = \<lparr>fq_len = 0, fq_chans = replicate (nat (rb_channels rb)) []\<rparr>
         \<and> list_all (list_all (\<lambda>x. x = 0)) (rb_data (rb_clear rb))"
proof -
  have "rb_size (rb_clear rb) = 0" by (simp add: rb_clear_def rb_size_def)
  then show ?thesis using assms
    by (auto simp: rb_clear_def rb_inv_def rb_wf_def rb_abs_def rb_frames_empty list_all_length)
qed

theorem rb_clear_empty_witness:
  "rb_inv (rb_clear \<lparr>rb_channels = 1, rb_capacity = 4, rb_data = [[2, 3, 9, 1 :: real]], rb_write = 6, rb_read = 3\<rparr>) \<and>
   rb_abs (rb_clear \<lparr>rb_channels = 1, rb_capacity = 4, rb_data = [[2, 3, 9, 1 :: real]], rb_write = 6, rb_read = 3\<rparr>) =
     \<lparr>fq_len = 0, fq_chans = [[]]\<rparr>"
  using rb_clear_empty [of "\<lparr>rb_channels = 1, rb_capacity = 4, rb_data = [[2, 3, 9, 1 :: real]], rb_write = 6, rb_read = 3\<rparr>"]
  by (simp add: rb_wf_def rb_size_def)

end
