(* ===== verification/Wav.thy ===== *)
theory Wav
  imports Prelude
begin

text \<open>
  The file format of the recorder (src/src/native/iplug/recorder/RecorderCore.cpp):
  the 44-byte RIFF/WAVE header that \<^verbatim>\<open>write_wav_header\<close> writes field by field, the
  conversion of a float sample to 16-bit PCM in the writer thread, the writer's
  interleaving loop and the bytes it hands to \<^verbatim>\<open>fwrite\<close>. An \<^verbatim>\<open>fwrite\<close> of a
  \<^verbatim>\<open>uint16_t\<close> or \<^verbatim>\<open>uint32_t\<close> writes its in-memory bytes, modelled for a
  little-endian host (x86-64, arm64) by \<open>le_bytes\<close>. A \<^verbatim>\<open>FILE*\<close> is its content and
  position (\<open>cfile\<close>); \<^verbatim>\<open>fwrite\<close> overwrites at the position and extends the file.
  The decoders \<open>le_decode\<close>, \<open>wav_parse\<close> and \<open>pcm_decode\<close> are the reader's side of
  the format, against which the writer is checked.
\<close>

unbundle bit_operations_syntax

subsection \<open>Bytes of a header field\<close>

fun le_bytes :: "nat \<Rightarrow> 'a::len word \<Rightarrow> byte list" where
  "le_bytes 0 w = []"
| "le_bytes (Suc n) w = ucast w # le_bytes n (drop_bit 8 w)"

fun le_decode :: "byte list \<Rightarrow> 'a::len word" where
  "le_decode [] = 0"
| "le_decode (b # bs) = ucast b OR push_bit 8 (le_decode bs)"

text \<open>\<^verbatim>\<open>std::fwrite("RIFF", 1, 4, file)\<close>: the four characters of a tag.\<close>

definition ascii :: "string \<Rightarrow> byte list" where
  "ascii s = map (\<lambda>c. of_nat (of_char c)) s"

subsection \<open>The header\<close>

text \<open>
  The 44 bytes \<^verbatim>\<open>write_wav_header\<close> writes, in its order. \<^verbatim>\<open>block_align\<close> is
  \<^verbatim>\<open>static_cast<uint16_t>(channels * (bits_per_sample / 8))\<close> and the two \<^verbatim>\<open>uint32_t\<close>
  products and sums wrap at \<open>2^32\<close>.
\<close>

definition wav_header :: "u32 \<Rightarrow> u16 \<Rightarrow> u32 \<Rightarrow> byte list" where
  "wav_header sample_rate channels data_bytes =
     (let audio_format = (1 :: u16);
          bits_per_sample = (16 :: u16);
          block_align = (word_of_int (uint channels * (uint bits_per_sample div 8)) :: u16);
          byte_rate = sample_rate * ucast block_align;
          riff_size = 36 + data_bytes;
          fmt_chunk_size = (16 :: u32)
      in ascii ''RIFF'' @ le_bytes 4 riff_size @ ascii ''WAVE'' @ ascii ''fmt ''
         @ le_bytes 4 fmt_chunk_size @ le_bytes 2 audio_format @ le_bytes 2 channels
         @ le_bytes 4 sample_rate @ le_bytes 4 byte_rate @ le_bytes 2 block_align
         @ le_bytes 2 bits_per_sample @ ascii ''data'' @ le_bytes 4 data_bytes)"

text \<open>The reader's view: the fields of a canonical 44-byte PCM header and the data after it.\<close>

record wav_fmt =
  wf_riff_size :: u32
  wf_format :: u16
  wf_channels :: u16
  wf_sample_rate :: u32
  wf_byte_rate :: u32
  wf_block_align :: u16
  wf_bits :: u16
  wf_data_bytes :: u32

definition slice :: "nat \<Rightarrow> nat \<Rightarrow> 'a list \<Rightarrow> 'a list" where
  "slice i n xs = take n (drop i xs)"

definition wav_parse :: "byte list \<Rightarrow> (wav_fmt \<times> byte list) option" where
  "wav_parse bs =
     (if length bs < 44 \<or> slice 0 4 bs \<noteq> ascii ''RIFF'' \<or> slice 8 4 bs \<noteq> ascii ''WAVE''
         \<or> slice 12 4 bs \<noteq> ascii ''fmt '' \<or> le_decode (slice 16 4 bs) \<noteq> (16 :: u32)
         \<or> slice 36 4 bs \<noteq> ascii ''data'' then None
      else Some (\<lparr>wf_riff_size = le_decode (slice 4 4 bs), wf_format = le_decode (slice 20 2 bs),
                  wf_channels = le_decode (slice 22 2 bs), wf_sample_rate = le_decode (slice 24 4 bs),
                  wf_byte_rate = le_decode (slice 28 4 bs), wf_block_align = le_decode (slice 32 2 bs),
                  wf_bits = le_decode (slice 34 2 bs), wf_data_bytes = le_decode (slice 40 4 bs)\<rparr>,
                 drop 44 bs))"

subsection \<open>Samples\<close>

text \<open>
  The writer's conversion of one sample: \<^verbatim>\<open>if (v > 1.0f) v = 1.0f; if (v < -1.0f)
  v = -1.0f;\<close> then \<^verbatim>\<open>static_cast<int16_t>(v * 32767.0f)\<close>, a truncation toward zero.
  An \<^verbatim>\<open>int16_t\<close> is a \<open>16 word\<close> read with \<open>sint\<close>.
\<close>

definition clamp_unit :: "real \<Rightarrow> real" where
  "clamp_unit v = (let v1 = (if 1 < v then 1 else v) in if v1 < -1 then -1 else v1)"

definition pcm16 :: "real \<Rightarrow> 16 word" where
  "pcm16 v = word_of_int (trunc_real (clamp_unit v * 32767))"

text \<open>
  The writer's nested loop \<^verbatim>\<open>for (f < frame_count) for (c < mChannels)
  interleaved[f * mChannels + c] = convert(buffers[c][f])\<close>, on the array it keeps
  between iterations.
\<close>

definition interleave_pcm :: "nat \<Rightarrow> plane list \<Rightarrow> nat \<Rightarrow> 16 word list \<Rightarrow> 16 word list" where
  "interleave_pcm ch bufs frames il =
     fold (\<lambda>f il. fold (\<lambda>c il. il[f * ch + c := pcm16 (bufs ! c ! f)]) [0..<ch] il) [0..<frames] il"

text \<open>Reference: the frames in file order, frame after frame, channel after channel.\<close>

definition frames_pcm :: "nat \<Rightarrow> plane list \<Rightarrow> nat \<Rightarrow> 16 word list" where
  "frames_pcm ch bufs frames = concat (map (\<lambda>f. map (\<lambda>c. pcm16 (bufs ! c ! f)) [0..<ch]) [0..<frames])"

text \<open>\<^verbatim>\<open>std::fwrite(interleaved.data(), sizeof(int16_t), n, mFile)\<close>: two bytes per sample.\<close>

definition pcm_bytes :: "16 word list \<Rightarrow> byte list" where
  "pcm_bytes xs = concat (map (le_bytes 2) xs)"


subsection \<open>Files\<close>

record cfile =
  f_data :: "byte list"
  f_pos :: nat

text \<open>\<^verbatim>\<open>std::fopen(path, "wb")\<close> that succeeds: an empty file.\<close>

definition fopen_wb :: cfile where
  "fopen_wb = \<lparr>f_data = [], f_pos = 0\<rparr>"

definition fwrite :: "cfile \<Rightarrow> byte list \<Rightarrow> cfile" where
  "fwrite f bs = f\<lparr>f_data := blit (f_data f) (f_pos f) bs, f_pos := f_pos f + length bs\<rparr>"

text \<open>
  \<^verbatim>\<open>write_wav_header(file, sample_rate, channels, data_bytes)\<close>: nothing on a null
  file, otherwise \<^verbatim>\<open>fseek(file, 0, SEEK_SET)\<close> and the header; the position is left
  after it.
\<close>

definition write_wav_header :: "cfile option \<Rightarrow> u32 \<Rightarrow> u16 \<Rightarrow> u32 \<Rightarrow> cfile option" where
  "write_wav_header file sample_rate channels data_bytes =
     (case file of None \<Rightarrow> None
      | Some f \<Rightarrow> Some (fwrite (f\<lparr>f_pos := 0\<rparr>) (wav_header sample_rate channels data_bytes)))"

subsection \<open>Lemmas\<close>

lemma length_le_bytes [simp]: "length (le_bytes n w) = n"
  by (induction n arbitrary: w) simp_all

lemma le_decode_take_bit: "le_decode (le_bytes n w) = take_bit (8 * n) (w :: 'a::len word)"
proof (induction n arbitrary: w)
  case 0
  then show ?case by simp
next
  case (Suc n)
  show ?case
    by (rule bit_word_eqI) (auto simp: Suc bit_simps)
qed

lemma le_decode_le_bytes:
  "LENGTH('a) \<le> 8 * n \<Longrightarrow> le_decode (le_bytes n w) = (w :: 'a::len word)"
  by (simp add: le_decode_take_bit take_bit_word_eq_self)


lemma length_wav_header [simp]: "length (wav_header sr ch db) = 44"
  by (simp add: wav_header_def ascii_def Let_def)

lemma clamp_unit_range: "-1 \<le> clamp_unit v \<and> clamp_unit v \<le> 1"
  by (simp add: clamp_unit_def Let_def)

lemma clamp_unit_id: "-1 \<le> v \<Longrightarrow> v \<le> 1 \<Longrightarrow> clamp_unit v = v"
  by (simp add: clamp_unit_def Let_def)

lemma clamp_unit_mono: "v \<le> w \<Longrightarrow> clamp_unit v \<le> clamp_unit w"
  by (simp add: clamp_unit_def Let_def)

lemma pcm16_bound: "\<bar>trunc_real (clamp_unit v * 32767)\<bar> \<le> 32767"
proof -
  have "\<bar>clamp_unit v * 32767\<bar> \<le> of_int 32767"
    using clamp_unit_range [of v] by (simp add: abs_le_iff)
  then show ?thesis by (rule trunc_real_bound)
qed

lemma pcm16_value: "sint (pcm16 v) = trunc_real (clamp_unit v * 32767)"
  using pcm16_bound [of v]
  by (simp add: pcm16_def sint_sbintrunc' signed_take_bit_int_eq_self abs_le_iff)

lemma pcm16_mono: "v \<le> w \<Longrightarrow> sint (pcm16 v) \<le> sint (pcm16 w)"
  by (simp add: pcm16_value trunc_real_mono clamp_unit_mono)

lemma length_frames_pcm [simp]: "length (frames_pcm ch bufs frames) = frames * ch"
  by (induction frames) (simp_all add: frames_pcm_def)

lemma frames_pcm_Suc:
  "frames_pcm ch bufs (Suc f) = frames_pcm ch bufs f @ map (\<lambda>c. pcm16 (bufs ! c ! f)) [0..<ch]"
  by (simp add: frames_pcm_def)

lemma length_pcm_bytes [simp]: "length (pcm_bytes xs) = 2 * length xs"
  by (induction xs) (simp_all add: pcm_bytes_def)

lemma pcm_bytes_append [simp]: "pcm_bytes (xs @ ys) = pcm_bytes xs @ pcm_bytes ys"
  by (simp add: pcm_bytes_def)

lemma fwrite_end:
  "f_pos f = length (f_data f) \<Longrightarrow>
   fwrite f bs = \<lparr>f_data = f_data f @ bs, f_pos = length (f_data f) + length bs\<rparr>"
  by (simp add: fwrite_def blit_def)

lemma write_wav_header_body:
  assumes "f_data f = wav_header sr0 ch0 db0 @ body"
  shows "write_wav_header (Some f) sr ch db = Some \<lparr>f_data = wav_header sr ch db @ body, f_pos = 44\<rparr>"
  using assms by (simp add: write_wav_header_def fwrite_def blit_def)

lemma write_wav_header_new:
  "write_wav_header (Some fopen_wb) sr ch db = Some \<lparr>f_data = wav_header sr ch db, f_pos = 44\<rparr>"
  by (simp add: write_wav_header_def fwrite_def fopen_wb_def blit_def)

lemma interleave_pcm_eq:
  "frames * ch \<le> length il \<Longrightarrow>
   interleave_pcm ch bufs frames il = frames_pcm ch bufs frames @ drop (frames * ch) il"
proof (induction frames)
  case 0
  then show ?case by (simp add: interleave_pcm_def frames_pcm_def)
next
  case (Suc f)
  let ?X = "frames_pcm ch bufs f @ drop (f * ch) il"
  have IH: "interleave_pcm ch bufs f il = ?X" using Suc by simp
  have len: "f * ch + ch \<le> length ?X" using Suc.prems by simp
  have "interleave_pcm ch bufs (Suc f) il
        = fold (\<lambda>c ys. ys[f * ch + c := pcm16 (bufs ! c ! f)]) [0..<ch] ?X"
    using IH by (simp add: interleave_pcm_def)
  also have "\<dots> = take (f * ch) ?X @ map (\<lambda>c. pcm16 (bufs ! c ! f)) [0..<ch] @ drop (f * ch + ch) ?X"
    by (rule fold_update_block [OF len])
  also have "\<dots> = frames_pcm ch bufs (Suc f) @ drop (Suc f * ch) il"
    by (simp add: frames_pcm_Suc add.commute)
  finally show ?case .
qed

lemma length_interleave_pcm [simp]: "length (interleave_pcm ch bufs frames il) = length il"
  by (simp add: interleave_pcm_def)

lemma frames_pcm_cong:
  assumes "\<And>c f. c < ch \<Longrightarrow> f < k \<Longrightarrow> A ! c ! f = B ! c ! f"
  shows "frames_pcm ch A k = frames_pcm ch B k"
  unfolding frames_pcm_def by (intro arg_cong [where f = concat] map_cong refl) (simp add: assms)

text \<open>The frames of a queue in file order: its first \<open>k\<close> frames, then the rest.\<close>

lemma frames_pcm_split:
  assumes "k \<le> n" and "\<And>c. c < ch \<Longrightarrow> c < length Q \<and> n \<le> length (Q ! c)"
  shows "frames_pcm ch Q n = frames_pcm ch Q k @ frames_pcm ch (map (drop k) Q) (n - k)"
proof -
  have "[0..<n] = [0..<k] @ [k..<n]"
    using assms(1) upt_add_eq_append [of 0 k "n - k"] by simp
  moreover have "[k..<n] = map (\<lambda>i. k + i) [0..<n - k]"
    using assms(1) map_add_upt [of k "n - k"] by (simp add: add.commute)
  ultimately have u: "[0..<n] = [0..<k] @ map (\<lambda>i. k + i) [0..<n - k]" by simp
  have e: "Q ! c ! (k + f) = map (drop k) Q ! c ! f" if "c < ch" for c f
  proof -
    have "c < length Q" "n \<le> length (Q ! c)" using assms(2) [OF that] by simp_all
    then show ?thesis using assms(1) by (simp add: nth_drop)
  qed
  have m: "map (\<lambda>f. map (\<lambda>c. pcm16 (Q ! c ! (k + f))) [0..<ch]) [0..<n - k]
        = map (\<lambda>f. map (\<lambda>c. pcm16 (map (drop k) Q ! c ! f)) [0..<ch]) [0..<n - k]"
    using e by simp
  have "frames_pcm ch Q n = frames_pcm ch Q k @
      concat (map (\<lambda>f. map (\<lambda>c. pcm16 (Q ! c ! (k + f))) [0..<ch]) [0..<n - k])"
    by (simp add: frames_pcm_def u comp_def)
  also have "\<dots> = frames_pcm ch Q k @ frames_pcm ch (map (drop k) Q) (n - k)"
    unfolding frames_pcm_def m ..
  finally show ?thesis .
qed

lemma fwrite_append:
  "f_pos f = length (f_data f) \<Longrightarrow> fwrite (fwrite f a) b = fwrite f (a @ b)"
  by (simp add: fwrite_end)

lemma fwrite_Nil: "f_pos f = length (f_data f) \<Longrightarrow> fwrite f [] = f"
  by (simp add: fwrite_end)

lemma pcm_bytes_Nil [simp]: "pcm_bytes [] = []"
  by (simp add: pcm_bytes_def)

lemma frames_pcm_0 [simp]: "frames_pcm ch bufs 0 = []"
  by (simp add: frames_pcm_def)


text \<open>
  Clipping: a sample at or above full scale, such as 2.0, is written as the largest
  16-bit value 32767, not wrapped.
\<close>

theorem pcm16_clip_high: "1 \<le> v \<Longrightarrow> sint (pcm16 v) = 32767"
  by (simp add: pcm16_value clamp_unit_def Let_def trunc_real_def)

theorem pcm16_clip_high_witness: "1 \<le> (2 :: real) \<and> sint (pcm16 2) = 32767"
  using pcm16_clip_high [of 2] by simp

text \<open>
  C10. Every converted sample lies in [-32767, 32767]: the conversion never wraps the
  16-bit range, and the sample -32768 is never produced.
\<close>

theorem pcm16_range: "-32767 \<le> sint (pcm16 v) \<and> sint (pcm16 v) \<le> 32767"
  using pcm16_bound [of v] by (simp add: pcm16_value abs_le_iff)

text \<open>
  C18. Within full scale the conversion is exact up to quantisation: the 16-bit value
  differs from \<open>32767 v\<close> by less than one step.
\<close>

theorem pcm16_error:
  "-1 \<le> v \<Longrightarrow> v \<le> 1 \<Longrightarrow> \<bar>of_int (sint (pcm16 v)) - 32767 * v\<bar> < 1"
  using trunc_real_error [of "v * 32767"] by (simp add: pcm16_value clamp_unit_id mult.commute)

theorem pcm16_error_witness:
  "-1 \<le> (1 / 2 :: real) \<and> (1 / 2 :: real) \<le> 1 \<and> \<bar>of_int (sint (pcm16 (1 / 2))) - 32767 * (1 / 2 :: real)\<bar> < 1"
  using pcm16_error [of "1 / 2"] by simp

text \<open>
  C8. The writer's nested loop computes the samples in file order: the first
  \<open>frames * ch\<close> entries of the interleaved array, which the writer hands to
  \<^verbatim>\<open>fwrite\<close>, are frame 0's samples channel by channel, then frame 1's, and so on.
\<close>

theorem interleave_pcm_written:
  "frames * ch \<le> length il \<Longrightarrow>
   take (frames * ch) (interleave_pcm ch bufs frames il) = frames_pcm ch bufs frames"
  by (simp add: interleave_pcm_eq)

theorem interleave_pcm_written_witness:
  "2 * 2 \<le> length (replicate 5 (0 :: 16 word)) \<and>
   take (2 * 2) (interleave_pcm 2 [[1, -1], [2, 0]] 2 (replicate 5 0)) =
     frames_pcm 2 [[1, -1], [2, 0]] 2"
  using interleave_pcm_written [of 2 2 "replicate 5 0" "[[1, -1], [2, 0]]"] by simp

text \<open>
  C9. Round trip of the header: a reader of the file \<^verbatim>\<open>write_wav_header\<close> produced finds
  every field where the WAVE format puts it: PCM format 1, the channels, the sample rate,
  16 bits per sample, \<open>block_align = 2 channels\<close>, \<open>byte_rate = sample_rate *
  block_align\<close>, \<open>riff_size = 36 + data_bytes\<close>, and the data after byte 44.
\<close>

theorem wav_parse_header:
  "wav_parse (wav_header sr ch db @ body) =
     Some (\<lparr>wf_riff_size = 36 + db, wf_format = 1, wf_channels = ch, wf_sample_rate = sr,
            wf_byte_rate = sr * ucast (word_of_int (uint ch * 2) :: u16),
            wf_block_align = word_of_int (uint ch * 2), wf_bits = 16, wf_data_bytes = db\<rparr>, body)"
  by (simp add: wav_parse_def wav_header_def slice_def ascii_def Let_def le_decode_le_bytes)


end
