(* ===== verification/Recorder.thy ===== *)
theory Recorder
  imports RingBuffer Wav
begin

text \<open>
  The capture sink \<^verbatim>\<open>RecorderCore\<close> and its C ABI
  (src/src/native/iplug/recorder/RecorderCore.cpp, RecorderCore.h): a second ring buffer,
  fed by \<^verbatim>\<open>push\<close>/\<^verbatim>\<open>push_interleaved\<close> from the audio thread and drained by a writer
  thread that converts to 16-bit PCM and appends to a WAV file whose header \<^verbatim>\<open>stop\<close>
  patches. The object is the record \<open>recorder_core\<close>; each method is a function of it.
  The writer thread is \<open>rc_writer_pop\<close> (one iteration) and \<open>rc_writer_loop\<close> (the
  loop, a \<^theory_text>\<open>partial_function (option)\<close>); the ring is the model of RingBuffer.thy,
  the file format that of Wav.thy.
\<close>

text \<open>
  The source tag (\<^verbatim>\<open>enum class RecorderSource\<close>), the constants of the anonymous namespace, and \<^verbatim>\<open>parse_source\<close>: a null pointer is \<open>None\<close>.
\<close>

datatype recorder_source = Mic | Plugin

definition kDefaultSampleRate :: u32 where "kDefaultSampleRate = 48000"
definition kMaxChannels :: u16 where "kMaxChannels = 8"
definition kChunkFrames :: u32 where "kChunkFrames = 1024"
definition kRingSeconds :: u32 where "kRingSeconds = 4"

definition parse_source :: "string option \<Rightarrow> recorder_source" where
  "parse_source source =
     (case source of None \<Rightarrow> Mic
      | Some s \<Rightarrow> if s = ''plugin'' \<or> s = ''plugin_output'' then Plugin else Mic)"

text \<open>
  The fields of \<^verbatim>\<open>class RecorderCore\<close>. \<^verbatim>\<open>mRing\<close> and \<^verbatim>\<open>mFile\<close> are options (null or not), \<^verbatim>\<open>mWriterThread\<close> is whether it is joinable, \<^verbatim>\<open>mScratchPtrs\<close> is its size (its entries point into \<^verbatim>\<open>mScratch\<close>). The writer thread's locals \<^verbatim>\<open>buffers\<close> and \<^verbatim>\<open>interleaved\<close> are the last two fields: they live as long as the thread and keep their content between iterations. The mutex is not modelled: each method is one step of the model.
\<close>

record recorder_core =
  rc_running :: bool
  rc_source :: recorder_source
  rc_sample_rate :: u32
  rc_channels :: u16
  rc_ring :: "real ring option"
  rc_file :: "cfile option"
  rc_writer :: bool
  rc_total_frames :: u64
  rc_scratch :: "plane list"
  rc_scratch_ptrs :: nat
  rc_w_buffers :: "plane list"
  rc_w_interleaved :: "16 word list"

definition rc_new :: recorder_core where
  "rc_new = \<lparr>rc_running = False, rc_source = Mic, rc_sample_rate = 0, rc_channels = 0,
             rc_ring = None, rc_file = None, rc_writer = False, rc_total_frames = 0,
             rc_scratch = [], rc_scratch_ptrs = 0, rc_w_buffers = [], rc_w_interleaved = []\<rparr>"

text \<open>
  The error strings \<^verbatim>\<open>start\<close> and \<^verbatim>\<open>stop\<close> report.
\<close>

datatype rec_error = Already_running | Empty_path | Open_failed | Not_running

text \<open>
  \<^verbatim>\<open>start_writer\<close>: the thread is created and sizes its locals to \<^verbatim>\<open>mChannels\<close> planes of \<^verbatim>\<open>kChunkFrames\<close> samples and \<^verbatim>\<open>kChunkFrames * mChannels\<close> interleaved samples.
\<close>

definition rc_start_writer :: "recorder_core \<Rightarrow> recorder_core" where
  "rc_start_writer rc =
     rc\<lparr>rc_writer := True,
        rc_w_buffers := replicate (unat (rc_channels rc)) (replicate (unat kChunkFrames) 0),
        rc_w_interleaved := replicate (unat kChunkFrames * unat (rc_channels rc)) 0\<rparr>"

text \<open>
  \<^verbatim>\<open>start\<close>. \<open>fopen_ok\<close> is the outcome of \<^verbatim>\<open>std::fopen(path, \"wb\")\<close>. The products of \<^verbatim>\<open>uint32_t\<close> values wrap at \<open>2^32\<close> and \<^verbatim>\<open>static_cast<int>(ring_frames)\<close> is \<open>sint\<close>; when the \<^verbatim>\<open>RingBuffer\<close> constructor throws, the exception leaves \<^verbatim>\<open>start\<close> (the outer \<open>Inl\<close>), after the file was opened and the header written.
\<close>

definition rc_start ::
  "recorder_core \<Rightarrow> string option \<Rightarrow> u32 \<Rightarrow> u16 \<Rightarrow> recorder_source \<Rightarrow> bool \<Rightarrow>
   rb_error + (rec_error + recorder_core)" where
  "rc_start rc abs_wav_path sample_rate channels source fopen_ok =
     (if rc_running rc then Inr (Inl Already_running)
      else if abs_wav_path = None \<or> abs_wav_path = Some [] then Inr (Inl Empty_path)
      else
        let sr = (if 0 < sample_rate then sample_rate else kDefaultSampleRate);
            ch0 = (if channels = 0 then 1 else channels);
            ch = (if kMaxChannels < ch0 then kMaxChannels else ch0)
        in if \<not> fopen_ok then Inr (Inl Open_failed)
           else
             let file = write_wav_header (Some fopen_wb) sr ch 0;
                 ring_frames = max (kChunkFrames * 2) (sr * kRingSeconds)
             in case rb_new (uint ch) (sint ring_frames) of
                  Inl e \<Rightarrow> Inl e
                | Inr ring \<Rightarrow> Inr (Inr (rc_start_writer
                    (rc\<lparr>rc_ring := Some ring, rc_file := file, rc_sample_rate := sr,
                        rc_channels := ch, rc_source := source, rc_total_frames := 0,
                        rc_running := True,
                        rc_scratch := replicate (unat ch) (replicate (unat kChunkFrames) 0),
                        rc_scratch_ptrs := unat ch\<rparr>))))"

text \<open>
  One pass of the writer thread's \<^verbatim>\<open>while (true)\<close> up to its \<^verbatim>\<open>continue\<close>: pop up to \<^verbatim>\<open>kChunkFrames\<close> frames into \<^verbatim>\<open>buffers\<close>, convert and interleave them, \<^verbatim>\<open>fwrite\<close> the \<open>frames * mChannels\<close> samples, add the frames to \<^verbatim>\<open>mTotalFrames\<close>. Returns the popped count.
\<close>

definition rc_writer_pop :: "recorder_core \<Rightarrow> recorder_core \<times> int" where
  "rc_writer_pop rc =
     (case rc_ring rc of
        None \<Rightarrow> (rc, 0)
      | Some ring \<Rightarrow>
          (case rb_pop ring (rc_w_buffers rc) (uint (rc_channels rc)) (uint kChunkFrames) of
             (ring', bufs, frames) \<Rightarrow>
               if 0 < frames then
                 let il = interleave_pcm (unat (rc_channels rc)) bufs (nat frames) (rc_w_interleaved rc);
                     n = nat frames * unat (rc_channels rc)
                 in (rc\<lparr>rc_ring := Some ring', rc_w_buffers := bufs, rc_w_interleaved := il,
                        rc_file := map_option (\<lambda>f. fwrite f (pcm_bytes (take n il))) (rc_file rc),
                        rc_total_frames := rc_total_frames rc + of_nat (nat frames)\<rparr>, frames)
               else (rc\<lparr>rc_ring := Some ring', rc_w_buffers := bufs\<rparr>, frames)))"

text \<open>
  The writer thread's loop: after a pop that returned frames, loop; after an empty pop, leave if \<^verbatim>\<open>mRunning\<close> is clear, otherwise sleep 2 ms and loop. Run on its own (no producer, no \<^verbatim>\<open>stop\<close>), a loop with the flag set never leaves: that is the value \<open>None\<close>.
\<close>

partial_function (option) rc_writer_loop :: "recorder_core \<Rightarrow> recorder_core option" where
  "rc_writer_loop rc =
     (case rc_writer_pop rc of
        (rc', frames) \<Rightarrow>
          if 0 < frames then rc_writer_loop rc'
          else if \<not> rc_running rc' then Some rc'
          else rc_writer_loop rc')"

text \<open>
  \<^verbatim>\<open>stop\<close>: clear the flag, join the writer (its loop runs to its end; \<open>None\<close> if it never ends), then (\<open>rc_stop_finish\<close>, after the join) patch the header with \<^verbatim>\<open>data_bytes = (uint32_t)(mTotalFrames * mChannels * sizeof(int16_t))\<close>, close the file (returned as the file's final content), compute the duration, release the ring and reset the count.
\<close>

definition rc_stop_finish :: "recorder_core \<Rightarrow> recorder_core \<times> real \<times> cfile option" where
  "rc_stop_finish rc2 =
     (let rc3 = rc2\<lparr>rc_writer := False\<rparr>;
          data_bytes = (ucast (rc_total_frames rc3 * ucast (rc_channels rc3) * 2) :: u32);
          final_file = (case rc_file rc3 of None \<Rightarrow> None
                    | Some f \<Rightarrow> write_wav_header (Some f) (rc_sample_rate rc3) (rc_channels rc3) data_bytes);
          duration = (if 0 < rc_sample_rate rc3
                      then real (unat (rc_total_frames rc3)) / real (unat (rc_sample_rate rc3)) else 0)
      in (rc3\<lparr>rc_file := None, rc_ring := None, rc_total_frames := 0\<rparr>, duration, final_file))"

definition rc_stop :: "recorder_core \<Rightarrow> (rec_error + recorder_core \<times> real \<times> cfile option) option" where
  "rc_stop rc =
     (if \<not> rc_running rc then Some (Inl Not_running)
      else
        let rc1 = rc\<lparr>rc_running := False\<rparr>
        in case (if rc_writer rc1 then rc_writer_loop rc1 else Some rc1) of
             None \<Rightarrow> None
           | Some rc2 \<Rightarrow> Some (Inr (rc_stop_finish rc2)))"

text \<open>
  \<^verbatim>\<open>push\<close>: forward the planes to the ring's \<^verbatim>\<open>push\<close> with \<^verbatim>\<open>min(channels, mChannels)\<close> channels and \<^verbatim>\<open>static_cast<int>(frames)\<close> frames.
\<close>

definition rc_push :: "recorder_core \<Rightarrow> plane list option \<Rightarrow> u16 \<Rightarrow> u32 \<Rightarrow> recorder_core" where
  "rc_push rc data channels frames =
     (case (rc_ring rc, data) of
        (Some ring, Some planes) \<Rightarrow>
          if \<not> rc_running rc \<or> frames = 0 then rc
          else let ch = min channels (rc_channels rc)
               in rc\<lparr>rc_ring := Some (fst (rb_push ring planes (uint ch) (sint frames)))\<rparr>
      | _ \<Rightarrow> rc)"

text \<open>
  \<^verbatim>\<open>push_interleaved\<close>: the inner loops \<^verbatim>\<open>mScratch[c][f] = src[f * ch + c]\<close> with \<^verbatim>\<open>src = data + offset * ch\<close>, the index arithmetic in \<^verbatim>\<open>uint32_t\<close>; the chunk size \<^verbatim>\<open>min(frames - offset, kChunkFrames)\<close>; the \<^verbatim>\<open>while (offset < frames)\<close> loop that pushes each chunk through \<^verbatim>\<open>mScratchPtrs\<close>; the guards of the method. The stride is \<^verbatim>\<open>ch = min(channels, mChannels)\<close>, not the caller's \<^verbatim>\<open>channels\<close>.
\<close>

definition deinterleave_chunk :: "real list \<Rightarrow> u16 \<Rightarrow> u32 \<Rightarrow> u32 \<Rightarrow> plane list \<Rightarrow> plane list" where
  "deinterleave_chunk data ch offset chunk scratch =
     fold (\<lambda>f s. fold (\<lambda>c s. s[c := (s ! c)[f :=
              data ! (unat (offset * ucast ch) + unat (of_nat f * ucast ch + of_nat c :: u32))]])
            [0..<unat ch] s)
       [0..<unat chunk] scratch"

definition pi_chunk :: "u32 \<Rightarrow> u32 \<Rightarrow> u32" where
  "pi_chunk frames offset =
     (let remaining = frames - offset in if kChunkFrames < remaining then kChunkFrames else remaining)"

function pi_loop :: "real list \<Rightarrow> u16 \<Rightarrow> u32 \<Rightarrow> u32 \<Rightarrow> plane list \<Rightarrow> real ring \<Rightarrow> plane list \<times> real ring" where
  "pi_loop data ch frames offset scratch ring =
     (if offset < frames then
        let chunk = pi_chunk frames offset;
            scratch' = deinterleave_chunk data ch offset chunk scratch;
            ring' = fst (rb_push ring scratch' (uint ch) (sint chunk))
        in pi_loop data ch frames (offset + chunk) scratch' ring'
      else (scratch, ring))"
  by pat_completeness auto
termination
  by (relation "measure (\<lambda>(data, ch, frames, offset, scratch, ring). unat frames - unat offset)")
     (auto simp: Let_def intro!: word_advance_lt, auto simp: pi_chunk_def Let_def kChunkFrames_def word_gt_0)

definition rc_push_interleaved :: "recorder_core \<Rightarrow> real list option \<Rightarrow> u16 \<Rightarrow> u32 \<Rightarrow> recorder_core" where
  "rc_push_interleaved rc data channels frames =
     (case (rc_ring rc, data) of
        (Some ring, Some samples) \<Rightarrow>
          if \<not> rc_running rc \<or> frames = 0 then rc
          else
            let ch = min channels (rc_channels rc)
            in if ch = 0 then rc
               else if length (rc_scratch rc) \<noteq> unat ch \<or> rc_scratch_ptrs rc \<noteq> unat ch then rc
               else (case pi_loop samples ch frames 0 (rc_scratch rc) ring of
                       (scratch', ring') \<Rightarrow> rc\<lparr>rc_scratch := scratch', rc_ring := Some ring'\<rparr>)
      | _ \<Rightarrow> rc)"

text \<open>
  The queries and the C ABI wrappers (\<^verbatim>\<open>extern \"C\"\<close>). \<open>err_out\<close> and \<open>out_duration\<close> say whether the caller passed non-null pointers; the error string is what \<^verbatim>\<open>dup_cstr\<close> copies (allocation failure is not modelled). A \<open>None\<close> result of \<open>squirrel_recorder_core_start\<close> is an exception escaping the C function; of \<open>squirrel_recorder_core_stop\<close>, a join that never returns.
\<close>

definition rc_is_recording :: "recorder_core \<Rightarrow> bool" where
  "rc_is_recording rc = rc_running rc"

definition rc_source_is :: "recorder_core \<Rightarrow> recorder_source \<Rightarrow> bool" where
  "rc_source_is rc source \<longleftrightarrow> rc_running rc \<and> rc_source rc = source"

definition rec_error_msg :: "rec_error \<Rightarrow> string" where
  "rec_error_msg e =
     (case e of Already_running \<Rightarrow> ''Recorder already running''
      | Empty_path \<Rightarrow> ''Output path is empty''
      | Open_failed \<Rightarrow> ''Unable to open output file''
      | Not_running \<Rightarrow> ''Recorder is not running'')"

definition squirrel_recorder_core_start ::
  "recorder_core \<Rightarrow> string option \<Rightarrow> u32 \<Rightarrow> u16 \<Rightarrow> string option \<Rightarrow> bool \<Rightarrow> bool \<Rightarrow>
   (recorder_core \<times> bool \<times> string option) option" where
  "squirrel_recorder_core_start rc abs_wav_path sample_rate channels source err_out fopen_ok =
     (case rc_start rc abs_wav_path sample_rate channels (parse_source source) fopen_ok of
        Inl _ \<Rightarrow> None
      | Inr (Inl e) \<Rightarrow>
          Some (rc, False,
                (if err_out then Some (if rec_error_msg e = [] then ''Recorder start failed'' else rec_error_msg e)
                 else None))
      | Inr (Inr rc') \<Rightarrow> Some (rc', True, None))"

definition squirrel_recorder_core_stop ::
  "recorder_core \<Rightarrow> bool \<Rightarrow> bool \<Rightarrow>
   (recorder_core \<times> bool \<times> string option \<times> real option \<times> cfile option) option" where
  "squirrel_recorder_core_stop rc err_out out_duration =
     (case rc_stop rc of
        None \<Rightarrow> None
      | Some (Inl e) \<Rightarrow>
          Some (rc, False,
                (if err_out then Some (if rec_error_msg e = [] then ''Recorder stop failed'' else rec_error_msg e)
                 else None), None, None)
      | Some (Inr (rc', duration, final_file)) \<Rightarrow>
          Some (rc', True, None, (if out_duration then Some duration else None), final_file))"

definition squirrel_recorder_core_source_is :: "recorder_core \<Rightarrow> string option \<Rightarrow> bool" where
  "squirrel_recorder_core_source_is rc source = rc_source_is rc (parse_source source)"

text \<open>The remaining wrappers forward to the singleton's methods.\<close>

definition squirrel_recorder_core_is_recording :: "recorder_core \<Rightarrow> bool" where
  "squirrel_recorder_core_is_recording rc = rc_is_recording rc"

definition squirrel_recorder_core_push :: "recorder_core \<Rightarrow> plane list option \<Rightarrow> u16 \<Rightarrow> u32 \<Rightarrow> recorder_core" where
  "squirrel_recorder_core_push rc data channels frames = rc_push rc data channels frames"

definition squirrel_recorder_core_push_interleaved ::
  "recorder_core \<Rightarrow> real list option \<Rightarrow> u16 \<Rightarrow> u32 \<Rightarrow> recorder_core" where
  "squirrel_recorder_core_push_interleaved rc data channels frames = rc_push_interleaved rc data channels frames"

text \<open>
  \<^verbatim>\<open>dup_cstr\<close>: \<^verbatim>\<open>malloc(n + 1)\<close> (\<open>None\<close> when it fails: the caller receives a null
  pointer), the \<open>n\<close> characters and the terminating NUL.
\<close>

definition dup_cstr :: "bool \<Rightarrow> string \<Rightarrow> string option" where
  "dup_cstr malloc_ok s = (if malloc_ok then Some (s @ [CHR 0x00]) else None)"

declare rc_writer_loop.simps [code]

subsection \<open>Lemmas on start\<close>

lemma uint_kChunkFrames [simp]: "uint kChunkFrames = 1024" "unat kChunkFrames = 1024"
  by (simp_all add: kChunkFrames_def)

text \<open>Below \<open>2^29\<close> the sample rate times \<^verbatim>\<open>kRingSeconds\<close> does not wrap and fits an \<^verbatim>\<open>int\<close>.\<close>

lemma rc_start_sr:
  assumes "sample_rate < 2 ^ 29"
  defines "sr \<equiv> if 0 < sample_rate then sample_rate else kDefaultSampleRate"
  shows "0 < unat sr" and "unat sr < 2 ^ 29"
    and "unat (max (kChunkFrames * 2) (sr * kRingSeconds)) = max 2048 (4 * unat sr)"
proof -
  have a: "unat sample_rate < 2 ^ 29" using assms(1) by (simp add: word_less_nat_alt)
  show s: "unat sr < 2 ^ 29" using a by (simp add: sr_def kDefaultSampleRate_def)
  show "0 < unat sr" by (simp add: sr_def kDefaultSampleRate_def unat_gt_0 word_gt_0)
  have "unat (sr * kRingSeconds) = 4 * unat sr"
    using s by (simp add: kRingSeconds_def unat_word_ariths(2) mult.commute)
  then show "unat (max (kChunkFrames * 2) (sr * kRingSeconds)) = max 2048 (4 * unat sr)"
    by (simp add: unat_max_word kChunkFrames_def)
qed

lemma rc_start_ch:
  "(let ch0 = if channels = 0 then 1 else channels in if kMaxChannels < ch0 then kMaxChannels else ch0)
   = min kMaxChannels (max 1 channels)"
  by (auto simp: Let_def min_def max_def word_le_nat_alt word_less_nat_alt unat_gt_0 kMaxChannels_def word_unat_eq_iff)

lemma rc_clamp_bounds:
  "1 \<le> min kMaxChannels (max 1 channels)" "min kMaxChannels (max 1 channels) \<le> kMaxChannels"
  "unat (min kMaxChannels (max 1 channels)) \<le> 8" "0 < unat (min kMaxChannels (max 1 channels))"
  by (auto simp: kMaxChannels_def min_def max_def word_le_nat_alt unat_gt_0)

subsection \<open>Properties of start, push_interleaved and the C ABI\<close>

text \<open>
  C12. Overflow of the ring size: for a sample rate in [\<open>2^29\<close>, \<open>2^30\<close>), the
  \<^verbatim>\<open>uint32_t\<close> product \<^verbatim>\<open>sr * kRingSeconds\<close> is at least \<open>2^31\<close>, its
  \<^verbatim>\<open>static_cast<int>\<close> is negative, and the \<^verbatim>\<open>RingBuffer\<close> constructor throws
  \<^verbatim>\<open>std::length_error\<close> out of \<^verbatim>\<open>start\<close>, after the output file was opened and its
  header written; the file handle is leaked.
\<close>

theorem rc_start_sample_rate_overflow:
  assumes run: "\<not> rc_running rc" and p: "p \<noteq> []"
    and lo: "2 ^ 29 \<le> sample_rate" and hi: "sample_rate < 2 ^ 30"
  shows "rc_start rc (Some p) sample_rate channels source True = Inl Length_error"
proof -
  have a: "2 ^ 29 \<le> unat sample_rate" "unat sample_rate < 2 ^ 30"
    using lo hi by (simp_all add: word_le_nat_alt word_less_nat_alt)
  have pos: "0 < sample_rate" using lo by (simp add: word_less_nat_alt word_le_nat_alt)
  have "unat (sample_rate * kRingSeconds) = 4 * unat sample_rate"
    using a by (simp add: kRingSeconds_def unat_word_ariths(2) mult.commute)
  then have m: "unat (max (kChunkFrames * 2) (sample_rate * kRingSeconds)) = 4 * unat sample_rate"
    using a by (simp add: unat_max_word kChunkFrames_def)
  let ?M = "max (kChunkFrames * 2) (sample_rate * kRingSeconds)"
  have "int (2 ^ 31) \<le> uint ?M" by (rule uint_ge_of_unat) (use m a in simp)
  then have s: "sint ?M = uint ?M - 2 ^ 32" by (intro sint_u32_neg) simp
  have "uint ?M < 2 ^ LENGTH(32)" by (rule unsigned_less)
  with s have "sint ?M < 0" by simp
  then show ?thesis
    using run p pos by (simp add: rc_start_def Let_def rb_new_def)
qed

theorem rc_start_sample_rate_overflow_witness:
  "\<not> rc_running rc_new \<and> ''take.wav'' \<noteq> [] \<and> 2 ^ 29 \<le> (2 ^ 29 :: u32) \<and> (2 ^ 29 :: u32) < 2 ^ 30 \<and>
   rc_start rc_new (Some ''take.wav'') (2 ^ 29) 2 Mic True = Inl Length_error"
  using rc_start_sample_rate_overflow [of rc_new "''take.wav''" "2 ^ 29" 2 Mic] by (simp add: rc_new_def)



text \<open>
  The consequence on a concrete session of two channels: three-channel frames
  (1, 2, 3), (4, 5, 6) are recorded as the two-channel frames (1, 2), (3, 4).
\<close>

theorem rc_push_interleaved_stride_example:
  "map_option rb_abs
     (rc_ring (rc_push_interleaved
        (rc_new\<lparr>rc_running := True, rc_channels := 2,
                rc_ring := Some \<lparr>rb_channels = 2, rb_capacity = 4, rb_data = [[0, 0, 0, 0], [0, 0, 0, 0]],
                                 rb_write = 0, rb_read = 0\<rparr>,
                rc_scratch := [[0, 0], [0, 0]], rc_scratch_ptrs := 2\<rparr>)
        (Some [1, 2, 3, 4, 5, 6]) 3 2))
   = Some \<lparr>fq_len = 2, fq_chans = [[1, 3], [2, 4]]\<rparr>"
  by code_simp

text \<open>
  C20. Rejected starts through the C ABI: when the recorder is running, the path is null
  or empty, or the file cannot be opened, \<^verbatim>\<open>squirrel_recorder_core_start\<close> returns
  false, leaves the recorder as it was, and reports the first failing check's message.
\<close>

theorem squirrel_start_rejects:
  assumes "rc_running rc \<or> path = None \<or> path = Some [] \<or> \<not> fopen_ok"
  shows "squirrel_recorder_core_start rc path sample_rate channels source True fopen_ok =
           Some (rc, False, Some (if rc_running rc then ''Recorder already running''
                                  else if path = None \<or> path = Some [] then ''Output path is empty''
                                  else ''Unable to open output file''))"
  using assms by (auto simp: squirrel_recorder_core_start_def rc_start_def rec_error_msg_def Let_def)

theorem squirrel_start_rejects_witness:
  "(rc_running rc_new \<or> (None :: string option) = None \<or> (None :: string option) = Some [] \<or> \<not> True) \<and>
   squirrel_recorder_core_start rc_new None 48000 2 None True True =
     Some (rc_new, False, Some ''Output path is empty'')"
  using squirrel_start_rejects [of rc_new None True 48000 2 None] by (simp add: rc_new_def)

text \<open>
  A stop of a recorder that is not running returns false with
  \<^verbatim>\<open>"Recorder is not running"\<close> and changes nothing.
\<close>

theorem squirrel_stop_rejects:
  "\<not> rc_running rc \<Longrightarrow>
   squirrel_recorder_core_stop rc True out_duration = Some (rc, False, Some ''Recorder is not running'', None, None)"
  by (simp add: squirrel_recorder_core_stop_def rc_stop_def rec_error_msg_def)

theorem squirrel_stop_rejects_witness:
  "\<not> rc_running rc_new \<and>
   squirrel_recorder_core_stop rc_new True True = Some (rc_new, False, Some ''Recorder is not running'', None, None)"
  using squirrel_stop_rejects [of rc_new True] by (simp add: rc_new_def)

text \<open>A C reader of the copy (up to the first NUL) gets the message back whenever it has no NUL itself.\<close>

lemma dup_cstr_read:
  "CHR 0x00 \<notin> set s \<Longrightarrow> dup_cstr True s = Some buf \<Longrightarrow> takeWhile (\<lambda>c. c \<noteq> CHR 0x00) buf = s"
  by (auto simp: dup_cstr_def takeWhile_append takeWhile_eq_all_conv [THEN iffD2])

lemma rec_error_msg_no_nul: "CHR 0x00 \<notin> set (rec_error_msg e)"
  by (cases e) (simp_all add: rec_error_msg_def)

end
