(* ===== verification/RecorderWriter.thy ===== *)
theory RecorderWriter
  imports Recorder
begin

text \<open>
  The recorder's writer thread and the state the recorder keeps while running
  (RecorderCore.cpp, \<^verbatim>\<open>start\<close>, \<^verbatim>\<open>start_writer\<close>, \<^verbatim>\<open>stop\<close>, \<^verbatim>\<open>push\<close>). \<open>rc_inv\<close> is
  what \<^verbatim>\<open>start\<close> sets up and the other methods keep: while running, a writer thread
  exists, the channel count is in [1, 8], the ring satisfies the ring invariant with that
  channel count, the writer's buffers have their sizes, and the file holds a header with
  the session's format followed by what the writer appended, its position at the end.
  \<open>rc_queue\<close> is the content of the ring per channel (the abstraction of RingBuffer.thy).
  The main result: \<^verbatim>\<open>stop\<close> returns, and the file it closes is the patched header,
  everything written so far, then every frame that was still queued, in order.
\<close>

text \<open>The writer's view of a running session: the ring and the writer's buffers.\<close>

definition rc_writer_ok :: "recorder_core \<Rightarrow> real ring \<Rightarrow> bool" where
  "rc_writer_ok rc ring \<longleftrightarrow>
     rb_inv ring \<and> rb_channels ring = uint (rc_channels rc) \<and>
     length (rc_w_buffers rc) = unat (rc_channels rc) \<and>
     list_all (\<lambda>b. length b = unat kChunkFrames) (rc_w_buffers rc) \<and>
     length (rc_w_interleaved rc) = unat kChunkFrames * unat (rc_channels rc)"



definition rc_inv :: "recorder_core \<Rightarrow> bool" where
  "rc_inv rc \<longleftrightarrow>
     (rc_running rc \<longrightarrow>
        rc_writer rc \<and> 1 \<le> rc_channels rc \<and> rc_channels rc \<le> kMaxChannels \<and>
        (case (rc_ring rc, rc_file rc) of
           (Some ring, Some f) \<Rightarrow>
             rc_writer_ok rc ring \<and> f_pos f = length (f_data f) \<and> 44 \<le> length (f_data f) \<and>
             take 44 (f_data f) = wav_header (rc_sample_rate rc) (rc_channels rc) 0
         | _ \<Rightarrow> False))"

subsection \<open>The writer thread\<close>






lemma rc_inv_running:
  assumes "rc_inv rc" and "rc_running rc" and "rc_ring rc = Some ring" and "rc_file rc = Some f"
  shows "rc_writer rc" "rc_writer_ok rc ring" "f_pos f = length (f_data f)"
    and "f_data f = wav_header (rc_sample_rate rc) (rc_channels rc) 0 @ drop 44 (f_data f)"
proof -
  have t: "take 44 (f_data f) = wav_header (rc_sample_rate rc) (rc_channels rc) 0"
    using assms by (simp add: rc_inv_def)
  show "rc_writer rc" "rc_writer_ok rc ring" "f_pos f = length (f_data f)"
    using assms by (simp_all add: rc_inv_def)
  show "f_data f = wav_header (rc_sample_rate rc) (rc_channels rc) 0 @ drop 44 (f_data f)"
    by (metis t append_take_drop_id)
qed

text \<open>\<^verbatim>\<open>push\<close> appends the accepted frames of the planes to the recorder's queue.\<close>

lemma rc_push_abs:
  assumes inv: "rc_inv rc" and run: "rc_running rc" and ring: "rc_ring rc = Some r"
    and safe: "rb_slot_safe r (rb_write r)"
    and fr: "frames \<noteq> 0" "unat frames < 2 ^ 31"
    and ch: "rc_channels rc \<le> channels" "unat (rc_channels rc) \<le> length planes"
    and lens: "list_all (\<lambda>p. unat frames \<le> length p) planes"
  shows "\<exists>r'. rc_push rc (Some planes) channels frames = rc\<lparr>rc_ring := Some r'\<rparr> \<and> rb_inv r' \<and>
           rb_channels r' = rb_channels r \<and>
           rb_abs r' = fst (q_push (rb_cap r) (rb_abs r) planes (unat frames))"
proof -
  obtain f where fl: "rc_file rc = Some f" using inv run ring by (auto simp: rc_inv_def split: option.splits)
  have ok: "rc_writer_ok rc r" using rc_inv_running(2) [OF inv run ring fl] .
  have rinv: "rb_inv r" and wf: "rb_wf r" and rch: "rb_channels r = uint (rc_channels rc)"
    using ok by (simp_all add: rc_writer_ok_def rb_inv_def)
  have m: "min channels (rc_channels rc) = rc_channels rc" using ch(1) by (rule min_absorb2)
  have sf: "sint frames = int (unat frames)" using fr(2) by (rule sint_u32_small)
  have fi: "int (unat frames) < 2 ^ 31" using fr(2) by (metis of_nat_less_iff of_nat_numeral of_nat_power)
  obtain r' k where res: "rb_push r planes (uint (rc_channels rc)) (int (unat frames)) = (r', k)" by fastforce
  have "rb_inv r' \<and> q_push (rb_cap r) (rb_abs r) planes (nat (int (unat frames))) = (rb_abs r', nat k)"
    by (rule rb_push_abs [OF rinv safe of_nat_0_le_iff fi _ _ _ res]) (use ch lens rch in simp_all)
  moreover have "rb_channels r' = rb_channels r"
    using rb_push_result(4) [OF wf c_int_nonneg [OF of_nat_0_le_iff fi] res] .
  moreover have "rc_push rc (Some planes) channels frames = rc\<lparr>rc_ring := Some r'\<rparr>"
    using run ring fr(1) res by (simp add: rc_push_def m sf)
  ultimately show ?thesis by (intro exI [of _ r']) (simp add: prod_eq_iff)
qed

subsection \<open>Properties of stop, start and push\<close>



text \<open>
  C4. \<^verbatim>\<open>start\<close> with a non-empty path, an openable file and a sample rate below
  \<open>2^29\<close> succeeds and sets up the invariant: running, the rate (48000 when 0 was given),
  the channel count clamped to [1, 8], the file holding the header with
  \<open>data_bytes = 0\<close>, and an empty ring of \<open>max(2 * 1024, 4 * sample_rate)\<close> frames.
\<close>

theorem rc_start_ok:
  fixes channels :: u16
  assumes run: "\<not> rc_running rc" and p: "p \<noteq> []" and srb: "sample_rate < 2 ^ 29"
  defines "sr \<equiv> if 0 < sample_rate then sample_rate else kDefaultSampleRate"
    and "ch \<equiv> min kMaxChannels (max 1 channels)"
  shows "\<exists>rc' ring. rc_start rc (Some p) sample_rate channels source True = Inr (Inr rc') \<and>
           rc_inv rc' \<and> rc_running rc' \<and> rc_sample_rate rc' = sr \<and> rc_channels rc' = ch \<and>
           rc_source rc' = source \<and> rc_total_frames rc' = 0 \<and>
           rc_file rc' = Some \<lparr>f_data = wav_header sr ch 0, f_pos = 44\<rparr> \<and>
           rc_ring rc' = Some ring \<and> rb_capacity ring = int (max 2048 (4 * unat sr)) \<and>
           rb_abs ring = \<lparr>fq_len = 0, fq_chans = replicate (unat ch) []\<rparr>"
proof -
  note srf = rc_start_sr [OF srb, folded sr_def]
  have chq: "(if kMaxChannels < (if channels = 0 then 1 else channels) then kMaxChannels
              else (if channels = 0 then 1 else channels)) = ch"
    using rc_start_ch [of channels] by (simp add: Let_def ch_def)
  let ?cap = "int (max 2048 (4 * unat sr))"
  have capb: "0 < ?cap" "?cap < 2 ^ 31" using srf(2) by simp_all
  have rf: "sint (max (kChunkFrames * 2) (sr * kRingSeconds)) = ?cap"
    using srf(3) srf(2) by (simp add: sint_u32_small)
  define ring :: "real ring" where
    "ring = \<lparr>rb_channels = uint ch, rb_capacity = ?cap,
             rb_data = replicate (nat (uint ch)) (replicate (nat ?cap) 0), rb_write = 0, rb_read = 0\<rparr>"
  have rn: "rb_new (uint ch) ?cap = Inr ring" using capb by (simp add: rb_new_def ring_def)
  have ri: "rb_inv ring" "rb_abs ring = \<lparr>fq_len = 0, fq_chans = replicate (unat ch) []\<rparr>"
    using rb_new_inv [OF rn capb] by simp_all
  note cb = rc_clamp_bounds [of channels, folded ch_def]
  let ?rc' = "rc_start_writer (rc\<lparr>rc_ring := Some ring, rc_file := Some \<lparr>f_data = wav_header sr ch 0, f_pos = 44\<rparr>,
                 rc_sample_rate := sr, rc_channels := ch, rc_source := source, rc_total_frames := 0,
                 rc_running := True,
                 rc_scratch := replicate (unat ch) (replicate (unat kChunkFrames) 0),
                 rc_scratch_ptrs := unat ch\<rparr>)"
  have st: "rc_start rc (Some p) sample_rate channels source True = Inr (Inr ?rc')"
    using run p unfolding rc_start_def Let_def chq sr_def [symmetric]
    by (simp add: rf rn write_wav_header_new)
  have inv: "rc_inv ?rc'"
    using ri(1) cb by (simp add: rc_inv_def rc_start_writer_def rc_writer_ok_def ring_def list_all_length)
  show ?thesis
    using st inv ri by (intro exI [of _ ?rc'] exI [of _ ring]) (simp add: rc_start_writer_def ring_def)
qed

theorem rc_start_ok_witness:
  "\<not> rc_running rc_new \<and> ''take.wav'' \<noteq> [] \<and> (48000 :: u32) < 2 ^ 29 \<and>
   (\<exists>rc'. rc_start rc_new (Some ''take.wav'') 48000 2 Mic True = Inr (Inr rc') \<and> rc_inv rc' \<and>
          rc_channels rc' = 2 \<and> rc_file rc' = Some \<lparr>f_data = wav_header 48000 2 0, f_pos = 44\<rparr>)"
  using rc_start_ok [of rc_new "''take.wav''" 48000 2 Mic]
  by (auto simp: rc_new_def kMaxChannels_def)



text \<open>
  C14. \<^verbatim>\<open>push\<close> with zero channels publishes stale audio: unlike
  \<^verbatim>\<open>push_interleaved\<close> it has no \<^verbatim>\<open>ch == 0\<close> guard, so the ring's \<^verbatim>\<open>push\<close> copies
  no channel but still advances the write cursor by \<open>min(frames, free)\<close>; the queued
  frames of every channel grow by whatever the storage held at those slots, and the
  writer will write it to the file as new audio.
\<close>

theorem rc_push_zero_channels:
  assumes inv: "rc_inv rc" and run: "rc_running rc" and ring: "rc_ring rc = Some r"
    and fr: "frames \<noteq> 0" "unat frames < 2 ^ 31" and c: "c < unat (rc_channels rc)"
  defines "k \<equiv> min (unat frames) (rb_cap r - rb_size r)"
  shows "\<exists>r'. rc_push rc (Some planes) 0 frames = rc\<lparr>rc_ring := Some r'\<rparr> \<and>
           rb_frames r' c = rb_frames r c @ map (\<lambda>j. rb_data r ! c ! ((unat (rb_write r) + j) mod rb_cap r)) [0..<k]"
proof -
  obtain f where fl: "rc_file rc = Some f" using inv run ring by (auto simp: rc_inv_def split: option.splits)
  have ok: "rc_writer_ok rc r" using rc_inv_running(2) [OF inv run ring fl] .
  have rinv: "rb_inv r" and wf: "rb_wf r" and rch: "rb_channels r = uint (rc_channels rc)"
    using ok by (simp_all add: rc_writer_ok_def rb_inv_def)
  have fi: "int (unat frames) < 2 ^ 31" using fr(2) by (metis of_nat_less_iff of_nat_numeral of_nat_power)
  have ci: "c_int (int (unat frames))" by (rule c_int_nonneg [OF of_nat_0_le_iff fi])
  have sf: "sint frames = int (unat frames)" using fr(2) by (rule sint_u32_small)
  obtain r' n where res: "rb_push r planes 0 (int (unat frames)) = (r', n)" by fastforce
  have "n = int k" using rb_push_result(1) [OF wf ci res] by (simp add: k_def)
  then have "rb_frames r' c = rb_frames r c @ map (\<lambda>j. rb_data r ! c ! ((unat (rb_write r) + j) mod rb_cap r)) [0..<k]"
    using rb_push_frames_other [OF rinv ci res] c rch by simp
  moreover have "rc_push rc (Some planes) 0 frames = rc\<lparr>rc_ring := Some r'\<rparr>"
    using run ring fr(1) res by (simp add: rc_push_def sf)
  ultimately show ?thesis by blast
qed

theorem rc_push_zero_channels_witness:
  "let R = \<lparr>rb_channels = 1, rb_capacity = 4, rb_data = [[7, 7, 7, 7]], rb_write = 0, rb_read = 0\<rparr>;
       X = rc_new\<lparr>rc_running := True, rc_sample_rate := 8000, rc_channels := 1, rc_ring := Some R,
                  rc_file := Some \<lparr>f_data = wav_header 8000 1 0, f_pos = 44\<rparr>, rc_writer := True,
                  rc_w_buffers := [replicate 1024 0], rc_w_interleaved := replicate 1024 0\<rparr>
   in rc_inv X \<and> rc_running X \<and> rc_ring X = Some R \<and> (2 :: u32) \<noteq> 0 \<and> unat (2 :: u32) < 2 ^ 31 \<and>
      0 < unat (rc_channels X) \<and>
      (\<exists>r'. rc_push X (Some [[1, 2]]) 0 2 = X\<lparr>rc_ring := Some r'\<rparr> \<and> rb_frames r' 0 = [7, 7])"
proof -
  define R :: "real ring" where "R = \<lparr>rb_channels = 1, rb_capacity = 4, rb_data = [[7, 7, 7, 7]], rb_write = 0, rb_read = 0\<rparr>"
  define X where "X = rc_new\<lparr>rc_running := True, rc_sample_rate := 8000, rc_channels := 1, rc_ring := Some R,
                  rc_file := Some \<lparr>f_data = wav_header 8000 1 0, f_pos = 44\<rparr>, rc_writer := True,
                  rc_w_buffers := [replicate 1024 0], rc_w_interleaved := replicate 1024 0\<rparr>"
  have h1: "rc_inv X"
    by (simp add: rc_inv_def X_def R_def rc_new_def rc_writer_ok_def rb_inv_def rb_wf_def rb_size_def
        kMaxChannels_def list_all_length)
  have h2: "rc_running X" "rc_ring X = Some R" by (simp_all add: X_def)
  have h3: "0 < unat (rc_channels X)" by (simp add: X_def)
  have "rb_frames R 0 = []" by (simp add: R_def rb_frames_def rb_size_def)
  then have "\<exists>r'. rc_push X (Some [[1, 2]]) 0 2 = X\<lparr>rc_ring := Some r'\<rparr> \<and> rb_frames r' 0 = [7, 7]"
    using rc_push_zero_channels [OF h1 h2, of 2 0 "[[1, 2]]"] h3
    by (simp add: R_def rb_size_def eval_simps)
  then show ?thesis using h1 h2 h3 unfolding Let_def X_def R_def by simp
qed

end
