(* ===== verification/DiskReader.thy ===== *)
theory DiskReader
  imports RingBuffer
begin

text \<open>
  The stream producer \<^verbatim>\<open>atome::DiskReader\<close> (src/src/core/disk_reader.h, disk_reader.cpp).
  Its fields are the record \<open>disk_reader\<close>; \<^verbatim>\<open>mThread\<close> is read as whether the object
  holds a joinable thread. The reference \<^verbatim>\<open>mRing\<close> is not a field: the ring belongs to
  the owner (\<^verbatim>\<open>DSPCore\<close>), and the thread's loop body \<open>dr_iteration\<close> takes it as an
  argument and returns it updated. \<open>dr_stop\<close> is the whole call, join included: in
  this sequential model the thread has left its loop when \<^verbatim>\<open>join\<close> returns.
\<close>

record disk_reader =
  dr_running :: bool
  dr_should_stop :: bool
  dr_path :: string
  dr_sample_rate :: int
  dr_thread :: bool

definition dr_new :: disk_reader where
  "dr_new = \<lparr>dr_running = False, dr_should_stop = False, dr_path = [], dr_sample_rate = 0,
             dr_thread = False\<rparr>"

text \<open>\<^verbatim>\<open>open\<close>: a null \<^verbatim>\<open>path\<close> (\<open>None\<close>) is stored as the empty string.\<close>

definition dr_open :: "disk_reader \<Rightarrow> string option \<Rightarrow> int \<Rightarrow> disk_reader \<times> bool" where
  "dr_open r path sampleRate =
     (let r1 = r\<lparr>dr_path := (case path of None \<Rightarrow> [] | Some p \<Rightarrow> p),
                 dr_sample_rate := sampleRate, dr_should_stop := False\<rparr>
      in if dr_running r1 then (r1, True)
         else (r1\<lparr>dr_running := True, dr_thread := True\<rparr>, True))"

text \<open>\<^verbatim>\<open>stop\<close>: \<^verbatim>\<open>mRunning.exchange(false)\<close> clears the flag; the thread is joined
  only when the flag was set.\<close>

definition dr_stop :: "disk_reader \<Rightarrow> disk_reader" where
  "dr_stop r =
     (let r1 = r\<lparr>dr_should_stop := True, dr_running := False\<rparr>
      in if dr_running r then r1\<lparr>dr_thread := False\<rparr> else r1)"

text \<open>
  One iteration of \<^verbatim>\<open>threadFunc\<close>'s loop: leave it (\<open>None\<close>) when the stop flag is
  set, otherwise push one block of 1024 frames of silence, given as two planes that
  both point at the same zeroed buffer, and return what \<^verbatim>\<open>push\<close> returned. The
  2 ms sleep after a push that wrote nothing changes no state.
\<close>

definition dr_block :: int where
  "dr_block = 1024"

definition dr_planes :: "plane list" where
  "dr_planes = (let tmp = replicate (nat dr_block) 0 in [tmp, tmp])"

definition dr_iteration :: "disk_reader \<Rightarrow> real ring \<Rightarrow> real ring \<times> int option" where
  "dr_iteration r ring =
     (if dr_should_stop r then (ring, None)
      else let (ring', written) = rb_push ring dr_planes 2 dr_block in (ring', Some written))"

text \<open>\<open>n\<close> iterations of the loop, or fewer if it leaves.\<close>

fun dr_loop :: "nat \<Rightarrow> disk_reader \<Rightarrow> real ring \<Rightarrow> real ring" where
  "dr_loop 0 r ring = ring"
| "dr_loop (Suc n) r ring =
     (case dr_iteration r ring of (ring', None) \<Rightarrow> ring' | (ring', Some _) \<Rightarrow> dr_loop n r ring')"

subsection \<open>Lemmas\<close>

lemma dr_open_running:
  assumes "dr_running r"
  shows "dr_open r path sr =
    (r\<lparr>dr_path := (case path of None \<Rightarrow> [] | Some p \<Rightarrow> p), dr_sample_rate := sr, dr_should_stop := False\<rparr>, True)"
  using assms by (simp add: dr_open_def)

lemma dr_stop_idem: "dr_stop (dr_stop r) = dr_stop r"
  by (simp add: dr_stop_def Let_def)

lemma dr_loop_wf: "rb_wf ring \<Longrightarrow> rb_wf (dr_loop n r ring)"
proof (induction n arbitrary: ring)
  case 0
  then show ?case by simp
next
  case (Suc n)
  have ci: "c_int dr_block" by (simp add: c_int_def dr_block_def)
  have "rb_wf (fst (rb_push ring dr_planes 2 dr_block))" using Suc.prems ci by (rule rb_push_wf)
  then show ?case using Suc
    by (auto simp: dr_iteration_def split: prod.splits option.splits)
qed

lemma dr_planes_silent: "ch < 2 \<Longrightarrow> dr_planes ! ch = replicate 1024 0"
  by (cases ch) (simp_all add: dr_planes_def dr_block_def Let_def less_Suc_eq)

end
