(* ===== verification/DspCore.thy ===== *)
theory DspCore
  imports DiskReader
begin

text \<open>
  The render core \<^verbatim>\<open>atome::DSPCore\<close> (src/src/core/dsp_core.h, dsp_core.cpp). The object
  is the record \<open>dsp_core\<close>; the owning pointers \<^verbatim>\<open>mRing\<close> and \<^verbatim>\<open>mReader\<close> are
  options (\<open>None\<close> the null pointer). The atomics \<^verbatim>\<open>mGain\<close>, \<^verbatim>\<open>mPlay\<close> and
  \<^verbatim>\<open>mPositionFrames\<close> are plain fields: each call reads or writes them once.
  \<^verbatim>\<open>process\<close> takes the host's output planes and returns them; its silence paths, the
  pop with zero-filled underrun and the gain loop are those of the code. A negative
  frame count with a positive channel count makes the silence path call \<^verbatim>\<open>memset\<close>
  with a length converted to a huge \<^verbatim>\<open>size_t\<close>: that is the error \<open>Memset_overflow\<close>.
\<close>

datatype param_id = Gain | Play | PositionFrames

record transport_state =
  tr_tempo :: real
  tr_ppq :: real
  tr_playing :: bool

record dsp_core =
  dc_sample_rate :: real
  dc_max_channels :: int
  dc_gain :: real
  dc_play :: int
  dc_position :: real
  dc_transport :: transport_state
  dc_ring :: "real ring option"
  dc_reader :: "disk_reader option"

datatype dsp_fault = Memset_overflow | Ring_length_error

definition dc_new :: dsp_core where
  "dc_new = \<lparr>dc_sample_rate = 48000, dc_max_channels = 2, dc_gain = 1, dc_play = 0,
             dc_position = 0, dc_transport = \<lparr>tr_tempo = 120, tr_ppq = 0, tr_playing = False\<rparr>,
             dc_ring = None, dc_reader = None\<rparr>"

text \<open>
  \<^verbatim>\<open>init\<close>: the ring and the reader are allocated once; later calls only store the
  sample rate and channel count. A negative size makes the ring's constructor throw.
\<close>

definition dc_init :: "dsp_core \<Rightarrow> real \<Rightarrow> int \<Rightarrow> int \<Rightarrow> dsp_fault + dsp_core" where
  "dc_init dc sampleRate maxChannels ringCapacityFrames =
     (let dc1 = dc\<lparr>dc_sample_rate := sampleRate, dc_max_channels := maxChannels\<rparr>
      in case (if dc_ring dc1 = None then map_sum id Some (rb_new maxChannels ringCapacityFrames)
               else Inr (dc_ring dc1)) of
           Inl _ \<Rightarrow> Inl Ring_length_error
         | Inr ring \<Rightarrow>
             Inr (dc1\<lparr>dc_ring := ring,
                      dc_reader := (if dc_reader dc1 = None then Some dr_new else dc_reader dc1)\<rparr>))"

definition dc_set_parameter :: "dsp_core \<Rightarrow> param_id \<Rightarrow> real \<Rightarrow> dsp_core" where
  "dc_set_parameter dc pid value =
     (case pid of
        Gain \<Rightarrow> dc\<lparr>dc_gain := value\<rparr>
      | Play \<Rightarrow> dc\<lparr>dc_play := (if value > 0.5 then 1 else 0)\<rparr>
      | PositionFrames \<Rightarrow> dc\<lparr>dc_position := value\<rparr>)"

definition dc_set_transport :: "dsp_core \<Rightarrow> real \<Rightarrow> real \<Rightarrow> bool \<Rightarrow> dsp_core" where
  "dc_set_transport dc tempo ppq playing =
     dc\<lparr>dc_transport := \<lparr>tr_tempo = tempo, tr_ppq = ppq, tr_playing = playing\<rparr>\<rparr>"

text \<open>The two zero-fill loops \<^verbatim>\<open>memset(out[ch], 0, sizeof(float) * frames)\<close>.\<close>

definition dc_zero_planes :: "plane list \<Rightarrow> int \<Rightarrow> int \<Rightarrow> dsp_fault + plane list" where
  "dc_zero_planes outs channels frames =
     (if 0 < channels \<and> frames < 0 then Inl Memset_overflow
      else Inr (for_channels (nat channels) (\<lambda>_ p. zero_fill p 0 (nat frames)) outs))"

definition dc_process :: "dsp_core \<Rightarrow> plane list \<Rightarrow> int \<Rightarrow> int \<Rightarrow> dsp_fault + dsp_core \<times> plane list" where
  "dc_process dc outs channels frames =
     (let gain = dc_gain dc; play = dc_play dc
      in case dc_ring dc of
           None \<Rightarrow> map_sum id (Pair dc) (dc_zero_planes outs channels frames)
         | Some ring \<Rightarrow>
             if channels \<le> 0 \<or> frames \<le> 0 then map_sum id (Pair dc) (dc_zero_planes outs channels frames)
             else if play = 0 then map_sum id (Pair dc) (dc_zero_planes outs channels frames)
             else
               let (ring', outs1, popped) = rb_pop ring outs channels frames;
                   outs2 = (if popped < frames
                            then for_channels (nat channels)
                                   (\<lambda>_ p. zero_fill p (nat popped) (nat (frames - popped))) outs1
                            else outs1);
                   outs3 = for_channels (nat channels) (\<lambda>_ p. scale_prefix p (nat frames) gain) outs2
               in Inr (dc\<lparr>dc_ring := Some ring'\<rparr>, outs3))"

text \<open>\<^verbatim>\<open>loadFile\<close>: the sample rate is passed as \<^verbatim>\<open>static_cast<int>(mSampleRate)\<close>.\<close>

definition dc_load_file :: "dsp_core \<Rightarrow> string option \<Rightarrow> dsp_core" where
  "dc_load_file dc path =
     (case dc_reader dc of
        None \<Rightarrow> dc
      | Some r \<Rightarrow> dc\<lparr>dc_reader := Some (fst (dr_open r path (trunc_real (dc_sample_rate dc))))\<rparr>)"

text \<open>\<^verbatim>\<open>clear\<close> (also run by the destructor): stop and delete the reader, then the ring.\<close>

definition dc_clear :: "dsp_core \<Rightarrow> dsp_core" where
  "dc_clear dc = dc\<lparr>dc_reader := None, dc_ring := None\<rparr>"

subsection \<open>Rendering\<close>

lemma dc_render_plane:
  assumes "k \<le> f" and "f \<le> length o1"
  shows "scale_prefix (zero_fill o1 k (f - k)) f g = map (\<lambda>x. x * g) (take k o1 @ replicate (f - k) 0) @ drop f o1"
proof -
  have "zero_fill o1 k (f - k) = take k o1 @ replicate (f - k) 0 @ drop f o1"
    using assms by (simp add: zero_fill_def blit_def)
  moreover have "length (take k o1 @ replicate (f - k) 0) = f" using assms by simp
  ultimately show ?thesis
    using scale_prefix_append [of "take k o1 @ replicate (f - k) 0" f "drop f o1" g] by simp
qed

lemma dc_process_play:
  assumes ring: "dc_ring dc = Some ring" and wf: "rb_wf ring" and play: "dc_play dc \<noteq> 0"
    and fr: "0 < frames" "frames < 2 ^ 31" and chs: "0 < channels"
    and pop: "rb_pop ring outs channels frames = (ring', outs1, popped)"
  shows "dc_process dc outs channels frames =
           Inr (dc\<lparr>dc_ring := Some ring'\<rparr>,
                for_channels (nat channels)
                  (\<lambda>_ p. scale_prefix (zero_fill p (nat popped) (nat frames - nat popped)) (nat frames) (dc_gain dc))
                  outs1)"
proof -
  have ci: "c_int frames" using fr by (simp add: c_int_def)
  note rr = rb_pop_result [OF wf ci pop]
  have pf: "nat popped \<le> nat frames" using rr(1) fr by auto
  have "for_channels (nat channels) (\<lambda>_ p. scale_prefix p (nat frames) (dc_gain dc))
          (if popped < frames then for_channels (nat channels) (\<lambda>_ p. zero_fill p (nat popped) (nat (frames - popped))) outs1 else outs1)
        = for_channels (nat channels)
            (\<lambda>_ p. scale_prefix (zero_fill p (nat popped) (nat frames - nat popped)) (nat frames) (dc_gain dc)) outs1"
  proof (rule nth_equalityI)
    fix i assume "i < length (for_channels (nat channels) (\<lambda>_ p. scale_prefix p (nat frames) (dc_gain dc))
          (if popped < frames then for_channels (nat channels) (\<lambda>_ p. zero_fill p (nat popped) (nat (frames - popped))) outs1 else outs1))"
    then have i: "i < length outs1" by (simp split: if_splits)
    have z: "\<not> popped < frames \<Longrightarrow> nat frames - nat popped = 0"
      using pf by simp
    have z2: "popped < frames \<Longrightarrow> nat (frames - popped) = nat frames - nat popped"
      using rr(1) fr by auto
    show "for_channels (nat channels) (\<lambda>_ p. scale_prefix p (nat frames) (dc_gain dc))
          (if popped < frames then for_channels (nat channels) (\<lambda>_ p. zero_fill p (nat popped) (nat (frames - popped))) outs1 else outs1) ! i
        = for_channels (nat channels)
            (\<lambda>_ p. scale_prefix (zero_fill p (nat popped) (nat frames - nat popped)) (nat frames) (dc_gain dc)) outs1 ! i"
      using i by (cases "popped < frames") (simp_all add: nth_for_channels z z2)
  qed simp
  then show ?thesis unfolding dc_process_def Let_def ring option.simps pop prod.case using play fr chs by simp
qed

lemma dc_process_play_plane:
  assumes ring: "dc_ring dc = Some ring" and wf: "rb_wf ring" and play: "dc_play dc \<noteq> 0"
    and fr: "0 < frames" "frames < 2 ^ 31" and chs: "0 < channels"
    and res: "dc_process dc outs channels frames = Inr (dc', outs')"
    and ch: "ch < nat channels" "ch < length outs" and len: "nat frames \<le> length (outs ! ch)"
  obtains ring' outs1 popped where "rb_pop ring outs channels frames = (ring', outs1, popped)"
    and "dc' = dc\<lparr>dc_ring := Some ring'\<rparr>"
    and "outs' ! ch = map (\<lambda>x. x * dc_gain dc) (take (nat popped) (outs1 ! ch) @ replicate (nat frames - nat popped) 0)
                      @ drop (nat frames) (outs1 ! ch)"
    and "length outs1 = length outs"
proof -
  obtain ring' outs1 popped where pop: "rb_pop ring outs channels frames = (ring', outs1, popped)"
    by (cases "rb_pop ring outs channels frames") auto
  have ci: "c_int frames" using fr by (simp add: c_int_def)
  note rr = rb_pop_result [OF wf ci pop]
  have pf: "nat popped \<le> nat frames" using rr(1) fr by auto
  have l1: "length (outs1 ! ch) = length (outs ! ch)"
    using rb_pop_out_length [OF wf ci pop ch(2)] pf len by simp
  note play_eq = dc_process_play [OF ring wf play fr chs pop]
  from res play_eq have dc': "dc' = dc\<lparr>dc_ring := Some ring'\<rparr>"
    and o: "outs' = for_channels (nat channels)
              (\<lambda>_ p. scale_prefix (zero_fill p (nat popped) (nat frames - nat popped)) (nat frames) (dc_gain dc)) outs1"
    by simp_all
  have o': "outs' ! ch = map (\<lambda>x. x * dc_gain dc) (take (nat popped) (outs1 ! ch) @ replicate (nat frames - nat popped) 0)
                      @ drop (nat frames) (outs1 ! ch)"
    using ch rr(7) pf len l1 by (simp add: o nth_for_channels dc_render_plane)
  from pop dc' o' rr(7) show ?thesis by (rule that)
qed

text \<open>
  C6. The play path of \<^verbatim>\<open>process\<close>: with a ring allocated and play on, each output
  channel the ring holds gets the queued frames popped from it, then zeros where the
  ring ran short (underrun), all multiplied by the gain read at entry; the samples past
  the requested count are left as they were.
\<close>

theorem dc_process_render:
  assumes ring: "dc_ring dc = Some ring" and inv: "rb_inv ring" and play: "dc_play dc \<noteq> 0"
    and fr: "0 < frames" "frames < 2 ^ 31" and chs: "0 < channels"
    and res: "dc_process dc outs channels frames = Inr (dc', outs')"
    and ch: "ch < nat channels" "ch < nat (rb_channels ring)" "ch < length outs"
    and len: "nat frames \<le> length (outs ! ch)"
  shows "outs' ! ch = map (\<lambda>x. x * dc_gain dc) (take (nat frames) (rb_frames ring ch @ replicate (nat frames) 0))
                      @ drop (nat frames) (outs ! ch)"
proof -
  have wf: "rb_wf ring" using inv by (rule rb_inv_wf)
  have ci: "c_int frames" using fr by (simp add: c_int_def)
  obtain ring' outs1 popped where pop: "rb_pop ring outs channels frames = (ring', outs1, popped)"
    and o: "outs' ! ch = map (\<lambda>x. x * dc_gain dc) (take (nat popped) (outs1 ! ch) @ replicate (nat frames - nat popped) 0)
                      @ drop (nat frames) (outs1 ! ch)"
    by (rule dc_process_play_plane [OF ring wf play fr chs res ch(1,3) len])
  note rr = rb_pop_result [OF wf ci pop]
  have k: "nat popped = min (nat frames) (rb_size ring)" using rr(1) fr by simp
  have chn: "ch < nat (min channels (rb_channels ring))" using ch by simp
  have "nat popped \<le> length (outs ! ch)" using k len by (simp add: min_le_iff_disj)
  then have o1: "outs1 ! ch = take (nat popped) (rb_frames ring ch) @ drop (nat popped) (outs ! ch)"
    by (rule rb_pop_out [OF inv ci pop chn ch(3)])
  have lf: "length (rb_frames ring ch) = rb_size ring" by (simp add: rb_frames_def)
  show ?thesis
    using o o1 k lf len by (simp add: min_def take_append)
qed

theorem dc_process_render_witness:
  "dc_process \<lparr>dc_sample_rate = 48000, dc_max_channels = 1, dc_gain = 2, dc_play = 1, dc_position = 0,
      dc_transport = \<lparr>tr_tempo = 120, tr_ppq = 0, tr_playing = False\<rparr>,
      dc_ring = Some \<lparr>rb_channels = 1, rb_capacity = 4, rb_data = [[2, 3, 9, 1]], rb_write = 6, rb_read = 3\<rparr>,
      dc_reader = None\<rparr> [[5, 5, 5, 5, 5]] 1 5 =
   Inr (\<lparr>dc_sample_rate = 48000, dc_max_channels = 1, dc_gain = 2, dc_play = 1, dc_position = 0,
      dc_transport = \<lparr>tr_tempo = 120, tr_ppq = 0, tr_playing = False\<rparr>,
      dc_ring = Some \<lparr>rb_channels = 1, rb_capacity = 4, rb_data = [[2, 3, 9, 1]], rb_write = 6, rb_read = 6\<rparr>,
      dc_reader = None\<rparr>, [[2, 4, 6, 0, 0]]) \<and>
   rb_inv \<lparr>rb_channels = 1, rb_capacity = 4, rb_data = [[2, 3, 9, 1 :: real]], rb_write = 6, rb_read = 3\<rparr> \<and>
   [2, 4, 6, 0, 0] = map (\<lambda>x. x * 2)
      (take 5 (rb_frames \<lparr>rb_channels = 1, rb_capacity = 4, rb_data = [[2, 3, 9, 1 :: real]], rb_write = 6, rb_read = 3\<rparr> 0
               @ replicate 5 0)) @ drop 5 [5, 5, 5, 5, 5]"
proof -
  let ?r = "\<lparr>rb_channels = 1, rb_capacity = 4, rb_data = [[2, 3, 9, 1 :: real]], rb_write = 6, rb_read = 3\<rparr>"
  let ?dc = "\<lparr>dc_sample_rate = 48000, dc_max_channels = 1, dc_gain = 2, dc_play = 1, dc_position = 0,
      dc_transport = \<lparr>tr_tempo = 120, tr_ppq = 0, tr_playing = False\<rparr>, dc_ring = Some ?r, dc_reader = None\<rparr>"
  have res: "dc_process ?dc [[5, 5, 5, 5, 5]] 1 5 = Inr (?dc\<lparr>dc_ring := Some (?r\<lparr>rb_read := 6\<rparr>)\<rparr>, [[2, 4, 6, 0, 0]])"
    by (simp add: dc_process_def rb_pop_def rb_copy_out_def blit_def for_channels_def zero_fill_def scale_prefix_def eval_simps)
  have inv: "rb_inv ?r" by (simp add: rb_inv_def rb_wf_def rb_size_def)
  have "[[2, 4, 6, 0, 0]] ! 0 = map (\<lambda>x. x * dc_gain ?dc) (take (nat 5) (rb_frames ?r 0 @ replicate (nat 5) 0))
                      @ drop (nat 5) ([[5, 5, 5, 5, 5]] ! 0)"
    by (rule dc_process_render [OF _ inv _ _ _ _ res]) simp_all
  then show ?thesis using res inv by simp
qed

text \<open>
  C7. Underrun yields silence (spec \S 8): with play on and an empty ring, every
  requested output channel gets exactly \<open>frames\<close> zeros.
\<close>

theorem dc_underrun_silence:
  assumes ring: "dc_ring dc = Some ring" and wf: "rb_wf ring" and empty: "rb_size ring = 0"
    and play: "dc_play dc \<noteq> 0"
    and fr: "0 < frames" "frames < 2 ^ 31" and chs: "0 < channels"
    and res: "dc_process dc outs channels frames = Inr (dc', outs')"
    and ch: "ch < nat channels" "ch < length outs" and len: "nat frames \<le> length (outs ! ch)"
  shows "take (nat frames) (outs' ! ch) = replicate (nat frames) 0"
proof -
  have ci: "c_int frames" using fr by (simp add: c_int_def)
  obtain ring' outs1 popped where pop: "rb_pop ring outs channels frames = (ring', outs1, popped)"
    and o: "outs' ! ch = map (\<lambda>x. x * dc_gain dc) (take (nat popped) (outs1 ! ch) @ replicate (nat frames - nat popped) 0)
                      @ drop (nat frames) (outs1 ! ch)"
    by (rule dc_process_play_plane [OF ring wf play fr chs res ch len])
  have "popped = 0" using rb_pop_result(1) [OF wf ci pop] empty fr by simp
  then show ?thesis using o by simp
qed

theorem dc_underrun_silence_witness:
  "dc_process \<lparr>dc_sample_rate = 48000, dc_max_channels = 1, dc_gain = 2, dc_play = 1, dc_position = 0,
      dc_transport = \<lparr>tr_tempo = 120, tr_ppq = 0, tr_playing = False\<rparr>,
      dc_ring = Some \<lparr>rb_channels = 1, rb_capacity = 4, rb_data = [[2, 3, 9, 1]], rb_write = 6, rb_read = 6\<rparr>,
      dc_reader = None\<rparr> [[5, 5, 5]] 1 3 =
   Inr (\<lparr>dc_sample_rate = 48000, dc_max_channels = 1, dc_gain = 2, dc_play = 1, dc_position = 0,
      dc_transport = \<lparr>tr_tempo = 120, tr_ppq = 0, tr_playing = False\<rparr>,
      dc_ring = Some \<lparr>rb_channels = 1, rb_capacity = 4, rb_data = [[2, 3, 9, 1]], rb_write = 6, rb_read = 6\<rparr>,
      dc_reader = None\<rparr>, [[0, 0, 0]]) \<and>
   take 3 ([[0, 0, 0]] ! 0) = replicate 3 (0 :: real)"
proof -
  let ?r = "\<lparr>rb_channels = 1, rb_capacity = 4, rb_data = [[2, 3, 9, 1 :: real]], rb_write = 6, rb_read = 6\<rparr>"
  let ?dc = "\<lparr>dc_sample_rate = 48000, dc_max_channels = 1, dc_gain = 2, dc_play = 1, dc_position = 0,
      dc_transport = \<lparr>tr_tempo = 120, tr_ppq = 0, tr_playing = False\<rparr>, dc_ring = Some ?r, dc_reader = None\<rparr>"
  have res: "dc_process ?dc [[5, 5, 5]] 1 3 = Inr (?dc, [[0, 0, 0]])"
    by (simp add: dc_process_def rb_pop_def dc_zero_planes_def for_channels_def zero_fill_def
                  scale_prefix_def blit_def eval_simps)
  have wf: "rb_wf ?r" by (simp add: rb_wf_def rb_size_def)
  have "take (nat 3) ([[0, 0, 0]] ! 0) = replicate (nat 3) (0 :: real)"
    by (rule dc_underrun_silence [OF _ wf _ _ _ _ _ res]) (simp_all add: rb_size_def)
  then show ?thesis using res by simp
qed

text \<open>
  C15. An output channel beyond the ring's channel count is not written by the pop: its
  first \<open>k\<close> samples (\<open>k\<close> the frames popped) keep the host buffer's previous content,
  scaled by the gain, and only the rest is zero-filled.
\<close>

theorem dc_process_stale_channel:
  assumes ring: "dc_ring dc = Some ring" and wf: "rb_wf ring" and play: "dc_play dc \<noteq> 0"
    and fr: "0 < frames" "frames < 2 ^ 31" and chs: "0 < channels"
    and res: "dc_process dc outs channels frames = Inr (dc', outs')"
    and ch: "ch < nat channels" "nat (rb_channels ring) \<le> ch" "ch < length outs"
    and len: "nat frames \<le> length (outs ! ch)"
  shows "take (nat frames) (outs' ! ch) =
           map (\<lambda>x. x * dc_gain dc) (take (min (nat frames) (rb_size ring)) (outs ! ch)
                                     @ replicate (nat frames - min (nat frames) (rb_size ring)) 0)"
proof -
  have ci: "c_int frames" using fr by (simp add: c_int_def)
  obtain ring' outs1 popped where pop: "rb_pop ring outs channels frames = (ring', outs1, popped)"
    and o: "outs' ! ch = map (\<lambda>x. x * dc_gain dc) (take (nat popped) (outs1 ! ch) @ replicate (nat frames - nat popped) 0)
                      @ drop (nat frames) (outs1 ! ch)"
    by (rule dc_process_play_plane [OF ring wf play fr chs res ch(1,3) len])
  have k: "nat popped = min (nat frames) (rb_size ring)" using rb_pop_result(1) [OF wf ci pop] fr by simp
  have "outs1 ! ch = outs ! ch" using rb_pop_out_other [OF pop _ ch(3)] ch(2) by simp
  then show ?thesis using o k len by (simp add: min_def)
qed

theorem dc_process_stale_channel_witness:
  "dc_process \<lparr>dc_sample_rate = 48000, dc_max_channels = 1, dc_gain = 2, dc_play = 1, dc_position = 0,
      dc_transport = \<lparr>tr_tempo = 120, tr_ppq = 0, tr_playing = False\<rparr>,
      dc_ring = Some \<lparr>rb_channels = 1, rb_capacity = 4, rb_data = [[2, 3, 9, 1]], rb_write = 6, rb_read = 3\<rparr>,
      dc_reader = None\<rparr> [[5, 5, 5, 5, 5], [7, 7, 7, 7, 7]] 2 5 =
   Inr (\<lparr>dc_sample_rate = 48000, dc_max_channels = 1, dc_gain = 2, dc_play = 1, dc_position = 0,
      dc_transport = \<lparr>tr_tempo = 120, tr_ppq = 0, tr_playing = False\<rparr>,
      dc_ring = Some \<lparr>rb_channels = 1, rb_capacity = 4, rb_data = [[2, 3, 9, 1]], rb_write = 6, rb_read = 6\<rparr>,
      dc_reader = None\<rparr>, [[2, 4, 6, 0, 0], [14, 14, 14, 0, 0]]) \<and>
   take 5 [14, 14, 14, 0, 0] = map (\<lambda>x. x * 2) (take 3 [7, 7, 7, 7, 7] @ replicate 2 (0 :: real))"
proof -
  let ?r = "\<lparr>rb_channels = 1, rb_capacity = 4, rb_data = [[2, 3, 9, 1 :: real]], rb_write = 6, rb_read = 3\<rparr>"
  let ?dc = "\<lparr>dc_sample_rate = 48000, dc_max_channels = 1, dc_gain = 2, dc_play = 1, dc_position = 0,
      dc_transport = \<lparr>tr_tempo = 120, tr_ppq = 0, tr_playing = False\<rparr>, dc_ring = Some ?r, dc_reader = None\<rparr>"
  have res: "dc_process ?dc [[5, 5, 5, 5, 5], [7, 7, 7, 7, 7]] 2 5 =
             Inr (?dc\<lparr>dc_ring := Some (?r\<lparr>rb_read := 6\<rparr>)\<rparr>, [[2, 4, 6, 0, 0], [14, 14, 14, 0, 0]])"
    by (simp add: dc_process_def rb_pop_def rb_copy_out_def blit_def for_channels_def zero_fill_def
                  scale_prefix_def eval_simps)
  have wf: "rb_wf ?r" by (simp add: rb_wf_def rb_size_def)
  have "take (nat 5) ([[2, 4, 6, 0, 0], [14, 14, 14, 0, 0]] ! 1) =
        map (\<lambda>x. x * dc_gain ?dc) (take (min (nat 5) (rb_size ?r)) ([[5, 5, 5, 5, 5], [7, 7, 7, 7, 7]] ! 1)
             @ replicate (nat 5 - min (nat 5) (rb_size ?r)) 0)"
    by (rule dc_process_stale_channel [OF _ wf _ _ _ _ res]) simp_all
  then show ?thesis using res by (simp add: rb_size_def eval_simps)
qed

text \<open>
  C16. The silence paths of \<^verbatim>\<open>process\<close>: without a ring, or with play off, every
  requested output channel gets \<open>frames\<close> zeros and the core is left unchanged (no
  pop).
\<close>

theorem dc_process_silence:
  assumes stopped: "dc_ring dc = None \<or> dc_play dc = 0"
    and fr: "0 \<le> frames"
    and res: "dc_process dc outs channels frames = Inr (dc', outs')"
    and ch: "ch < nat channels" "ch < length outs" and len: "nat frames \<le> length (outs ! ch)"
  shows "dc' = dc \<and> outs' ! ch = replicate (nat frames) 0 @ drop (nat frames) (outs ! ch)"
proof -
  have z: "dc_zero_planes outs channels frames = Inr (for_channels (nat channels) (\<lambda>_ p. zero_fill p 0 (nat frames)) outs)"
    using fr by (simp add: dc_zero_planes_def)
  have "dc_process dc outs channels frames = Inr (dc, for_channels (nat channels) (\<lambda>_ p. zero_fill p 0 (nat frames)) outs)"
    using stopped z by (auto simp: dc_process_def Let_def split: option.splits)
  then have "dc' = dc" and o: "outs' = for_channels (nat channels) (\<lambda>_ p. zero_fill p 0 (nat frames)) outs"
    using res by simp_all
  then show ?thesis using ch len by (simp add: nth_for_channels zero_fill_def blit_def)
qed

theorem dc_process_silence_witness:
  "dc_process \<lparr>dc_sample_rate = 48000, dc_max_channels = 1, dc_gain = 2, dc_play = 0, dc_position = 0,
      dc_transport = \<lparr>tr_tempo = 120, tr_ppq = 0, tr_playing = False\<rparr>,
      dc_ring = Some \<lparr>rb_channels = 1, rb_capacity = 4, rb_data = [[2, 3, 9, 1]], rb_write = 6, rb_read = 3\<rparr>,
      dc_reader = None\<rparr> [[5, 5, 5]] 1 2 =
   Inr (\<lparr>dc_sample_rate = 48000, dc_max_channels = 1, dc_gain = 2, dc_play = 0, dc_position = 0,
      dc_transport = \<lparr>tr_tempo = 120, tr_ppq = 0, tr_playing = False\<rparr>,
      dc_ring = Some \<lparr>rb_channels = 1, rb_capacity = 4, rb_data = [[2, 3, 9, 1]], rb_write = 6, rb_read = 3\<rparr>,
      dc_reader = None\<rparr>, [[0, 0, 5]]) \<and>
   [[0, 0, 5]] ! 0 = replicate 2 0 @ drop 2 ([[5, 5, 5 :: real]] ! 0)"
proof -
  let ?dc = "\<lparr>dc_sample_rate = 48000, dc_max_channels = 1, dc_gain = 2, dc_play = 0, dc_position = 0,
      dc_transport = \<lparr>tr_tempo = 120, tr_ppq = 0, tr_playing = False\<rparr>,
      dc_ring = Some \<lparr>rb_channels = 1, rb_capacity = 4, rb_data = [[2, 3, 9, 1 :: real]], rb_write = 6, rb_read = 3\<rparr>,
      dc_reader = None\<rparr>"
  have res: "dc_process ?dc [[5, 5, 5]] 1 2 = Inr (?dc, [[0, 0, 5]])"
    by (simp add: dc_process_def dc_zero_planes_def for_channels_def zero_fill_def blit_def eval_simps)
  have "?dc = ?dc \<and> [[0, 0, 5]] ! 0 = replicate (nat 2) 0 @ drop (nat 2) ([[5, 5, 5 :: real]] ! 0)"
    by (rule dc_process_silence [OF _ _ res]) simp_all
  then show ?thesis using res by simp
qed

text \<open>
  C17. A negative frame count with a positive channel count does not reach the silence
  it is meant to produce: \<^verbatim>\<open>memset\<close> is called with the count converted to a huge
  \<^verbatim>\<open>size_t\<close>, whatever the state of the core.
\<close>

theorem dc_process_negative_frames:
  assumes "0 < channels" and "frames < 0"
  shows "dc_process dc outs channels frames = Inl Memset_overflow"
  using assms by (simp add: dc_process_def dc_zero_planes_def Let_def split: option.splits)

theorem dc_process_negative_frames_witness:
  "(0::int) < 1 \<and> (-1::int) < 0 \<and> dc_process dc_new [[5, 5]] 1 (-1) = Inl Memset_overflow"
  using dc_process_negative_frames [of 1 "-1" dc_new "[[5, 5]]"] by simp

text \<open>
  The position parameter is stored but has no effect on rendering (spec \S 9):
  \<^verbatim>\<open>process\<close> from a state that differs only in \<^verbatim>\<open>mPositionFrames\<close> gives the
  same outputs and the same new state up to that field.
\<close>

theorem dc_process_position_inert:
  "dc_process (dc\<lparr>dc_position := pos\<rparr>) outs channels frames =
     map_sum id (\<lambda>(d, ps). (d\<lparr>dc_position := pos\<rparr>, ps)) (dc_process dc outs channels frames)"
  by (simp add: dc_process_def Let_def dc_zero_planes_def split: option.splits prod.splits)

subsection \<open>Initialisation\<close>

text \<open>
  C21. The first \<^verbatim>\<open>init\<close> with a valid size allocates an empty ring of the given
  channels and capacity that satisfies the ring invariant, and a reader.
\<close>

theorem dc_init_fresh:
  assumes "dc_ring dc = None" and "0 \<le> maxChannels" and "0 < ringFrames" and "ringFrames < 2 ^ 31"
  shows "\<exists>ring. dc_init dc sr maxChannels ringFrames =
                 Inr (dc\<lparr>dc_sample_rate := sr, dc_max_channels := maxChannels, dc_ring := Some ring,
                        dc_reader := (if dc_reader dc = None then Some dr_new else dc_reader dc)\<rparr>)
               \<and> rb_inv ring \<and> rb_channels ring = maxChannels \<and> rb_capacity ring = ringFrames
               \<and> rb_abs ring = \<lparr>fq_len = 0, fq_chans = replicate (nat maxChannels) []\<rparr>"
proof -
  obtain ring :: "real ring" where new: "rb_new maxChannels ringFrames = Inr ring"
    using assms by (simp add: rb_new_def)
  have "rb_channels ring = maxChannels \<and> rb_capacity ring = ringFrames"
    using new assms by (auto simp: rb_new_def split: if_splits)
  moreover have "dc_init dc sr maxChannels ringFrames =
                 Inr (dc\<lparr>dc_sample_rate := sr, dc_max_channels := maxChannels, dc_ring := Some ring,
                        dc_reader := (if dc_reader dc = None then Some dr_new else dc_reader dc)\<rparr>)"
    using assms new by (simp add: dc_init_def Let_def)
  ultimately show ?thesis using rb_new_inv [OF new assms(3,4)] by blast
qed

theorem dc_init_fresh_witness:
  "\<exists>ring. dc_init dc_new 44100 2 1024 =
            Inr (dc_new\<lparr>dc_sample_rate := 44100, dc_max_channels := 2, dc_ring := Some ring,
                        dc_reader := Some dr_new\<rparr>)
          \<and> rb_inv ring \<and> rb_channels ring = 2 \<and> rb_capacity ring = 1024
          \<and> rb_abs ring = \<lparr>fq_len = 0, fq_chans = [[], []]\<rparr>"
  using dc_init_fresh [of dc_new 2 1024 44100] by (simp add: dc_new_def eval_simps)

text \<open>
  A later \<^verbatim>\<open>init\<close> never reallocates: it stores the new sample rate and channel
  count but keeps the ring allocated before, whatever its channel count and capacity.
\<close>

theorem dc_init_keeps_ring:
  assumes "dc_ring dc \<noteq> None"
  shows "dc_init dc sr maxChannels ringFrames =
           Inr (dc\<lparr>dc_sample_rate := sr, dc_max_channels := maxChannels,
                   dc_reader := (if dc_reader dc = None then Some dr_new else dc_reader dc)\<rparr>)"
  using assms by (auto simp: dc_init_def)

theorem dc_init_keeps_ring_witness:
  "dc_init (dc_new\<lparr>dc_ring := Some \<lparr>rb_channels = 1, rb_capacity = 4, rb_data = [[0, 0, 0, 0]], rb_write = 0, rb_read = 0\<rparr>,
                    dc_reader := Some dr_new\<rparr>) 48000 2 1024 =
     Inr (dc_new\<lparr>dc_sample_rate := 48000, dc_max_channels := 2,
                 dc_ring := Some \<lparr>rb_channels = 1, rb_capacity = 4, rb_data = [[0, 0, 0, 0]], rb_write = 0, rb_read = 0\<rparr>,
                 dc_reader := Some dr_new\<rparr>)"
  using dc_init_keeps_ring [of "dc_new\<lparr>dc_ring := Some \<lparr>rb_channels = 1, rb_capacity = 4, rb_data = [[0, 0, 0, 0]], rb_write = 0, rb_read = 0\<rparr>,
                    dc_reader := Some dr_new\<rparr>" 48000 2 1024]
  by (simp add: dc_new_def)



end
