(* ===== verification/Plugin.thy ===== *)
theory Plugin
  imports RecorderWriter DspCore
begin

text \<open>
  The host glue: the iPlug2 plugin (src/src/au/Plugin.h, Plugin.cpp) and the WAM entry
  points (src/src/web/wam_entry.cpp). The plugin owns a \<^verbatim>\<open>DSPCore\<close>; its
  \<^verbatim>\<open>ProcessBlock\<close> renders and, when the process-wide recorder's source is the plugin,
  taps the rendered output into the recorder through the C ABI. What the host reports
  (\<^verbatim>\<open>GetSampleRate\<close>, \<^verbatim>\<open>NOutChansConnected\<close>, \<^verbatim>\<open>GetBlockSize\<close>) is the record
  \<open>host\<close>; the values of the three parameters are fields of the plugin, set by the host
  before it calls \<^verbatim>\<open>OnParamChange\<close>. The recorder singleton \<^verbatim>\<open>recorder()\<close> is passed
  and returned explicitly.
\<close>

record host =
  h_sample_rate :: real
  h_out_chans :: int
  h_block_size :: int

record plugin =
  pl_core :: dsp_core
  pl_gain :: real
  pl_play :: real
  pl_position :: real

text \<open>The constructor: \<^verbatim>\<open>InitDouble("gain", 1.0, ...)\<close>, \<^verbatim>\<open>InitBool("play", false)\<close>,
  \<^verbatim>\<open>InitDouble("positionFrames", 0.0, ...)\<close>.\<close>

definition pl_new :: plugin where
  "pl_new = \<lparr>pl_core = dc_new, pl_gain = 1, pl_play = 0, pl_position = 0\<rparr>"

text \<open>\<^verbatim>\<open>OnReset\<close>: \<^verbatim>\<open>mCore.init(sr, max(1, NOutChansConnected()), 4 * GetBlockSize())\<close>.\<close>

definition pl_on_reset :: "plugin \<Rightarrow> host \<Rightarrow> dsp_fault + plugin" where
  "pl_on_reset pl h =
     (let sr = h_sample_rate h; ch = max 1 (h_out_chans h); ringFrames = 4 * h_block_size h
      in map_sum id (\<lambda>c. pl\<lparr>pl_core := c\<rparr>) (dc_init (pl_core pl) sr ch ringFrames))"

text \<open>\<^verbatim>\<open>OnParamChange(paramIdx)\<close> with \<^verbatim>\<open>kParamGain = 0\<close>, \<^verbatim>\<open>kParamPlay = 1\<close>,
  \<^verbatim>\<open>kParamPosition = 2\<close>; other indices do nothing.\<close>

definition pl_on_param_change :: "plugin \<Rightarrow> int \<Rightarrow> plugin" where
  "pl_on_param_change pl paramIdx =
     (if paramIdx = 0 then pl\<lparr>pl_core := dc_set_parameter (pl_core pl) Gain (pl_gain pl)\<rparr>
      else if paramIdx = 1 then pl\<lparr>pl_core := dc_set_parameter (pl_core pl) Play (pl_play pl)\<rparr>
      else if paramIdx = 2 then pl\<lparr>pl_core := dc_set_parameter (pl_core pl) PositionFrames (pl_position pl)\<rparr>
      else pl)"

text \<open>
  \<^verbatim>\<open>ProcessBlock\<close>: render into the output planes, then, if
  \<^verbatim>\<open>squirrel_recorder_core_source_is("plugin")\<close>, push those planes to the recorder with
  \<^verbatim>\<open>static_cast<uint16_t>(chans)\<close> channels and \<^verbatim>\<open>static_cast<uint32_t>(nFrames)\<close>
  frames. The inputs are not read by the core.
\<close>

definition pl_process_block ::
  "plugin \<Rightarrow> recorder_core \<Rightarrow> host \<Rightarrow> plane list \<Rightarrow> int \<Rightarrow> dsp_fault + plugin \<times> recorder_core \<times> plane list" where
  "pl_process_block pl rc h outputs nFrames =
     (let chans = h_out_chans h
      in case dc_process (pl_core pl) outputs chans nFrames of
           Inl e \<Rightarrow> Inl e
         | Inr (core', outs) \<Rightarrow>
             let rc' = (if squirrel_recorder_core_source_is rc (Some ''plugin'')
                        then rc_push rc (Some outs) (word_of_int chans) (word_of_int nFrames) else rc)
             in Inr (pl\<lparr>pl_core := core'\<rparr>, rc', outs))"

definition pl_load_file :: "plugin \<Rightarrow> string option \<Rightarrow> plugin" where
  "pl_load_file pl path = pl\<lparr>pl_core := dc_load_file (pl_core pl) path\<rparr>"

subsection \<open>The WAM entry points\<close>

text \<open>
  \<^verbatim>\<open>atome_create_core\<close> allocates a core and initialises it; \<^verbatim>\<open>atome_destroy_core\<close>
  runs the destructor, which calls \<^verbatim>\<open>clear\<close>; \<^verbatim>\<open>atome_set_param\<close> casts the integer
  to \<^verbatim>\<open>ParamId\<close>, and an integer outside 0..2 matches no case of the switch.
\<close>

definition param_of_int :: "int \<Rightarrow> param_id option" where
  "param_of_int i =
     (if i = 0 then Some Gain else if i = 1 then Some Play else if i = 2 then Some PositionFrames else None)"

definition atome_create_core :: "real \<Rightarrow> int \<Rightarrow> int \<Rightarrow> dsp_fault + dsp_core" where
  "atome_create_core sampleRate channels ringFrames = dc_init dc_new sampleRate channels ringFrames"

definition atome_destroy_core :: "dsp_core \<Rightarrow> dsp_core" where
  "atome_destroy_core core = dc_clear core"

definition atome_set_param :: "dsp_core \<Rightarrow> int \<Rightarrow> real \<Rightarrow> dsp_core" where
  "atome_set_param core i value =
     (case param_of_int i of None \<Rightarrow> core | Some pid \<Rightarrow> dc_set_parameter core pid value)"

definition atome_process :: "dsp_core \<Rightarrow> plane list \<Rightarrow> int \<Rightarrow> int \<Rightarrow> dsp_fault + dsp_core \<times> plane list" where
  "atome_process core outs ch n = dc_process core outs ch n"

subsection \<open>Lemmas\<close>

lemma unat_word_of_int_u32: "0 \<le> n \<Longrightarrow> n < 2 ^ 31 \<Longrightarrow> unat (word_of_int n :: u32) = nat n"
  by (simp add: unat_word_of_int_nonneg)

lemma squirrel_source_is_plugin:
  "squirrel_recorder_core_source_is rc (Some ''plugin'') \<longleftrightarrow> rc_running rc \<and> rc_source rc = Plugin"
  by (simp add: squirrel_recorder_core_source_is_def rc_source_is_def parse_source_def)

subsection \<open>The plugin feeds the recorder what the host hears\<close>

text \<open>
  C5. Composition of render and capture: when the recorder is running with source
  \<^verbatim>\<open>"plugin"\<close> and the render call succeeds, \<^verbatim>\<open>ProcessBlock\<close> returns to the host the
  rendered planes and pushes exactly those planes into the recorder: the recorder's queue
  changes as \<open>q_push\<close> of the host's output, and its ring keeps its invariant.
\<close>

theorem pl_process_block_capture:
  assumes inv: "rc_inv rc" and run: "rc_running rc" and src: "rc_source rc = Plugin"
    and ring: "rc_ring rc = Some r" and safe: "rb_slot_safe r (rb_write r)"
    and proc: "dc_process (pl_core pl) outputs (h_out_chans h) n = Inr (core', outs)"
    and fr: "0 < n" "n < 2 ^ 31"
    and ch: "rc_channels rc \<le> word_of_int (h_out_chans h)" "unat (rc_channels rc) \<le> length outs"
    and lens: "list_all (\<lambda>p. nat n \<le> length p) outs"
  shows "\<exists>r'. pl_process_block pl rc h outputs n = Inr (pl\<lparr>pl_core := core'\<rparr>, rc\<lparr>rc_ring := Some r'\<rparr>, outs) \<and>
           rb_inv r' \<and> rb_abs r' = fst (q_push (rb_cap r) (rb_abs r) outs (nat n))"
proof -
  have u: "unat (word_of_int n :: u32) = nat n" using fr by (simp add: unat_word_of_int_u32)
  have "0 < unat (word_of_int n :: u32)" using u fr(1) by simp
  then have nz: "(word_of_int n :: u32) \<noteq> 0" by (simp add: unat_gt_0)
  have lt: "unat (word_of_int n :: u32) < 2 ^ 31" using u fr by simp
  obtain r' where push: "rc_push rc (Some outs) (word_of_int (h_out_chans h)) (word_of_int n) = rc\<lparr>rc_ring := Some r'\<rparr>"
      and r': "rb_inv r'" "rb_abs r' = fst (q_push (rb_cap r) (rb_abs r) outs (unat (word_of_int n :: u32)))"
    using rc_push_abs [OF inv run ring safe nz lt ch] lens u by auto
  have "pl_process_block pl rc h outputs n = Inr (pl\<lparr>pl_core := core'\<rparr>, rc\<lparr>rc_ring := Some r'\<rparr>, outs)"
    using proc push run src by (simp add: pl_process_block_def squirrel_source_is_plugin)
  then show ?thesis using r' u by auto
qed

theorem pl_process_block_capture_witness:
  "let R = \<lparr>rb_channels = 1, rb_capacity = 4, rb_data = [[0, 0, 0, 0]], rb_write = 0, rb_read = 0\<rparr>;
       X = rc_new\<lparr>rc_running := True, rc_source := Plugin, rc_sample_rate := 8000, rc_channels := 1,
                  rc_ring := Some R, rc_file := Some \<lparr>f_data = wav_header 8000 1 0, f_pos = 44\<rparr>,
                  rc_writer := True, rc_w_buffers := [replicate 1024 0], rc_w_interleaved := replicate 1024 0\<rparr>;
       H = \<lparr>h_sample_rate = 8000, h_out_chans = 1, h_block_size = 2\<rparr>
   in rc_inv X \<and> rc_running X \<and> rc_source X = Plugin \<and> rc_ring X = Some R \<and> rb_slot_safe R (rb_write R) \<and>
      dc_process (pl_core pl_new) [[5, 5]] (h_out_chans H) 2 = Inr (dc_new, [[0, 0]]) \<and>
      rc_channels X \<le> word_of_int (h_out_chans H) \<and>
      (\<exists>r'. pl_process_block pl_new X H [[5, 5]] 2 = Inr (pl_new, X\<lparr>rc_ring := Some r'\<rparr>, [[0, 0]]) \<and>
            rb_abs r' = fst (q_push 4 (rb_abs R) [[0, 0]] 2))"
proof -
  define R :: "real ring" where "R = \<lparr>rb_channels = 1, rb_capacity = 4, rb_data = [[0, 0, 0, 0]], rb_write = 0, rb_read = 0\<rparr>"
  define X where "X = rc_new\<lparr>rc_running := True, rc_source := Plugin, rc_sample_rate := 8000, rc_channels := 1,
                  rc_ring := Some R, rc_file := Some \<lparr>f_data = wav_header 8000 1 0, f_pos = 44\<rparr>,
                  rc_writer := True, rc_w_buffers := [replicate 1024 0], rc_w_interleaved := replicate 1024 0\<rparr>"
  define H where "H = \<lparr>h_sample_rate = 8000, h_out_chans = 1, h_block_size = 2\<rparr>"
  have h1: "rc_inv X"
    by (simp add: rc_inv_def X_def R_def rc_new_def rc_writer_ok_def rb_inv_def rb_wf_def rb_size_def
        kMaxChannels_def list_all_length)
  have h2: "rc_running X" "rc_source X = Plugin" "rc_ring X = Some R" by (simp_all add: X_def)
  have h3: "rb_slot_safe R (rb_write R)" by (simp add: R_def rb_slot_safe_def)
  have h4: "dc_process (pl_core pl_new) [[5, 5]] (h_out_chans H) 2 = Inr (dc_new, [[0, 0]])"
    by (simp add: pl_new_def H_def dc_process_def dc_new_def dc_zero_planes_def for_channels_def
        zero_fill_def blit_def eval_simps)
  have h5: "rc_channels X \<le> word_of_int (h_out_chans H)" "unat (rc_channels X) \<le> length [[0, 0 :: real]]"
    by (simp_all add: X_def H_def)
  obtain r' where A: "pl_process_block pl_new X H [[5, 5]] 2 = Inr (pl_new\<lparr>pl_core := dc_new\<rparr>, X\<lparr>rc_ring := Some r'\<rparr>, [[0, 0]])"
      and B: "rb_abs r' = fst (q_push (rb_cap R) (rb_abs R) [[0, 0]] (nat 2))"
    using pl_process_block_capture [OF h1 h2 h3 h4 _ _ h5] by auto
  have pn: "pl_new\<lparr>pl_core := dc_new\<rparr> = pl_new" by (simp add: pl_new_def)
  have c4: "rb_cap R = 4" by (simp add: R_def)
  have A': "pl_process_block pl_new X H [[5, 5]] 2 = Inr (pl_new, X\<lparr>rc_ring := Some r'\<rparr>, [[0, 0]])"
    using A pn by simp
  have B': "rb_abs r' = fst (q_push 4 (rb_abs R) [[0, 0]] 2)" using B c4 by simp
  show ?thesis
    unfolding Let_def R_def [symmetric] X_def [symmetric] H_def [symmetric]
    using h1 h2 h3 h4 h5(1) A' B' by blast
qed

end
