(* ===== verification/RecorderThreads.thy ===== *)
theory RecorderThreads
  imports Recorder
begin

text \<open>
  The threads of the recorder (RecorderCore.cpp) interleaved. \<^verbatim>\<open>stop\<close> (caller thread),
  \<^verbatim>\<open>push\<close> (audio thread) and the writer thread of \<^verbatim>\<open>start_writer\<close> each run as a sequence
  of atomic steps on the shared \<open>recorder_core\<close>, with a program counter per thread: the
  writer's pop and its flag test after an empty pop are two steps; \<^verbatim>\<open>push\<close>'s guard and
  its access to \<^verbatim>\<open>mRing\<close> are two steps; \<^verbatim>\<open>stop\<close> clears the flag, then (after the join,
  i.e. once the writer has exited) finishes with \<open>rc_stop_finish\<close>. A push that reaches
  the ring after \<^verbatim>\<open>mRing.reset()\<close> is recorded as a fault. The step relation \<open>rec_step\<close>
  is an inductive predicate; reachability is its reflexive transitive closure.
\<close>

datatype writer_pc = W_Pop | W_Check | W_Exit
datatype producer_pc = P_Idle | P_Pushing "plane list" u16 u32
datatype stopper_pc = S_Idle | S_Joining | S_Done

record sys =
  s_rc :: recorder_core
  s_w :: writer_pc
  s_p :: producer_pc
  s_s :: stopper_pc
  s_fault :: bool
  s_final :: "cfile option"

text \<open>
  The steps. \<open>writer_pop\<close>: \<^verbatim>\<open>frames = mRing ? mRing->pop(...) : 0\<close> and the conversion and
  write (\<open>rc_writer_pop\<close>), then \<^verbatim>\<open>continue\<close> if frames were popped. \<open>writer_check\<close>:
  \<^verbatim>\<open>if (!mRunning.load()) break;\<close>, otherwise sleep and pop again. \<open>push_guard\<close>:
  \<^verbatim>\<open>if (!mRunning.load() || !mRing || !data || frames == 0) return;\<close> passed.
  \<open>push_body\<close>: \<^verbatim>\<open>mRing->push(ptr, ch, static_cast<int>(frames))\<close>, a fault if the ring
  was released in between. \<open>stop_clear\<close>: \<^verbatim>\<open>mRunning.store(false)\<close>. \<open>stop_finish\<close>:
  after \<^verbatim>\<open>mWriterThread.join()\<close> returns, patch the header, close, release the ring.
\<close>

inductive rec_step :: "sys \<Rightarrow> sys \<Rightarrow> bool" where
  writer_pop:
    "s_w s = W_Pop \<Longrightarrow> rc_writer_pop (s_rc s) = (rc', k) \<Longrightarrow>
     rec_step s (s\<lparr>s_rc := rc', s_w := (if 0 < k then W_Pop else W_Check)\<rparr>)"
| writer_check:
    "s_w s = W_Check \<Longrightarrow>
     rec_step s (s\<lparr>s_w := (if rc_running (s_rc s) then W_Pop else W_Exit)\<rparr>)"
| push_guard:
    "s_p s = P_Idle \<Longrightarrow> rc_running (s_rc s) \<Longrightarrow> rc_ring (s_rc s) \<noteq> None \<Longrightarrow> frames \<noteq> 0 \<Longrightarrow>
     rec_step s (s\<lparr>s_p := P_Pushing planes channels frames\<rparr>)"
| push_body:
    "s_p s = P_Pushing planes channels frames \<Longrightarrow>
     rec_step s (case rc_ring (s_rc s) of
                   None \<Rightarrow> s\<lparr>s_p := P_Idle, s_fault := True\<rparr>
                 | Some ring \<Rightarrow>
                     s\<lparr>s_rc := (s_rc s)\<lparr>rc_ring := Some (fst (rb_push ring planes
                              (uint (min channels (rc_channels (s_rc s)))) (sint frames)))\<rparr>,
                       s_p := P_Idle\<rparr>)"
| stop_clear:
    "s_s s = S_Idle \<Longrightarrow> rc_running (s_rc s) \<Longrightarrow>
     rec_step s (s\<lparr>s_rc := (s_rc s)\<lparr>rc_running := False\<rparr>, s_s := S_Joining\<rparr>)"
| stop_finish:
    "s_s s = S_Joining \<Longrightarrow> s_w s = W_Exit \<Longrightarrow> rc_stop_finish (s_rc s) = (rc', d, ff) \<Longrightarrow>
     rec_step s (s\<lparr>s_rc := rc', s_s := S_Done, s_final := ff\<rparr>)"

text \<open>The state right after a successful \<^verbatim>\<open>start\<close>: writer about to pop, no push in flight.\<close>

definition sys_init :: "recorder_core \<Rightarrow> sys" where
  "sys_init rc = \<lparr>s_rc = rc, s_w = W_Pop, s_p = P_Idle, s_s = S_Idle, s_fault = False, s_final = None\<rparr>"

definition sys_quiet :: "sys \<Rightarrow> bool" where
  "sys_quiet s \<longleftrightarrow> \<not> rc_running (s_rc s) \<and> s_p s = P_Idle \<and> \<not> s_fault s"

definition sys_inv :: "sys \<Rightarrow> bool" where
  "sys_inv s \<longleftrightarrow>
     (s_s s = S_Done \<longrightarrow> s_w s = W_Exit) \<and>
     (s_s s \<noteq> S_Idle \<longrightarrow> \<not> rc_running (s_rc s)) \<and>
     (rc_ring (s_rc s) = None \<longleftrightarrow> s_s s = S_Done) \<and>
     (s_fault s \<longrightarrow> s_s s = S_Done)"

text \<open>A recorder at 8 kHz, one channel, a ring of four frames, nothing queued, writer started.\<close>

definition race_ring :: "real ring" where
  "race_ring = \<lparr>rb_channels = 1, rb_capacity = 4, rb_data = [[0, 0, 0, 0]], rb_write = 0, rb_read = 0\<rparr>"

definition race_rc :: recorder_core where
  "race_rc = rc_new\<lparr>rc_running := True, rc_sample_rate := 8000, rc_channels := 1, rc_ring := Some race_ring,
              rc_file := Some \<lparr>f_data = wav_header 8000 1 0, f_pos = 44\<rparr>, rc_writer := True,
              rc_w_buffers := [[0, 0]], rc_w_interleaved := [0, 0]\<rparr>"

inductive_cases rec_step_cases: "rec_step s s'"

lemma rc_writer_pop_running: "rc_writer_pop rc = (rc', k) \<Longrightarrow> rc_running rc' = rc_running rc"
  by (auto simp: rc_writer_pop_def Let_def split: option.splits prod.splits if_splits)

lemma rc_writer_pop_ring: "rc_writer_pop rc = (rc', k) \<Longrightarrow> (rc_ring rc' = None) = (rc_ring rc = None)"
  by (auto simp: rc_writer_pop_def Let_def split: option.splits prod.splits if_splits)

lemma rc_stop_finish_simps:
  "rc_stop_finish rc = (rc', d, ff) \<Longrightarrow> rc_running rc' = rc_running rc \<and> rc_ring rc' = None"
  by (auto simp: rc_stop_finish_def Let_def)


lemma steps_chain:
  "rec_step a b \<Longrightarrow> rec_step\<^sup>*\<^sup>* b c \<Longrightarrow> rec_step\<^sup>*\<^sup>* a c"
  "rec_step a b \<Longrightarrow> rec_step\<^sup>*\<^sup>* a b"
  by (rule converse_rtranclp_into_rtranclp, assumption+) (rule r_into_rtranclp)

lemma race_pop_empty:
  "rc_writer_pop race_rc = (race_rc, 0)"
  "rc_writer_pop (race_rc\<lparr>rc_running := False\<rparr>) = (race_rc\<lparr>rc_running := False\<rparr>, 0)"
  by (simp_all add: rc_writer_pop_def race_rc_def race_ring_def rc_new_def rb_pop_def Let_def)



lemma sys_quiet_step: "rec_step s s' \<Longrightarrow> sys_quiet s \<Longrightarrow> sys_quiet s'"
  by (induction rule: rec_step.induct)
     (auto simp: sys_quiet_def dest: rc_writer_pop_running rc_stop_finish_simps)

lemma sys_inv_step: "rec_step s s' \<Longrightarrow> sys_inv s \<Longrightarrow> sys_inv s'"
  by (induction rule: rec_step.induct)
     (auto simp: sys_inv_def dest: rc_writer_pop_running rc_writer_pop_ring rc_stop_finish_simps
           split: option.splits)

lemma sys_inv_init: "rc_ring rc \<noteq> None \<Longrightarrow> sys_inv (sys_init rc)"
  by (simp add: sys_inv_def sys_init_def)

text \<open>
  C24. Frames lost at \<^verbatim>\<open>stop\<close>: the writer pops an empty ring, a push queues two frames,
  \<^verbatim>\<open>stop\<close> clears the flag, the writer tests the flag and exits without popping again,
  and \<^verbatim>\<open>stop\<close> closes the file. The two frames were queued before \<^verbatim>\<open>stop\<close> was called,
  yet the file holds the header and no sample.
\<close>

theorem rc_stop_loses_frames:
  "\<exists>s3 r3 s6. rec_step\<^sup>*\<^sup>* (sys_init race_rc) s3 \<and> s_s s3 = S_Idle \<and> rc_ring (s_rc s3) = Some r3 \<and>
      rb_frames r3 0 = [1, 2] \<and> rec_step\<^sup>*\<^sup>* s3 s6 \<and> s_s s6 = S_Done \<and>
      s_final s6 = Some \<lparr>f_data = wav_header 8000 1 0, f_pos = 44\<rparr>"
proof -
  define r3 where "r3 = fst (rb_push race_ring [[1, 2]] (uint (min 1 (rc_channels race_rc))) (sint (2 :: u32)))"
  let ?s0 = "sys_init race_rc"
  let ?s1 = "?s0\<lparr>s_rc := race_rc, s_w := W_Check\<rparr>"
  let ?s2 = "?s1\<lparr>s_p := P_Pushing [[1, 2]] 1 2\<rparr>"
  let ?s3 = "?s2\<lparr>s_rc := race_rc\<lparr>rc_ring := Some r3\<rparr>, s_p := P_Idle\<rparr>"
  let ?s4 = "?s3\<lparr>s_rc := race_rc\<lparr>rc_ring := Some r3, rc_running := False\<rparr>, s_s := S_Joining\<rparr>"
  let ?s5 = "?s4\<lparr>s_w := W_Exit\<rparr>"
  obtain rc6 d ff where fin: "rc_stop_finish (race_rc\<lparr>rc_ring := Some r3, rc_running := False\<rparr>) = (rc6, d, ff)"
    by (metis prod_cases3)
  let ?s6 = "?s5\<lparr>s_rc := rc6, s_s := S_Done, s_final := ff\<rparr>"
  have st1: "rec_step ?s0 ?s1"
    using rec_step.writer_pop [of ?s0 race_rc 0] race_pop_empty by (simp add: sys_init_def)
  have st2: "rec_step ?s1 ?s2"
    by (rule rec_step.push_guard) (simp_all add: sys_init_def race_rc_def)
  have st3: "rec_step ?s2 ?s3"
    using rec_step.push_body [of ?s2 "[[1, 2]]" 1 2] by (simp add: sys_init_def race_rc_def r3_def)
  have st4: "rec_step ?s3 ?s4"
    using rec_step.stop_clear [of ?s3] by (simp add: sys_init_def race_rc_def)
  have st5: "rec_step ?s4 ?s5"
    using rec_step.writer_check [of ?s4] by (simp add: sys_init_def)
  have st6: "rec_step ?s5 ?s6"
    by (rule rec_step.stop_finish) (simp_all add: sys_init_def fin)
  have ff: "ff = Some \<lparr>f_data = wav_header 8000 1 0, f_pos = 44\<rparr>"
    using fin by (simp add: rc_stop_finish_def race_rc_def rc_new_def Let_def write_wav_header_def
                   fwrite_def blit_def)
  have fr: "rb_frames r3 0 = [1, 2]"
    by (simp add: r3_def race_ring_def race_rc_def rc_new_def rb_push_def rb_frames_def rb_size_def
        rb_slot_def rb_copy_in_def for_channels_def Let_def eval_simps blit_def)
  have "rec_step\<^sup>*\<^sup>* ?s0 ?s3" using st1 st2 st3 by (blast intro: steps_chain)
  moreover have "rec_step\<^sup>*\<^sup>* ?s3 ?s6" using st4 st5 st6 by (blast intro: steps_chain)
  ultimately show ?thesis using ff fr by (intro exI [of _ ?s3] exI [of _ r3] exI [of _ ?s6]) (simp add: sys_init_def)
qed

text \<open>
  C25. Use after release: a push passes its \<^verbatim>\<open>mRunning\<close> check, \<^verbatim>\<open>stop\<close> clears the flag,
  the writer exits, \<^verbatim>\<open>stop\<close> releases the ring, and the push then calls
  \<^verbatim>\<open>mRing->push\<close> on the released ring: a reachable fault.
\<close>

theorem rc_push_after_stop:
  "\<exists>s. rec_step\<^sup>*\<^sup>* (sys_init race_rc) s \<and> s_fault s \<and> s_s s = S_Done"
proof -
  let ?s0 = "sys_init race_rc"
  let ?s1 = "?s0\<lparr>s_rc := race_rc, s_w := W_Check\<rparr>"
  let ?s2 = "?s1\<lparr>s_p := P_Pushing [[1, 2]] 1 2\<rparr>"
  let ?s3 = "?s2\<lparr>s_rc := race_rc\<lparr>rc_running := False\<rparr>, s_s := S_Joining\<rparr>"
  let ?s4 = "?s3\<lparr>s_w := W_Exit\<rparr>"
  obtain rc5 d ff where fin: "rc_stop_finish (race_rc\<lparr>rc_running := False\<rparr>) = (rc5, d, ff)"
    by (metis prod_cases3)
  have none: "rc_ring rc5 = None" using rc_stop_finish_simps [OF fin] by simp
  let ?s5 = "?s4\<lparr>s_rc := rc5, s_s := S_Done, s_final := ff\<rparr>"
  let ?s6 = "?s5\<lparr>s_p := P_Idle, s_fault := True\<rparr>"
  have st1: "rec_step ?s0 ?s1"
    using rec_step.writer_pop [of ?s0 race_rc 0] race_pop_empty by (simp add: sys_init_def)
  have st2: "rec_step ?s1 ?s2"
    by (rule rec_step.push_guard) (simp_all add: sys_init_def race_rc_def)
  have st3: "rec_step ?s2 ?s3"
    using rec_step.stop_clear [of ?s2] by (simp add: sys_init_def race_rc_def)
  have st4: "rec_step ?s3 ?s4"
    using rec_step.writer_check [of ?s3] by (simp add: sys_init_def)
  have st5: "rec_step ?s4 ?s5"
    by (rule rec_step.stop_finish) (simp_all add: sys_init_def fin)
  have st6: "rec_step ?s5 ?s6"
    using rec_step.push_body [of ?s5 "[[1, 2]]" 1 2] none by (simp add: sys_init_def)
  have "rec_step\<^sup>*\<^sup>* ?s0 ?s6" using st1 st2 st3 st4 st5 st6 by (blast intro: steps_chain)
  then show ?thesis by (intro exI [of _ ?s6]) simp
qed



text \<open>
  C27. Safety of the release: from a state where the flag is clear, no push is between
  its check and its ring access, and nothing has faulted, no interleaving of the threads
  ever accesses a released ring. The fault of C27 needs a push in flight across
  \<^verbatim>\<open>mRunning.store(false)\<close>.
\<close>

theorem sys_quiet_no_fault:
  assumes "rec_step\<^sup>*\<^sup>* s s'" and "\<not> rc_running (s_rc s)" and "s_p s = P_Idle" and "\<not> s_fault s"
  shows "\<not> s_fault s'"
proof -
  have "sys_quiet s" using assms(2-4) by (simp add: sys_quiet_def)
  with assms(1) have "sys_quiet s'" by (induction rule: rtranclp_induct) (auto intro: sys_quiet_step)
  then show ?thesis by (simp add: sys_quiet_def)
qed

theorem sys_quiet_no_fault_witness:
  "let S = (sys_init race_rc)\<lparr>s_rc := race_rc\<lparr>rc_running := False\<rparr>, s_w := W_Check, s_s := S_Joining\<rparr>;
       S' = S\<lparr>s_w := W_Exit\<rparr>
   in rec_step\<^sup>*\<^sup>* S S' \<and> \<not> rc_running (s_rc S) \<and> s_p S = P_Idle \<and> \<not> s_fault S \<and> \<not> s_fault S'"
proof -
  define S where "S = (sys_init race_rc)\<lparr>s_rc := race_rc\<lparr>rc_running := False\<rparr>, s_w := W_Check, s_s := S_Joining\<rparr>"
  have st: "rec_step S (S\<lparr>s_w := W_Exit\<rparr>)"
    using rec_step.writer_check [of S] by (simp add: S_def sys_init_def)
  have h: "rec_step\<^sup>*\<^sup>* S (S\<lparr>s_w := W_Exit\<rparr>)" "\<not> rc_running (s_rc S)" "s_p S = P_Idle" "\<not> s_fault S"
    using st by (simp_all add: steps_chain S_def sys_init_def)
  show ?thesis
    unfolding Let_def S_def [symmetric] using h sys_quiet_no_fault [OF h] by blast
qed

text \<open>
  C28. Invariant of every interleaving from a started recorder: \<^verbatim>\<open>stop\<close> finishes only
  after the writer has exited (the join); after \<^verbatim>\<open>stop\<close> has begun the flag stays clear;
  the ring is released exactly when \<^verbatim>\<open>stop\<close> has finished; and a fault is only ever an
  access after that release.
\<close>

theorem sys_reach_inv:
  assumes "rec_step\<^sup>*\<^sup>* (sys_init rc) s" and "rc_ring rc \<noteq> None"
  shows "(s_s s = S_Done \<longrightarrow> s_w s = W_Exit) \<and> (s_s s \<noteq> S_Idle \<longrightarrow> \<not> rc_running (s_rc s)) \<and>
         (rc_ring (s_rc s) = None \<longleftrightarrow> s_s s = S_Done) \<and> (s_fault s \<longrightarrow> s_s s = S_Done)"
proof -
  have "sys_inv s"
    using assms(1) by (induction rule: rtranclp_induct) (auto intro: sys_inv_step sys_inv_init [OF assms(2)])
  then show ?thesis by (simp add: sys_inv_def)
qed

theorem sys_reach_inv_witness:
  "let S = (sys_init race_rc)\<lparr>s_rc := race_rc\<lparr>rc_running := False\<rparr>, s_s := S_Joining\<rparr>
   in rec_step\<^sup>*\<^sup>* (sys_init race_rc) S \<and> rc_ring race_rc \<noteq> None \<and>
      \<not> rc_running (s_rc S) \<and> rc_ring (s_rc S) \<noteq> None \<and> \<not> s_fault S"
proof -
  define S where "S = (sys_init race_rc)\<lparr>s_rc := race_rc\<lparr>rc_running := False\<rparr>, s_s := S_Joining\<rparr>"
  have r: "rc_running race_rc" "rc_ring race_rc \<noteq> None" by (simp_all add: race_rc_def)
  have st: "rec_step\<^sup>*\<^sup>* (sys_init race_rc) S"
    using rec_step.stop_clear [of "sys_init race_rc"] r by (simp add: S_def sys_init_def steps_chain)
  note i = sys_reach_inv [OF st r(2)]
  have "s_s S \<noteq> S_Idle" "s_s S \<noteq> S_Done" by (simp_all add: S_def)
  then show ?thesis
    unfolding Let_def S_def [symmetric] using st r i by blast
qed

end
