(* ===== verification/Spsc.thy ===== *)
theory Spsc
  imports Prelude
begin

text \<open>
  The template \<^verbatim>\<open>SPSCRingBuffer<T>\<close> of src/src/native/iplug/dsp/RingBuffer.h: a
  single-producer/single-consumer queue of single elements whose cursors are kept masked
  (\<^verbatim>\<open>(w + 1) & mMask\<close>), so that one slot stays free. The cursors are \<open>size_t\<close>
  words and the mask arithmetic is modelled bitwise. Proved: for power-of-two capacities up
  to the array size the class refines a FIFO queue of \<open>capacity - 1\<close> elements; for
  other capacities it misbehaves (findings).
\<close>

unbundle bit_operations_syntax

text \<open>
  \<^verbatim>\<open>mBuf[w & mMask]\<close> and \<^verbatim>\<open>mBuf[r & mMask]\<close> index a fixed array of \<open>1 << 12\<close>
  elements: an index beyond it is undefined behaviour of the C++ code, the error value here.
\<close>

datatype spsc_error = Buf_out_of_range

text \<open>The object: \<^verbatim>\<open>mCapacity\<close>, \<^verbatim>\<open>mMask\<close>, the atomic cursors \<^verbatim>\<open>mWrite\<close>, \<^verbatim>\<open>mRead\<close> and \<^verbatim>\<open>T mBuf[1<<12]\<close>.\<close>

record 'a spsc =
  sp_capacity :: size_t
  sp_mask :: size_t
  sp_write :: size_t
  sp_read :: size_t
  sp_buf :: "'a list"

definition spsc_buf_len :: nat where
  "spsc_buf_len = 2 ^ 12"

text \<open>The constructor: \<^verbatim>\<open>mMask(capacity-1)\<close> in \<^verbatim>\<open>size_t\<close> (so capacity 0 gives the all-ones mask), both cursors 0; the array's initial content is the parameter \<open>fill\<close>.\<close>

definition spsc_new :: "size_t \<Rightarrow> 'a \<Rightarrow> 'a spsc" where
  "spsc_new capacity fill =
     \<lparr>sp_capacity = capacity, sp_mask = capacity - 1, sp_write = 0, sp_read = 0,
      sp_buf = replicate spsc_buf_len fill\<rparr>"

text \<open>\<^verbatim>\<open>push\<close>: full when \<^verbatim>\<open>((w + 1) & mMask) == r\<close>; otherwise store at \<^verbatim>\<open>w & mMask\<close> and publish \<^verbatim>\<open>(w + 1) & mMask\<close>.\<close>

definition spsc_push :: "'a spsc \<Rightarrow> 'a \<Rightarrow> spsc_error + 'a spsc \<times> bool" where
  "spsc_push q v =
     (let w = sp_write q; r = sp_read q
      in if (w + 1) AND sp_mask q = r then Inr (q, False)
         else let i = unat (w AND sp_mask q)
              in if spsc_buf_len \<le> i then Inl Buf_out_of_range
                 else Inr (q\<lparr>sp_buf := (sp_buf q)[i := v], sp_write := (w + 1) AND sp_mask q\<rparr>, True))"

text \<open>\<^verbatim>\<open>pop\<close>: empty when \<^verbatim>\<open>r == w\<close> (\<^verbatim>\<open>out\<close> untouched: \<open>None\<close>); otherwise read \<^verbatim>\<open>mBuf[r & mMask]\<close> and publish \<^verbatim>\<open>(r + 1) & mMask\<close>.\<close>

definition spsc_pop :: "'a spsc \<Rightarrow> spsc_error + 'a spsc \<times> 'a option" where
  "spsc_pop q =
     (let r = sp_read q; w = sp_write q
      in if r = w then Inr (q, None)
         else let i = unat (r AND sp_mask q)
              in if spsc_buf_len \<le> i then Inl Buf_out_of_range
                 else Inr (q\<lparr>sp_read := (r + 1) AND sp_mask q\<rparr>, Some (sp_buf q ! i)))"



text \<open>
  The capacities for which the class works: powers of two that fit the array
  (\<open>2 \<le> capacity \<le> 4096\<close>), the invariant, and the abstraction to the queued elements:
  the \<open>(w - r) mod capacity\<close> slots from \<open>r\<close> on.
\<close>

definition spsc_pow2 :: "size_t \<Rightarrow> bool" where
  "spsc_pow2 c \<longleftrightarrow> c \<in> set (map (\<lambda>k. 2 ^ k) [1..<13])"

definition spsc_inv :: "'a spsc \<Rightarrow> bool" where
  "spsc_inv q \<longleftrightarrow> spsc_pow2 (sp_capacity q) \<and> sp_mask q = sp_capacity q - 1 \<and>
     sp_write q < sp_capacity q \<and> sp_read q < sp_capacity q \<and> length (sp_buf q) = spsc_buf_len"

definition spsc_count :: "'a spsc \<Rightarrow> nat" where
  "spsc_count q = (unat (sp_write q) + unat (sp_capacity q) - unat (sp_read q)) mod unat (sp_capacity q)"

definition spsc_abs :: "'a spsc \<Rightarrow> 'a list" where
  "spsc_abs q = map (\<lambda>i. sp_buf q ! ((unat (sp_read q) + i) mod unat (sp_capacity q))) [0..<spsc_count q]"

lemma unat_and_pow2_minus_1: "unat ((x::'a::len word) AND (2 ^ k - 1)) = unat x mod 2 ^ k"
proof -
  have "x AND (2 ^ k - 1) = take_bit k x" by (simp add: take_bit_eq_mask mask_eq_exp_minus_1)
  then have "unat (x AND (2 ^ k - 1)) = take_bit k (unat x)" by (simp only: unsigned_take_bit_eq)
  then show ?thesis by (simp only: take_bit_eq_mod)
qed

lemma unat_pow2_small: "k < 64 \<Longrightarrow> unat (2 ^ k :: 64 word) = 2 ^ k"
proof -
  assume k: "k < 64"
  have "(2 ^ k :: 64 word) \<noteq> 0" using k by (simp add: exp_eq_zero_iff)
  then have "uint (2 ^ k :: 64 word) = 2 ^ k" by (intro uint_2p) (simp add: word_neq_0_conv [symmetric])
  then have "int (unat (2 ^ k :: 64 word)) = int (2 ^ k)" by simp
  then show ?thesis by (simp only: of_nat_eq_iff)
qed


text \<open>Cursor arithmetic modulo the capacity.\<close>

lemma ring_count_eq:
  fixes w r c :: nat
  assumes "w < c" "r < c"
  shows "(w + c - r) mod c = (if r \<le> w then w - r else w + c - r)"
proof (cases "r \<le> w")
  case True
  then have "(w + c - r) mod c = ((w - r) + c) mod c" by (simp add: Nat.add_diff_assoc2)
  also have "\<dots> = w - r" using assms by simp
  finally show ?thesis using True by simp
next
  case False
  then show ?thesis using assms by simp
qed

lemma ring_suc_mod:
  fixes w c :: nat
  assumes "w < c"
  shows "(Suc w) mod c = (if Suc w = c then 0 else Suc w)"
  using assms by (simp add: mod_Suc)

lemma ring_add_mod:
  fixes r i c :: nat
  assumes "r < c" "i < c"
  shows "(r + i) mod c = (if r + i < c then r + i else r + i - c)"
proof (cases "r + i < c")
  case False
  then have "(r + i) mod c = ((r + i - c) + c) mod c" by simp
  also have "\<dots> = r + i - c" using assms by simp
  finally show ?thesis using False by simp
qed simp

lemmas ring_mod_simps = ring_count_eq ring_suc_mod ring_add_mod

lemma ring_full_iff:
  fixes w r c :: nat
  assumes "w < c" "r < c"
  shows "(Suc w) mod c = r \<longleftrightarrow> (w + c - r) mod c = c - 1"
  using assms by (auto simp: ring_mod_simps)

lemma ring_count_suc:
  fixes w r c :: nat
  assumes "w < c" "r < c" "(Suc w) mod c \<noteq> r"
  shows "((Suc w) mod c + c - r) mod c = Suc ((w + c - r) mod c)"
  using assms by (auto simp: ring_mod_simps)

lemma ring_index_last:
  fixes w r c :: nat
  assumes "w < c" "r < c"
  shows "(r + (w + c - r) mod c) mod c = w"
  using assms by (auto simp: ring_mod_simps)

lemma ring_index_before:
  fixes w r c i :: nat
  assumes "w < c" "r < c" "i < (w + c - r) mod c"
  shows "(r + i) mod c \<noteq> w"
proof -
  have c: "0 < c" using assms(1) by simp
  have "i < c" using assms(3) mod_less_divisor [OF c, of "w + c - r"] by linarith
  then have "(r + i) mod c = (if r + i < c then r + i else r + i - c)" by (rule ring_add_mod [OF assms(2)])
  moreover have "i < (if r \<le> w then w - r else w + c - r)" using assms by (simp add: ring_count_eq)
  ultimately show ?thesis using assms(1,2) by (auto split: if_splits)
qed

lemma ring_count_zero:
  fixes w r c :: nat
  assumes "w < c" "r < c"
  shows "(w + c - r) mod c = 0 \<longleftrightarrow> w = r"
  using assms by (auto simp: ring_mod_simps)

lemma ring_count_pred:
  fixes w r c :: nat
  assumes "w < c" "r < c" "w \<noteq> r"
  shows "(w + c - (Suc r) mod c) mod c = (w + c - r) mod c - 1"
  using assms by (auto simp: ring_mod_simps)

lemma ring_index_shift:
  fixes r i c :: nat
  assumes "0 < c"
  shows "((Suc r) mod c + i) mod c = (r + Suc i) mod c"
  by (simp add: mod_add_left_eq)

lemma spsc_inv_facts:
  assumes "spsc_inv q"
  shows "2 \<le> unat (sp_capacity q)" "unat (sp_capacity q) \<le> spsc_buf_len"
    "\<And>x. unat (x AND sp_mask q) = unat x mod unat (sp_capacity q)"
    "unat (sp_write q) < unat (sp_capacity q)" "unat (sp_read q) < unat (sp_capacity q)"
    "length (sp_buf q) = spsc_buf_len"
proof -
  obtain k where k: "1 \<le> k" "k \<le> 12" and cap: "sp_capacity q = 2 ^ k"
    using assms by (auto simp: spsc_inv_def spsc_pow2_def)
  have u: "unat (sp_capacity q) = 2 ^ k" using k by (simp add: cap unat_pow2_small)
  show "2 \<le> unat (sp_capacity q)" using k power_increasing [of 1 k "2::nat"] by (simp add: u)
  show "unat (sp_capacity q) \<le> spsc_buf_len" using k power_increasing [of k 12 "2::nat"] by (simp add: u spsc_buf_len_def)
  show "unat (x AND sp_mask q) = unat x mod unat (sp_capacity q)" for x
    using assms k by (simp add: spsc_inv_def cap unat_pow2_small unat_and_pow2_minus_1)
  show "unat (sp_write q) < unat (sp_capacity q)" "unat (sp_read q) < unat (sp_capacity q)"
    using assms by (simp_all add: spsc_inv_def word_less_nat_alt)
  show "length (sp_buf q) = spsc_buf_len" using assms by (simp add: spsc_inv_def)
qed

lemma spsc_suc_cursor:
  assumes "spsc_inv q" and "unat x < unat (sp_capacity q)"
  shows "unat ((x + 1) AND sp_mask q) = Suc (unat x) mod unat (sp_capacity q)"
proof -
  have "unat x + 1 < 2 ^ LENGTH(64)" using assms(2) spsc_inv_facts(2) [OF assms(1)] by (simp add: spsc_buf_len_def)
  then have "unat (x + 1) = Suc (unat x)" by (simp add: unat_add_lem [THEN iffD1])
  then show ?thesis by (simp add: spsc_inv_facts(3) [OF assms(1)])
qed

lemma length_spsc_abs [simp]: "length (spsc_abs q) = spsc_count q"
  by (simp add: spsc_abs_def)

text \<open>
  C29. Refinement of \<^verbatim>\<open>push\<close>: on a ring whose capacity is a power of two that fits
  the array, \<^verbatim>\<open>push\<close> never indexes outside the array, keeps the invariant, succeeds
  exactly when fewer than \<open>capacity - 1\<close> elements are queued, and then appends the
  element to the queue; when it fails the queue is unchanged.
\<close>

theorem spsc_push_refines:
  assumes inv: "spsc_inv q"
  shows "\<exists>q' ok. spsc_push q v = Inr (q', ok) \<and> spsc_inv q' \<and>
           (ok \<longleftrightarrow> length (spsc_abs q) < unat (sp_capacity q) - 1) \<and>
           spsc_abs q' = (if ok then spsc_abs q @ [v] else spsc_abs q)"
proof -
  let ?c = "unat (sp_capacity q)" and ?w = "unat (sp_write q)" and ?r = "unat (sp_read q)"
  note f = spsc_inv_facts [OF inv]
  have n: "spsc_count q = (?w + ?c - ?r) mod ?c" by (simp add: spsc_count_def)
  have nlt: "spsc_count q < ?c" using f(1) by (simp add: n)
  have eq: "((sp_write q + 1) AND sp_mask q = sp_read q) \<longleftrightarrow> Suc ?w mod ?c = ?r"
    by (simp add: word_unat_eq_iff spsc_suc_cursor [OF inv f(4)])
  show ?thesis
  proof (cases "Suc ?w mod ?c = ?r")
    case True
    then have "spsc_count q = ?c - 1" using ring_full_iff [OF f(4,5)] n by simp
    then show ?thesis using eq True by (intro exI [of _ q] exI [of _ False]) (simp add: spsc_push_def Let_def inv)
  next
    case False
    let ?q' = "q\<lparr>sp_buf := (sp_buf q)[?w := v], sp_write := (sp_write q + 1) AND sp_mask q\<rparr>"
    have i: "unat (sp_write q AND sp_mask q) = ?w" using f(3,4) by simp
    have wl: "?w < spsc_buf_len" using f(2,4) by simp
    have push: "spsc_push q v = Inr (?q', True)"
      using eq False i wl by (simp add: spsc_push_def Let_def)
    have w': "unat (sp_write ?q') = Suc ?w mod ?c" by (simp add: spsc_suc_cursor [OF inv f(4)])
    have inv': "spsc_inv ?q'"
      using inv w' f(1) by (simp add: spsc_inv_def word_less_nat_alt)
    have cnt: "spsc_count ?q' = Suc (spsc_count q)"
      using ring_count_suc [OF f(4,5) False] w' n by (simp add: spsc_count_def)
    have lt: "spsc_count q < ?c - 1" using ring_full_iff [OF f(4,5)] False nlt n by simp
    have idx: "(?r + i) mod ?c < length (sp_buf q)" for i using f(1,2,6) mod_less_divisor [of ?c "?r + i"] by linarith
    have "spsc_abs ?q' = spsc_abs q @ [v]"
    proof (rule nth_equalityI)
      show "length (spsc_abs ?q') = length (spsc_abs q @ [v])" by (simp add: cnt)
    next
      fix i assume "i < length (spsc_abs ?q')"
      then have i: "i < Suc (spsc_count q)" by (simp add: cnt)
      show "spsc_abs ?q' ! i = (spsc_abs q @ [v]) ! i"
      proof (cases "i < spsc_count q")
        case True
        then have "(?r + i) mod ?c \<noteq> ?w" using ring_index_before [OF f(4,5)] n by simp
        then show ?thesis using True idx by (simp add: spsc_abs_def cnt nth_append)
      next
        case False
        then have "i = spsc_count q" using i by simp
        moreover have "(?r + spsc_count q) mod ?c = ?w" using ring_index_last [OF f(4,5)] n by simp
        ultimately show ?thesis using wl f(6) by (simp add: spsc_abs_def cnt nth_append)
      qed
    qed
    then show ?thesis using push inv' lt by (intro exI [of _ ?q'] exI [of _ True]) simp
  qed
qed

text \<open>
  C30. Refinement of \<^verbatim>\<open>pop\<close>: on such a ring \<^verbatim>\<open>pop\<close> never indexes outside the
  array, keeps the invariant, returns the oldest queued element (nothing when the queue
  is empty) and removes it.
\<close>

theorem spsc_pop_refines:
  assumes inv: "spsc_inv q"
  shows "\<exists>q' out. spsc_pop q = Inr (q', out) \<and> spsc_inv q' \<and>
           out = (case spsc_abs q of [] \<Rightarrow> None | x # _ \<Rightarrow> Some x) \<and>
           spsc_abs q' = tl (spsc_abs q)"
proof -
  let ?c = "unat (sp_capacity q)" and ?w = "unat (sp_write q)" and ?r = "unat (sp_read q)"
  note f = spsc_inv_facts [OF inv]
  have n: "spsc_count q = (?w + ?c - ?r) mod ?c" by (simp add: spsc_count_def)
  show ?thesis
  proof (cases "sp_read q = sp_write q")
    case True
    then have "spsc_count q = 0" using ring_count_zero [OF f(4,5)] n by simp
    then have "spsc_abs q = []" by (simp add: spsc_abs_def)
    then show ?thesis using True inv by (simp add: spsc_pop_def)
  next
    case False
    then have ne: "?w \<noteq> ?r" by (simp add: word_unat_eq_iff)
    let ?q' = "q\<lparr>sp_read := (sp_read q + 1) AND sp_mask q\<rparr>"
    have i: "unat (sp_read q AND sp_mask q) = ?r" using f(3,5) by simp
    have rl: "?r < spsc_buf_len" using f(2,5) by simp
    have pop: "spsc_pop q = Inr (?q', Some (sp_buf q ! ?r))"
      using False i rl by (simp add: spsc_pop_def Let_def)
    have r': "unat (sp_read ?q') = Suc ?r mod ?c" by (simp add: spsc_suc_cursor [OF inv f(5)])
    have inv': "spsc_inv ?q'"
      using inv r' f(1) by (simp add: spsc_inv_def word_less_nat_alt)
    have pos: "0 < spsc_count q" using ring_count_zero [OF f(4,5)] ne n by simp
    have cnt: "spsc_count ?q' = spsc_count q - 1"
      using ring_count_pred [OF f(4,5) ne] r' n by (simp add: spsc_count_def)
    have hd: "spsc_abs q = sp_buf q ! ?r # tl (spsc_abs q)"
      using pos f(5) by (cases "spsc_abs q") (auto simp: spsc_abs_def upt_conv_Cons)
    have "spsc_abs ?q' = tl (spsc_abs q)"
    proof (rule nth_equalityI)
      show "length (spsc_abs ?q') = length (tl (spsc_abs q))" by (simp add: cnt)
    next
      fix j assume "j < length (spsc_abs ?q')"
      then have j: "Suc j < spsc_count q" by (simp add: cnt)
      have sh: "((Suc ?r) mod ?c + j) mod ?c = (?r + Suc j) mod ?c" using f(1) by (simp add: ring_index_shift)
      have j': "j < spsc_count q - 1" using j by simp
      have r'': "unat ((sp_read q + 1) AND sp_mask q) = Suc ?r mod ?c" by (rule spsc_suc_cursor [OF inv f(5)])
      show "spsc_abs ?q' ! j = tl (spsc_abs q) ! j"
        using j j' sh by (simp add: spsc_abs_def cnt nth_tl r'')
    qed
    moreover have "(case spsc_abs q of [] \<Rightarrow> None | x # _ \<Rightarrow> Some x) = Some (sp_buf q ! ?r)"
      by (subst hd) simp
    ultimately show ?thesis using pop inv'
      by (intro exI [of _ ?q'] exI [of _ "Some (sp_buf q ! ?r)"]) simp
  qed
qed

text \<open>The constructor with a power-of-two capacity that fits the array gives an empty queue satisfying the invariant.\<close>

theorem spsc_new_empty:
  assumes "spsc_pow2 capacity"
  shows "spsc_inv (spsc_new capacity fill) \<and> spsc_abs (spsc_new capacity fill) = []"
proof -
  obtain k where k: "1 \<le> k" "k < 13" and cap: "capacity = 2 ^ k"
    using assms by (auto simp: spsc_pow2_def)
  have "(0 :: size_t) < 2 ^ k" using k by (simp add: word_less_nat_alt unat_pow2_small)
  then show ?thesis using assms by (simp add: spsc_inv_def spsc_new_def spsc_abs_def spsc_count_def cap)
qed






lemma spsc_new4:
  "spsc_pow2 (4::size_t)" "spsc_inv (spsc_new 4 (0::int))" "spsc_abs (spsc_new 4 (0::int)) = []"
  "sp_capacity (spsc_new 4 (0::int)) = 4"
  by (simp_all add: spsc_inv_def spsc_new_def spsc_pow2_def spsc_abs_def spsc_count_def upt_rec)

theorem spsc_push_refines_witness:
  "spsc_inv (spsc_new 4 (0::int)) \<and>
   (\<exists>q' ok. spsc_push (spsc_new 4 (0::int)) 7 = Inr (q', ok) \<and> spsc_inv q' \<and> ok \<and> spsc_abs q' = [7])"
proof -
  obtain q' ok where r: "spsc_push (spsc_new 4 (0::int)) 7 = Inr (q', ok)" "spsc_inv q'"
      "ok \<longleftrightarrow> length (spsc_abs (spsc_new 4 (0::int))) < unat (sp_capacity (spsc_new 4 (0::int))) - 1"
      "spsc_abs q' = (if ok then spsc_abs (spsc_new 4 (0::int)) @ [7] else spsc_abs (spsc_new 4 (0::int)))"
    using spsc_push_refines [OF spsc_new4(2), of 7] by blast
  have ok: "ok" using r(3) by (simp add: spsc_new4)
  show ?thesis using r ok spsc_new4 by auto
qed

theorem spsc_pop_refines_witness:
  "let Q = (spsc_new 4 (0::int))\<lparr>sp_write := 1, sp_buf := (replicate spsc_buf_len 0)[0 := 7]\<rparr>
   in spsc_inv Q \<and> spsc_abs Q = [7] \<and>
      (\<exists>q' out. spsc_pop Q = Inr (q', out) \<and> spsc_inv q' \<and> out = Some 7 \<and> spsc_abs q' = [])"
proof -
  define Q where "Q = (spsc_new 4 (0::int))\<lparr>sp_write := 1, sp_buf := (replicate spsc_buf_len 0)[0 := 7]\<rparr>"
  have i: "spsc_inv Q" by (simp add: Q_def spsc_inv_def spsc_new_def spsc_pow2_def upt_rec)
  have a: "spsc_abs Q = [7]" by (simp add: Q_def spsc_abs_def spsc_count_def spsc_new_def spsc_buf_len_def)
  show ?thesis unfolding Let_def Q_def [symmetric] using spsc_pop_refines [OF i] i a by simp
qed

theorem spsc_new_empty_witness:
  "spsc_pow2 (4::size_t) \<and> spsc_inv (spsc_new 4 (0::int)) \<and> spsc_abs (spsc_new 4 (0::int)) = []"
  using spsc_new_empty [OF spsc_new4(1), of "0::int"] spsc_new4(1) by simp

end
