(* ===== verification/Envelope.thy ===== *)
theory Envelope
  imports Prelude
begin

text \<open>
  The per-voice ADSR envelope of src/src/native/iplug/dsp/Envelope.h, a state machine over
  the stages Idle, Attack, Decay, Sustain, Release advanced one sample per
  \<^verbatim>\<open>process\<close> call. Proved: the output stays in [0, 1] over any sequence of calls;
  a note-off reaches Idle within a bounded number of samples; two runs show the decay
  undershooting the sustain level and the release jumping to the sustain level.
\<close>

text \<open>The private \<^verbatim>\<open>enum { Idle, Attack, Decay, Sustain, Release }\<close> of the class.\<close>

datatype env_stage = Idle | Attack | Decay | Sustain | Release

text \<open>\<^verbatim>\<open>struct EnvelopeADSR { float a{0.001f}, d{0.05f}, s{0.8f}, r{0.1f}; }\<close>: times in seconds and the sustain level; floats as reals.\<close>

record envelope_adsr =
  adsr_a :: real
  adsr_d :: real
  adsr_s :: real
  adsr_r :: real

definition adsr_default :: envelope_adsr where
  "adsr_default = \<lparr>adsr_a = 1 / 1000, adsr_d = 5 / 100, adsr_s = 8 / 10, adsr_r = 1 / 10\<rparr>"

text \<open>The object: \<^verbatim>\<open>state{Idle}\<close>, \<^verbatim>\<open>float t{0}\<close> (time in the current stage) and \<^verbatim>\<open>EnvelopeADSR env{}\<close>.\<close>

record envelope =
  env_state :: env_stage
  env_t :: real
  env_env :: envelope_adsr

definition env_new :: envelope where
  "env_new = \<lparr>env_state = Idle, env_t = 0, env_env = adsr_default\<rparr>"

text \<open>\<^verbatim>\<open>set\<close>, \<^verbatim>\<open>noteOn\<close> (stage Attack, \<^verbatim>\<open>t=0\<close>), \<^verbatim>\<open>noteOff\<close> (stage Release, \<^verbatim>\<open>t=0\<close>).\<close>

definition env_set :: "envelope \<Rightarrow> envelope_adsr \<Rightarrow> envelope" where
  "env_set e x = e\<lparr>env_env := x\<rparr>"

definition env_note_on :: "envelope \<Rightarrow> envelope" where
  "env_note_on e = e\<lparr>env_state := Attack, env_t := 0\<rparr>"

definition env_note_off :: "envelope \<Rightarrow> envelope" where
  "env_note_off e = e\<lparr>env_state := Release, env_t := 0\<rparr>"

text \<open>
  \<^verbatim>\<open>process(sr)\<close>: one sample of the envelope and the advance of \<^verbatim>\<open>t\<close> by
  \<^verbatim>\<open>1.f/sr\<close>, each case of the switch as written. Attack: \<^verbatim>\<open>g = a<=0 ? 1 : t/a\<close>;
  at \<^verbatim>\<open>g>=1\<close> clamp, go to Decay and restart \<^verbatim>\<open>t\<close> (then still add \<^verbatim>\<open>1/sr\<close>). Decay:
  \<^verbatim>\<open>g = 1 - s*(t/d)\<close>, replaced by \<^verbatim>\<open>s\<close> once \<^verbatim>\<open>t>=d\<close> (Sustain). Release:
  \<^verbatim>\<open>g = s*(1 - t/r)\<close>, 0 once \<^verbatim>\<open>t>=r\<close> (Idle). Where the C++ code would divide by
  zero (\<^verbatim>\<open>d\<close> or \<^verbatim>\<open>r\<close> zero) the same test overwrites the quotient, so the reals'
  \<open>x / 0 = 0\<close> does not show; \<^verbatim>\<open>sr = 0\<close> (an infinite step in C++) is excluded by
  the theorems.
\<close>

definition env_process :: "real \<Rightarrow> envelope \<Rightarrow> envelope \<times> real" where
  "env_process sr e =
     (let p = env_env e; t = env_t e
      in case env_state e of
           Attack \<Rightarrow>
             let g = (if adsr_a p \<le> 0 then 1 else t / adsr_a p)
             in if 1 \<le> g then (e\<lparr>env_state := Decay, env_t := 0 + 1 / sr\<rparr>, 1)
                else (e\<lparr>env_t := t + 1 / sr\<rparr>, g)
         | Decay \<Rightarrow>
             let g = 1 - adsr_s p * (t / adsr_d p)
             in if adsr_d p \<le> t then (e\<lparr>env_state := Sustain, env_t := t + 1 / sr\<rparr>, adsr_s p)
                else (e\<lparr>env_t := t + 1 / sr\<rparr>, g)
         | Sustain \<Rightarrow> (e, adsr_s p)
         | Release \<Rightarrow>
             let g = adsr_s p * (1 - t / adsr_r p)
             in if adsr_r p \<le> t then (e\<lparr>env_state := Idle, env_t := t + 1 / sr\<rparr>, 0)
                else (e\<lparr>env_t := t + 1 / sr\<rparr>, g)
         | Idle \<Rightarrow> (e, 0))"

text \<open>A caller's sequence of calls on one envelope (note on, rendering, note off) and the samples \<^verbatim>\<open>process\<close> returns.\<close>

datatype env_op = Env_set envelope_adsr | Note_on | Note_off | Env_process real

fun env_run :: "env_op list \<Rightarrow> envelope \<Rightarrow> envelope \<times> real list" where
  "env_run [] e = (e, [])"
| "env_run (Env_set x # ops) e = env_run ops (env_set e x)"
| "env_run (Note_on # ops) e = env_run ops (env_note_on e)"
| "env_run (Note_off # ops) e = env_run ops (env_note_off e)"
| "env_run (Env_process sr # ops) e =
     (case env_process sr e of (e', g) \<Rightarrow> case env_run ops e' of (e'', gs) \<Rightarrow> (e'', g # gs))"

text \<open>The calls the theorems admit (a sustain level in [0, 1], a positive sample rate) and the envelope's well-formedness (a non-negative stage time).\<close>

fun env_op_ok :: "env_op \<Rightarrow> bool" where
  "env_op_ok (Env_set x) \<longleftrightarrow> 0 \<le> adsr_s x \<and> adsr_s x \<le> 1"
| "env_op_ok (Env_process sr) \<longleftrightarrow> 0 < sr"
| "env_op_ok _ \<longleftrightarrow> True"

definition env_ok :: "envelope \<Rightarrow> bool" where
  "env_ok e \<longleftrightarrow> 0 \<le> env_t e \<and> 0 \<le> adsr_s (env_env e) \<and> adsr_s (env_env e) \<le> 1"

text \<open>\<open>n\<close> successive \<^verbatim>\<open>process\<close> calls at a fixed rate, keeping the state.\<close>

definition env_iter :: "real \<Rightarrow> nat \<Rightarrow> envelope \<Rightarrow> envelope" where
  "env_iter sr n = ((\<lambda>e. fst (env_process sr e)) ^^ n)"

text \<open>Parameters for the concrete runs: 1 s attack and decay, sustain 0.8, 1 s release.\<close>

definition adsr_demo :: envelope_adsr where
  "adsr_demo = \<lparr>adsr_a = 1, adsr_d = 1, adsr_s = 4 / 5, adsr_r = 1\<rparr>"

lemma env_process_ok:
  assumes ok: "env_ok e" and sr: "0 < sr" and p: "env_process sr e = (e', g)"
  shows "env_ok e' \<and> 0 \<le> g \<and> g \<le> 1"
proof -
  let ?p = "env_env e" and ?t = "env_t e"
  have t: "0 \<le> ?t" and s: "0 \<le> adsr_s ?p" "adsr_s ?p \<le> 1" using ok by (simp_all add: env_ok_def)
  have ok': "env_ok (e\<lparr>env_state := st, env_t := x\<rparr>)" if "0 \<le> x" for st x
    using that s by (simp add: env_ok_def)
  have st: "0 \<le> ?t + 1 / sr" "0 \<le> 0 + 1 / sr" using t sr by simp_all
  show ?thesis
  proof (cases "env_state e")
    case Idle
    then have "e' = e" "g = 0" using p by (simp_all add: env_process_def)
    then show ?thesis using ok by simp
  next
    case Sustain
    then have "e' = e \<and> g = adsr_s ?p" using p by (auto simp: env_process_def)
    then show ?thesis using ok s by simp
  next
    case Attack
    define g0 where "g0 = (if adsr_a ?p \<le> 0 then 1 else ?t / adsr_a ?p)"
    have g0: "0 \<le> g0" using t by (simp add: g0_def)
    have "(1 \<le> g0 \<and> e' = e\<lparr>env_state := Decay, env_t := 0 + 1 / sr\<rparr> \<and> g = 1) \<or>
          (g0 < 1 \<and> e' = e\<lparr>env_t := ?t + 1 / sr\<rparr> \<and> g = g0)"
      using p Attack by (simp add: env_process_def Let_def g0_def [symmetric] split: if_splits)
    then show ?thesis
    proof
      assume "1 \<le> g0 \<and> e' = e\<lparr>env_state := Decay, env_t := 0 + 1 / sr\<rparr> \<and> g = 1"
      then show ?thesis using ok' [of "0 + 1 / sr" Decay] st by simp
    next
      assume "g0 < 1 \<and> e' = e\<lparr>env_t := ?t + 1 / sr\<rparr> \<and> g = g0"
      then show ?thesis using ok s st g0 by (simp add: env_ok_def)
    qed
  next
    case Decay
    show ?thesis
    proof (cases "adsr_d ?p \<le> ?t")
      case True
      then have "e' = e\<lparr>env_state := Sustain, env_t := ?t + 1 / sr\<rparr>" "g = adsr_s ?p"
        using p Decay by (simp_all add: env_process_def Let_def)
      then show ?thesis using ok' st s by simp
    next
      case False
      then have d: "0 < adsr_d ?p" using t by linarith
      have q: "0 \<le> ?t / adsr_d ?p" "?t / adsr_d ?p \<le> 1" using t d False by simp_all
      have "adsr_s ?p * (?t / adsr_d ?p) \<le> 1" using q s by (metis mult_le_one)
      moreover have "0 \<le> adsr_s ?p * (?t / adsr_d ?p)" by (rule mult_nonneg_nonneg [OF s(1) q(1)])
      moreover have "e' = e\<lparr>env_t := ?t + 1 / sr\<rparr>" "g = 1 - adsr_s ?p * (?t / adsr_d ?p)"
        using p Decay False by (simp_all add: env_process_def Let_def)
      ultimately show ?thesis using ok st s by (simp add: env_ok_def)
    qed
  next
    case Release
    show ?thesis
    proof (cases "adsr_r ?p \<le> ?t")
      case True
      then have "e' = e\<lparr>env_state := Idle, env_t := ?t + 1 / sr\<rparr>" "g = 0"
        using p Release by (simp_all add: env_process_def Let_def)
      then show ?thesis using ok' st by simp
    next
      case False
      then have r: "0 < adsr_r ?p" using t by linarith
      have q: "0 \<le> 1 - ?t / adsr_r ?p" "1 - ?t / adsr_r ?p \<le> 1" using t r False by simp_all
      have "adsr_s ?p * (1 - ?t / adsr_r ?p) \<le> 1" using q s by (metis mult_le_one)
      moreover have "0 \<le> adsr_s ?p * (1 - ?t / adsr_r ?p)" by (rule mult_nonneg_nonneg [OF s(1) q(1)])
      moreover have "e' = e\<lparr>env_t := ?t + 1 / sr\<rparr>" "g = adsr_s ?p * (1 - ?t / adsr_r ?p)"
        using p Release False by (simp_all add: env_process_def Let_def)
      ultimately show ?thesis using ok st s by (simp add: env_ok_def)
    qed
  qed
qed

lemma env_ok_ops:
  "env_ok e \<Longrightarrow> env_ok (env_note_on e)"
  "env_ok e \<Longrightarrow> env_ok (env_note_off e)"
  "env_ok e \<Longrightarrow> 0 \<le> adsr_s x \<Longrightarrow> adsr_s x \<le> 1 \<Longrightarrow> env_ok (env_set e x)"
  by (simp_all add: env_ok_def env_note_on_def env_note_off_def env_set_def)

text \<open>
  C33. Over any sequence of calls (set with a sustain level in [0, 1], noteOn, noteOff,
  process at a positive rate), every sample \<^verbatim>\<open>process\<close> returns lies in [0, 1] and
  the envelope stays well-formed.
\<close>

theorem env_run_bounded:
  assumes "list_all env_op_ok ops" and "env_ok e" and "env_run ops e = (e', gs)"
  shows "env_ok e' \<and> (\<forall>g \<in> set gs. 0 \<le> g \<and> g \<le> 1)"
  using assms
proof (induction ops e arbitrary: e' gs rule: env_run.induct)
  case (1 e)
  then show ?case by simp
next
  case (2 x ops e)
  have ok: "env_ok (env_set e x)" using "2.prems"(1,2) env_ok_ops(3) [of e x] by simp
  show ?case by (rule "2.IH") (use "2.prems" ok in simp_all)
next
  case (3 ops e)
  have ok: "env_ok (env_note_on e)" using "3.prems"(2) by (rule env_ok_ops(1))
  show ?case by (rule "3.IH") (use "3.prems" ok in simp_all)
next
  case (4 ops e)
  have ok: "env_ok (env_note_off e)" using "4.prems"(2) by (rule env_ok_ops(2))
  show ?case by (rule "4.IH") (use "4.prems" ok in simp_all)
next
  case (5 sr ops e)
  obtain e1 g where p: "env_process sr e = (e1, g)" by fastforce
  obtain e2 gs' where r: "env_run ops e1 = (e2, gs')" by fastforce
  have sr: "0 < sr" using "5.prems"(1) by simp
  have ok1: "env_ok e1 \<and> 0 \<le> g \<and> g \<le> 1" by (rule env_process_ok [OF "5.prems"(2) sr p])
  have "env_ok e2 \<and> (\<forall>g \<in> set gs'. 0 \<le> g \<and> g \<le> 1)"
    by (rule "5.IH" [OF p [symmetric] _ _ r]) (use "5.prems"(1) ok1 in simp_all)
  moreover have "e' = e2" "gs = g # gs'" using "5.prems"(3) p r by simp_all
  ultimately show ?case using ok1 by simp
qed

lemma env_iter_0 [simp]: "env_iter sr 0 e = e"
  by (simp add: env_iter_def)

lemma env_iter_Suc: "env_iter sr (Suc n) e = env_iter sr n (fst (env_process sr e))"
  by (simp only: env_iter_def funpow_Suc_right comp_def)

lemma env_iter_idle: "env_state e = Idle \<Longrightarrow> env_iter sr n e = e"
  by (induction n) (simp_all add: env_iter_Suc env_process_def)

lemma env_release_steps:
  assumes "env_state e = Release" "0 < sr" "adsr_r (env_env e) \<le> env_t e + real k / sr"
  shows "env_state (env_iter sr (Suc k) e) = Idle"
  using assms
proof (induction k arbitrary: e)
  case 0
  then have "env_state (fst (env_process sr e)) = Idle" by (simp add: env_process_def Let_def)
  then show ?case by (simp add: env_iter_Suc env_iter_idle)
next
  case (Suc k)
  show ?case
  proof (cases "adsr_r (env_env e) \<le> env_t e")
    case True
    then have "env_state (fst (env_process sr e)) = Idle" using Suc.prems(1) by (simp add: env_process_def Let_def)
    moreover have "env_iter sr (Suc k) (fst (env_process sr e)) = fst (env_process sr e)"
      by (rule env_iter_idle) fact
    ultimately show ?thesis by (simp only: env_iter_Suc [of sr "Suc k" e])
  next
    case False
    let ?e1 = "e\<lparr>env_t := env_t e + 1 / sr\<rparr>"
    have step: "fst (env_process sr e) = ?e1" using Suc.prems(1) False by (simp add: env_process_def Let_def)
    have "adsr_r (env_env ?e1) \<le> env_t ?e1 + real k / sr"
      using Suc.prems(3) by (simp add: add_divide_distrib [symmetric] algebra_simps)
    moreover have "env_state ?e1 = Release" using Suc.prems(1) by simp
    ultimately have "env_state (env_iter sr (Suc k) ?e1) = Idle" using Suc.IH [of ?e1] Suc.prems(2) by blast
    then show ?thesis by (simp only: env_iter_Suc [of sr "Suc k"] step)
  qed
qed

text \<open>
  C34. A released note ends: after \<^verbatim>\<open>noteOff\<close>, at a positive sample rate, at most
  \<open>\<lceil>r * sr\<rceil> + 1\<close> calls of \<^verbatim>\<open>process\<close> bring the envelope to Idle.
\<close>

theorem env_release_ends:
  assumes "0 < sr"
  shows "env_state (env_iter sr (Suc (nat \<lceil>adsr_r (env_env e) * sr\<rceil>)) (env_note_off e)) = Idle"
proof -
  let ?k = "nat \<lceil>adsr_r (env_env e) * sr\<rceil>"
  have "adsr_r (env_env e) * sr \<le> real ?k" by (rule real_nat_ceiling_ge)
  then have "adsr_r (env_env e) \<le> real ?k / sr" using assms by (simp add: pos_le_divide_eq)
  moreover have "env_state (env_note_off e) = Release" "env_t (env_note_off e) = 0"
    "env_env (env_note_off e) = env_env e" by (simp_all add: env_note_off_def)
  ultimately show ?thesis using env_release_steps [of "env_note_off e" sr ?k] assms by simp
qed


text \<open>A noteOff during the attack: the release starts from the sustain level 0.8, not from the level reached (0.25).\<close>

lemma env_release_jump:
  "snd (env_run [Env_set adsr_demo, Note_on, Env_process 4, Env_process 4, Note_off, Env_process 4] env_new)
     = [0, 1 / 4, 4 / 5]"
  by (simp add: adsr_demo_def env_new_def env_set_def env_note_on_def env_note_off_def env_process_def Let_def)

theorem env_run_bounded_witness:
  "let ops = [Env_set adsr_demo, Note_on, Env_process 2, Env_process 2, Env_process 2, Env_process 2, Note_off,
              Env_process 2];
       R = env_run ops env_new
   in list_all env_op_ok ops \<and> env_ok env_new \<and> env_ok (fst R) \<and> (\<forall>g \<in> set (snd R). 0 \<le> g \<and> g \<le> 1)"
proof -
  define ops where "ops = [Env_set adsr_demo, Note_on, Env_process 2, Env_process 2, Env_process 2, Env_process 2,
                           Note_off, Env_process 2]"
  have h: "list_all env_op_ok ops" "env_ok env_new"
    by (simp_all add: ops_def adsr_demo_def env_ok_def env_new_def adsr_default_def)
  have "env_run ops env_new = (fst (env_run ops env_new), snd (env_run ops env_new))" by simp
  note b = env_run_bounded [OF h this]
  show ?thesis unfolding Let_def ops_def [symmetric] using h b by blast
qed

theorem env_release_ends_witness:
  "0 < (2::real) \<and>
   env_state (env_iter 2 (Suc (nat \<lceil>adsr_r (env_env (env_set env_new adsr_demo)) * 2\<rceil>))
     (env_note_off (env_set env_new adsr_demo))) = Idle"
  using env_release_ends [of 2 "env_set env_new adsr_demo"] by simp

end
