(* ===== verification/PlayerDsp.thy ===== *)
theory PlayerDsp
  imports Envelope
begin

text \<open>
  The player skeleton of src/src/native/iplug/dsp/PlayerDSP.h/.cpp: a pool of 32 voices
  (each with its own \<open>envelope\<close>) and a render call that, as written so far, only
  silences the host's buffers. Proved: the nested loop of \<^verbatim>\<open>process\<close> is a
  \<^verbatim>\<open>memset\<close> of the first \<^verbatim>\<open>nFrames\<close> samples of each of the first \<^verbatim>\<open>nChans\<close>
  planes.
\<close>

text \<open>\<^verbatim>\<open>struct Voice { std::string id; int clipIndex{-1}; int64_t pos{0}; Envelope env; bool active{false}; }\<close>\<close>

record voice =
  v_id :: string
  v_clip_index :: int
  v_pos :: int
  v_env :: envelope
  v_active :: bool

definition voice_default :: voice where
  "voice_default = \<lparr>v_id = [], v_clip_index = -1, v_pos = 0, v_env = env_new, v_active = False\<rparr>"

text \<open>The object: \<^verbatim>\<open>double mSR{48000.0}\<close> and the voice pool \<^verbatim>\<open>std::vector<Voice> mVoices\<close>.\<close>

record player_dsp =
  pd_sr :: real
  pd_voices :: "voice list"

text \<open>The constructor: \<^verbatim>\<open>mVoices.resize(32)\<close> fills the empty pool with 32 default voices.\<close>

definition pd_new :: player_dsp where
  "pd_new = \<lparr>pd_sr = 48000, pd_voices = replicate 32 voice_default\<rparr>"

definition pd_set_sample_rate :: "player_dsp \<Rightarrow> real \<Rightarrow> player_dsp" where
  "pd_set_sample_rate p sr = p\<lparr>pd_sr := sr\<rparr>"

text \<open>
  \<^verbatim>\<open>process\<close>: \<^verbatim>\<open>for (c < nChans) for (i < nFrames) outputs[c][i] = 0.f\<close>. A write
  outside the host's planes is undefined behaviour of the C++ code: the error value,
  decided before the loop (the loop itself touches only the planes and samples it names).
\<close>

datatype pd_error = Out_of_bounds_write

definition pd_in_range :: "plane list \<Rightarrow> int \<Rightarrow> int \<Rightarrow> bool" where
  "pd_in_range outputs nChans nFrames \<longleftrightarrow>
     nat nChans \<le> length outputs \<and> list_all (\<lambda>c. nat nFrames \<le> length (outputs ! c)) [0..<nat nChans]"

definition pd_process :: "player_dsp \<Rightarrow> plane list \<Rightarrow> int \<Rightarrow> int \<Rightarrow> pd_error + plane list" where
  "pd_process p outputs nChans nFrames =
     (if \<not> pd_in_range outputs nChans nFrames then Inl Out_of_bounds_write
      else Inr (fold (\<lambda>c outs. fold (\<lambda>i outs. outs[c := (outs ! c)[i := 0]]) [0..<nat nFrames] outs)
                  [0..<nat nChans] outputs))"

lemma fold_update_plane:
  "c < length outs \<Longrightarrow>
   fold (\<lambda>i outs. outs[c := (outs ! c)[i := 0]]) is outs = outs[c := fold (\<lambda>i q. q[i := 0]) is (outs ! c)]"
  by (induction "is" arbitrary: outs) simp_all

lemma fold_zero_prefix:
  "n \<le> length q \<Longrightarrow> fold (\<lambda>i q. q[i := 0]) [0..<n] q = zero_fill q 0 n"
proof (induction n)
  case (Suc n)
  then have "fold (\<lambda>i q. q[i := 0]) [0..<Suc n] q = (replicate n 0 @ drop n q)[n := 0]"
    by (simp add: zero_fill_def blit_def)
  also have "\<dots> = replicate (Suc n) 0 @ drop (Suc n) q"
    using Suc.prems by (simp add: list_update_append Cons_nth_drop_Suc [symmetric] replicate_append_same)
  finally show ?case by (simp add: zero_fill_def blit_def)
qed simp

lemma fold_planes_for_channels:
  assumes "k \<le> length xs"
  shows "fold (\<lambda>c outs. fold (\<lambda>i outs. outs[c := (outs ! c)[i := 0]]) is outs) [0..<k] xs
           = for_channels k (\<lambda>_ q. fold (\<lambda>i q. q[i := 0]) is q) xs"
  using assms
proof (induction k)
  case (Suc k)
  then have "k < length (for_channels k (\<lambda>_ q. fold (\<lambda>i q. q[i := 0]) is q) xs)" by simp
  then show ?case using Suc by (simp add: fold_update_plane for_channels_Suc)
qed (simp add: for_channels_def)

text \<open>
  C36. Equivalence of \<^verbatim>\<open>process\<close> with a reference: in range, the nested loop is the
  per-channel \<^verbatim>\<open>memset(outputs[c], 0, nFrames)\<close> of the first \<^verbatim>\<open>nChans\<close> planes,
  the other planes and samples untouched; a non-positive count writes nothing.
\<close>

theorem pd_process_silence:
  "pd_process p outputs nChans nFrames =
     (if pd_in_range outputs nChans nFrames
      then Inr (for_channels (nat nChans) (\<lambda>_ q. zero_fill q 0 (nat nFrames)) outputs)
      else Inl Out_of_bounds_write)"
proof (cases "pd_in_range outputs nChans nFrames")
  case True
  then have k: "nat nChans \<le> length outputs"
    and n: "\<And>c. c < nat nChans \<Longrightarrow> nat nFrames \<le> length (outputs ! c)"
    by (simp_all add: pd_in_range_def list_all_iff)
  have "for_channels (nat nChans) (\<lambda>_ q. fold (\<lambda>i q. q[i := 0]) [0..<nat nFrames] q) outputs
          = for_channels (nat nChans) (\<lambda>_ q. zero_fill q 0 (nat nFrames)) outputs"
    by (rule nth_equalityI) (simp_all add: nth_for_channels n fold_zero_prefix)
  then show ?thesis using True k by (simp add: pd_process_def fold_planes_for_channels)
qed (simp add: pd_process_def)

end
