(* ===== verification/Dkd.thy ===== *)
theory Dkd
  imports Prelude
begin

text \<open>
  The offline slicing tool src/server/src/assets/uploads/DKD_converter.cpp: after the
  essentia onset detection (a library, not modelled: its result is the list of onset
  times), the tool cuts the input at each onset by building one \<^verbatim>\<open>ffmpeg\<close> command
  line per segment and passing it to \<^verbatim>\<open>system\<close>. Modelled: the argument check, the
  segment bounds, the \<^verbatim>\<open>snprintf\<close> of the output name into its 512-byte buffer and the
  concatenation of the command; \<^verbatim>\<open>std::to_string(double)\<close> is a parameter.
\<close>

text \<open>\<^verbatim>\<open>if (argc < 3) { ...usage...; return 1; }\<close>, then \<^verbatim>\<open>inputFile = argv[1]\<close>, \<^verbatim>\<open>outDir = argv[2]\<close>.\<close>

datatype dkd_error = Usage

definition dkd_args :: "string list \<Rightarrow> dkd_error + string \<times> string" where
  "dkd_args argv = (if length argv < 3 then Inl Usage else Inr (argv ! 1, argv ! 2))"
















end
