(* ===== verification/CAbi.thy ===== *)
theory CAbi
  imports Recorder
begin

text \<open>
  The C ABI of the recorder as its two headers declare it. RecorderCore.h
  (src/src/native/iplug/recorder/) declares the \<^verbatim>\<open>squirrel_recorder_core_*\<close> functions that
  RecorderCore.cpp defines; src/src-tauri/native/recorder.h declares the Tauri side's
  \<^verbatim>\<open>squirrel_recorder_start\<close>/\<^verbatim>\<open>stop\<close> and documents their contract in comments. Each
  header is a record type of functions over the singleton's state \<open>'r\<close> (the \<^verbatim>\<open>char**\<close>
  and \<^verbatim>\<open>double*\<close> out-parameters as a flag "non-null" and a result, as in Recorder);
  \<open>core_api\<close> is the instance RecorderCore.cpp provides; the contract of recorder.h is a
  predicate on the Tauri record, and the core functions are shown to meet it.
\<close>

text \<open>RecorderCore.h, lines 9--29 (\<^verbatim>\<open>squirrel_string_free\<close>, a \<^verbatim>\<open>free\<close>, has no model: the heap is not modelled).\<close>

record ('r, 'f) recorder_core_api =
  c_start :: "'r \<Rightarrow> string option \<Rightarrow> u32 \<Rightarrow> u16 \<Rightarrow> string option \<Rightarrow> bool \<Rightarrow> bool \<Rightarrow> ('r \<times> bool \<times> string option) option"
  c_stop :: "'r \<Rightarrow> bool \<Rightarrow> bool \<Rightarrow> ('r \<times> bool \<times> string option \<times> real option \<times> 'f) option"
  c_is_recording :: "'r \<Rightarrow> bool"
  c_source_is :: "'r \<Rightarrow> string option \<Rightarrow> bool"
  c_push :: "'r \<Rightarrow> plane list option \<Rightarrow> u16 \<Rightarrow> u32 \<Rightarrow> 'r"
  c_push_interleaved :: "'r \<Rightarrow> real list option \<Rightarrow> u16 \<Rightarrow> u32 \<Rightarrow> 'r"

definition core_api :: "(recorder_core, cfile option) recorder_core_api" where
  "core_api = \<lparr>c_start = squirrel_recorder_core_start, c_stop = squirrel_recorder_core_stop,
               c_is_recording = squirrel_recorder_core_is_recording,
               c_source_is = squirrel_recorder_core_source_is,
               c_push = squirrel_recorder_core_push,
               c_push_interleaved = squirrel_recorder_core_push_interleaved\<rparr>"

text \<open>recorder.h, lines 13--20: the two functions the Tauri side calls, with the core's signatures.\<close>

record ('r, 'f) tauri_recorder_api =
  t_start :: "'r \<Rightarrow> string option \<Rightarrow> u32 \<Rightarrow> u16 \<Rightarrow> string option \<Rightarrow> bool \<Rightarrow> bool \<Rightarrow> ('r \<times> bool \<times> string option) option"
  t_stop :: "'r \<Rightarrow> bool \<Rightarrow> bool \<Rightarrow> ('r \<times> bool \<times> string option \<times> real option \<times> 'f) option"

definition tauri_of_core :: "('r, 'f) recorder_core_api \<Rightarrow> ('r, 'f) tauri_recorder_api" where
  "tauri_of_core api = \<lparr>t_start = c_start api, t_stop = c_stop api\<rparr>"

text \<open>
  The comments of recorder.h: start "returns true on success. On failure, returns false and
  sets *err_out to a malloc'ed C string" (non-empty, and nothing is written on success or
  with a null \<^verbatim>\<open>err_out\<close>); stop "returns true on success and outputs duration in
  seconds" (a non-negative duration when \<^verbatim>\<open>out_duration_sec\<close> is non-null).
\<close>

definition start_contract :: "bool \<Rightarrow> bool \<times> string option \<Rightarrow> bool" where
  "start_contract err_out res \<longleftrightarrow>
     (case res of (True, msg) \<Rightarrow> msg = None
      | (False, msg) \<Rightarrow> (if err_out then msg \<noteq> None \<and> msg \<noteq> Some [] else msg = None))"

definition stop_contract :: "bool \<Rightarrow> bool \<Rightarrow> bool \<times> string option \<times> real option \<Rightarrow> bool" where
  "stop_contract err_out out_duration res \<longleftrightarrow>
     (case res of (True, msg, d) \<Rightarrow> msg = None \<and> (if out_duration then (case d of Some x \<Rightarrow> 0 \<le> x | None \<Rightarrow> False) else d = None)
      | (False, msg, d) \<Rightarrow> d = None \<and> (if err_out then msg \<noteq> None \<and> msg \<noteq> Some [] else msg = None))"

definition tauri_contract :: "('r, 'f) tauri_recorder_api \<Rightarrow> bool" where
  "tauri_contract api \<longleftrightarrow>
     (\<forall>r path sr ch src err_out fopen_ok r' b msg.
        t_start api r path sr ch src err_out fopen_ok = Some (r', b, msg) \<longrightarrow> start_contract err_out (b, msg)) \<and>
     (\<forall>r err_out out_duration r' b msg d f.
        t_stop api r err_out out_duration = Some (r', b, msg, d, f) \<longrightarrow> stop_contract err_out out_duration (b, msg, d))"

lemma rc_stop_finish_duration: "0 \<le> fst (snd (rc_stop_finish rc))"
proof -
  have "0 \<le> real (unat a) / real (unat b)" for a :: u64 and b :: u32
    by (rule divide_nonneg_nonneg) (simp_all del: of_nat_unat)
  then show ?thesis by (simp only: rc_stop_finish_def Let_def fst_conv snd_conv split: if_split) simp
qed

lemma rc_stop_duration: "rc_stop rc = Some (Inr (rc', d, f)) \<Longrightarrow> 0 \<le> d"
  using rc_stop_finish_duration [of rc] rc_stop_finish_duration
  by (auto simp: rc_stop_def Let_def split: if_splits option.splits) (metis fst_conv snd_conv)+

lemma squirrel_start_contract:
  "squirrel_recorder_core_start r path sr ch src err_out fopen_ok = Some (r', b, msg) \<Longrightarrow> start_contract err_out (b, msg)"
  by (auto simp: squirrel_recorder_core_start_def start_contract_def split: sum.splits if_splits)

lemma squirrel_stop_contract:
  "squirrel_recorder_core_stop r err_out out_duration = Some (r', b, msg, d, f) \<Longrightarrow> stop_contract err_out out_duration (b, msg, d)"
  by (auto simp: squirrel_recorder_core_stop_def stop_contract_def dest: rc_stop_duration split: option.splits sum.splits if_splits)

text \<open>
  C39. The core ABI has the type of both headers and meets the contract recorder.h
  documents: every call of the core's start that returns gives true with no message, or
  false with a non-empty message exactly when \<^verbatim>\<open>err_out\<close> is non-null; every call of
  its stop that returns gives true with no message and a non-negative duration (when asked),
  or false with no duration and a non-empty message when \<^verbatim>\<open>err_out\<close> is non-null.
\<close>

theorem core_api_tauri_contract: "tauri_contract (tauri_of_core core_api)"
  unfolding tauri_contract_def tauri_of_core_def core_api_def
  using squirrel_start_contract squirrel_stop_contract by auto

theorem core_api_tauri_contract_witness:
  "t_start (tauri_of_core core_api) rc_new (Some []) 48000 2 None True True =
     Some (rc_new, False, Some ''Output path is empty'') \<and>
   start_contract True (False, Some ''Output path is empty'')"
proof -
  have c: "t_start (tauri_of_core core_api) rc_new (Some []) 48000 2 None True True =
             Some (rc_new, False, Some ''Output path is empty'')"
    by (simp add: tauri_of_core_def core_api_def squirrel_recorder_core_start_def rc_start_def
        rec_error_msg_def rc_new_def)
  have "start_contract True (False, Some ''Output path is empty'')"
    using core_api_tauri_contract c unfolding tauri_contract_def by blast
  with c show ?thesis by blast
qed

end
