(* ===== verification/PlayerApi.thy ===== *)
theory PlayerApi
  imports Envelope
begin

text \<open>
  The player's public interface, src/src/native/iplug/include/PlayerAPI.h, and the UI
  bridge that holds it, src/src/native/iplug/bridge/WebBridge.h. Both are declarations:
  the option structs with their member initialisers (records and their default values),
  the abstract class \<^verbatim>\<open>PlayerAPI\<close> (a record of operations over an implementation's
  state, with a datatype of the calls and their dispatch), and the bridge object with its
  constructor and \<^verbatim>\<open>setEmit\<close>. No class of the repository implements \<^verbatim>\<open>PlayerAPI\<close>
  and \<^verbatim>\<open>onUIMessage\<close> has no body; \<^verbatim>\<open>const char*\<close> is \<open>string option\<close> (\<open>None\<close> the
  null pointer), \<^verbatim>\<open>float\<close> is \<open>real\<close>, \<^verbatim>\<open>int64_t\<close> and \<^verbatim>\<open>int\<close> are \<open>int\<close> (no
  arithmetic is done on them here).
\<close>

text \<open>\<^verbatim>\<open>struct EnvelopeADSR { float a{0.001f}, d{0.05f}, s{0.8f}, r{0.1f}; }\<close> in namespace \<^verbatim>\<open>SquirrelAudio\<close>.\<close>

record api_envelope_adsr =
  api_a :: real
  api_d :: real
  api_s :: real
  api_r :: real


text \<open>\<^verbatim>\<open>struct CreateClipOpts\<close>: \<^verbatim>\<open>id\<close> and \<^verbatim>\<open>path_or_bookmark\<close> have no initialiser (an
  aggregate initialisation gives them), the others take theirs.\<close>

datatype clip_mode = Preload | Stream

record create_clip_opts =
  cco_id :: "string option"
  cco_path_or_bookmark :: "string option"
  cco_mode :: clip_mode
  cco_gain_db :: real
  cco_pan :: real
  cco_envelope_default :: api_envelope_adsr


text \<open>\<^verbatim>\<open>struct PlayOpts\<close>: whole clip (\<^verbatim>\<open>start_frame{0}\<close>, \<^verbatim>\<open>end_frame{-1}\<close>), a 64-sample
  crossfade, unit velocity, no pitch, gain or pan offset.\<close>

record play_opts =
  po_clip_id :: "string option"
  po_start_frame :: int
  po_end_frame :: int
  po_xfade_samples :: int
  po_velocity :: real
  po_pitch_cents :: real
  po_gain_db_delta :: real
  po_pan_delta :: real

definition play_opts_init :: "string option \<Rightarrow> play_opts" where
  "play_opts_init c =
     \<lparr>po_clip_id = c, po_start_frame = 0, po_end_frame = -1, po_xfade_samples = 64, po_velocity = 1,
      po_pitch_cents = 0, po_gain_db_delta = 0, po_pan_delta = 0\<rparr>"

text \<open>\<^verbatim>\<open>struct Event\<close>: the type and the three strings have no initialiser, \<^verbatim>\<open>frame{0}\<close>,
  \<^verbatim>\<open>underruns{0}\<close>.\<close>

datatype event_type = VoiceStarted | VoiceEnded | MarkerHit | FollowActionFired | ClipStreamXrun

record player_event =
  ev_type :: event_type
  ev_clip_id :: "string option"
  ev_voice_id :: "string option"
  ev_marker :: "string option"
  ev_frame :: int
  ev_underruns :: int

definition player_event_init ::
  "event_type \<Rightarrow> string option \<Rightarrow> string option \<Rightarrow> string option \<Rightarrow> player_event" where
  "player_event_init ty c v m =
     \<lparr>ev_type = ty, ev_clip_id = c, ev_voice_id = v, ev_marker = m, ev_frame = 0, ev_underruns = 0\<rparr>"

text \<open>
  \<^verbatim>\<open>class PlayerAPI\<close>: its pure virtual methods as the operations of an implementation
  with state \<open>'p\<close>; each returns the new state and the method's \<^verbatim>\<open>bool\<close>
  (\<^verbatim>\<open>setEventSink\<close> returns nothing). \<open>'sink\<close> is \<^verbatim>\<open>EventSink\<close>, a callable.
\<close>

record ('p, 'sink) player_api =
  pa_set_event_sink :: "'p \<Rightarrow> 'sink \<Rightarrow> 'p"
  pa_create_clip :: "'p \<Rightarrow> create_clip_opts \<Rightarrow> 'p \<times> bool"
  pa_destroy_clip :: "'p \<Rightarrow> string option \<Rightarrow> 'p \<times> bool"
  pa_play :: "'p \<Rightarrow> play_opts \<Rightarrow> 'p \<times> bool"
  pa_stop :: "'p \<Rightarrow> string option \<Rightarrow> int \<Rightarrow> 'p \<times> bool"
  pa_stop_clip :: "'p \<Rightarrow> string option \<Rightarrow> int \<Rightarrow> 'p \<times> bool"
  pa_jump :: "'p \<Rightarrow> string option \<Rightarrow> int \<Rightarrow> int \<Rightarrow> 'p \<times> bool"
  pa_set_param :: "'p \<Rightarrow> string option \<Rightarrow> int \<Rightarrow> string option \<Rightarrow> real \<Rightarrow> 'p \<times> bool"

text \<open>A call through a \<^verbatim>\<open>PlayerAPI*\<close>: one constructor per virtual method, and its dispatch.\<close>

datatype 'sink player_call =
    Set_event_sink 'sink
  | Create_clip create_clip_opts
  | Destroy_clip "string option"
  | Play play_opts
  | Stop "string option" int
  | Stop_clip "string option" int
  | Jump "string option" int int
  | Set_param "string option" int "string option" real

fun pa_call :: "('p, 'sink) player_api \<Rightarrow> 'p \<Rightarrow> 'sink player_call \<Rightarrow> 'p \<times> bool option" where
  "pa_call api p (Set_event_sink s) = (pa_set_event_sink api p s, None)"
| "pa_call api p (Create_clip opts) = map_prod id Some (pa_create_clip api p opts)"
| "pa_call api p (Destroy_clip i) = map_prod id Some (pa_destroy_clip api p i)"
| "pa_call api p (Play opts) = map_prod id Some (pa_play api p opts)"
| "pa_call api p (Stop v ms) = map_prod id Some (pa_stop api p v ms)"
| "pa_call api p (Stop_clip c ms) = map_prod id Some (pa_stop_clip api p c ms)"
| "pa_call api p (Jump v f x) = map_prod id Some (pa_jump api p v f x)"
| "pa_call api p (Set_param t i n x) = map_prod id Some (pa_set_param api p t i n x)"

text \<open>
  \<^verbatim>\<open>class WebBridge\<close>: \<^verbatim>\<open>PlayerAPI* mAPI{nullptr}\<close> (\<open>None\<close> the null pointer, otherwise
  the implementation it drives) and the emit callback \<^verbatim>\<open>mEmit\<close> (\<open>None\<close> an empty
  \<^verbatim>\<open>std::function\<close>). The constructor stores the pointer; \<^verbatim>\<open>setEmit\<close> replaces the callback.
\<close>

record ('a, 'emit) web_bridge =
  wb_api :: "'a option"
  wb_emit :: "'emit option"

definition wb_new :: "'a option \<Rightarrow> ('a, 'emit) web_bridge" where
  "wb_new api = \<lparr>wb_api = api, wb_emit = None\<rparr>"

definition wb_set_emit :: "('a, 'emit) web_bridge \<Rightarrow> 'emit \<Rightarrow> ('a, 'emit) web_bridge" where
  "wb_set_emit b emit = b\<lparr>wb_emit := Some emit\<rparr>"





end
