(* ===== verification/Spec2Isabelle.thy ===== *)
theory Spec2Isabelle
  imports Plugin RecorderThreads Spsc PlayerDsp Dkd CAbi PlayerApi
begin

text \<open>
  \<^bold>\<open>A verification library for the audio core of the repository\<close>
  (src/src/core, src/src/native/iplug/recorder).

  \<^medskip>\<^bold>\<open>The program.\<close> Four parts share one constraint: the real-time render call
  never blocks, allocates or locks. \<^verbatim>\<open>atome::RingBuffer\<close> (ring_buffer.h/.cpp) is a
  single-producer/single-consumer queue of planar float frames with \<^verbatim>\<open>size_t\<close> cursors.
  \<^verbatim>\<open>atome::DiskReader\<close> (disk_reader.h/.cpp) is the producer thread that pushes blocks into
  the ring. \<^verbatim>\<open>atome::DSPCore\<close> (dsp_core.h/.cpp) owns ring and reader and renders: pop,
  zero-fill on underrun, gain. \<^verbatim>\<open>RecorderCore\<close> (RecorderCore.cpp/.h) is the capture sink:
  a second ring fed by \<^verbatim>\<open>push\<close>/\<^verbatim>\<open>push_interleaved\<close>, drained by a writer thread
  that converts to 16-bit PCM and appends to a WAV file whose header \<^verbatim>\<open>stop\<close> patches,
  behind a C ABI.

  \<^medskip>\<^bold>\<open>Theories and correspondence.\<close>
  \<^item> Prelude: the integer types as words (\<^verbatim>\<open>size_t\<close> = \<open>64 word\<close>, ...), samples as
    reals, \<^verbatim>\<open>memcpy\<close>/\<^verbatim>\<open>memset\<close> on planes (\<open>blit\<close>, \<open>zero_fill\<close>), the loop over
    channels (\<open>for_channels\<close>), \<^verbatim>\<open>static_cast<int>\<close> of floats (\<open>trunc_real\<close>) and the
    word lemmas the components share (collections \<open>plane_simps\<close>, \<open>word_bound_simps\<close>,
    \<open>eval_simps\<close>).
  \<^item> RingBuffer: the object as the record \<open>ring\<close>; \<open>rb_new\<close>, \<open>rb_clear\<close>, \<open>rb_push\<close>,
    \<open>rb_pop\<close> translate the constructor, \<^verbatim>\<open>clear\<close>, \<^verbatim>\<open>push\<close>, \<^verbatim>\<open>pop\<close> with their
    \<^verbatim>\<open>size_t\<close> arithmetic; the invariant \<open>rb_inv\<close>, the abstraction \<open>rb_abs\<close> to the
    bounded queue \<open>fqueue\<close> with \<open>q_push\<close>/\<open>q_pop\<close>, and the refinement theorems.
  \<^item> DiskReader: the record \<open>disk_reader\<close>, \<open>dr_open\<close>, \<open>dr_stop\<close>, and the thread's
    loop body \<open>dr_iteration\<close> on the owner's ring, iterated by \<open>dr_loop\<close>.
  \<^item> DspCore: the record \<open>dsp_core\<close>, \<open>dc_init\<close>, \<open>dc_set_parameter\<close>,
    \<open>dc_set_transport\<close>, \<open>dc_process\<close> (a sum type for the \<^verbatim>\<open>memset\<close> fault and the
    ring constructor's exception), \<open>dc_load_file\<close>, \<open>dc_clear\<close>.
  \<^item> Wav: the header bytes (\<open>wav_header\<close>, \<open>write_wav_header\<close> on a file modelled as
    content and position), the sample conversion \<open>pcm16\<close>, the writer's interleaving loop
    \<open>interleave_pcm\<close> and \<open>pcm_bytes\<close>; the decoders \<open>wav_parse\<close>, \<open>pcm_decode\<close> are the
    reader's side against which round trips are proved.
  \<^item> Recorder: the record \<open>recorder_core\<close> (the writer thread's locals included),
    \<open>rc_start\<close>, \<open>rc_stop\<close>, \<open>rc_push\<close>, \<open>rc_push_interleaved\<close> (its loop \<open>pi_loop\<close>
    with a termination proof), the writer iteration \<open>rc_writer_pop\<close> and loop
    \<open>rc_writer_loop\<close>, and the C ABI functions \<open>squirrel_recorder_core_*\<close>.
  \<^item> RecorderWriter: the recorder's invariant \<open>rc_inv\<close>, the writer's drain proof, and
    the refinement of the recorder's \<^verbatim>\<open>push\<close> by \<open>q_push\<close>.
  \<^item> RecorderThreads: the writer thread, \<^verbatim>\<open>push\<close> and \<^verbatim>\<open>stop\<close> interleaved: the record
    \<open>sys\<close> (the recorder and one program counter per thread), the inductive step relation
    \<open>rec_step\<close> (the writer's pop and flag test, push's guard and ring access, stop's flag
    clear and, after the join, \<open>rc_stop_finish\<close>), reachability by its closure.
  \<^item> Spsc: the element queue \<^verbatim>\<open>SPSCRingBuffer<T>\<close> of native/iplug/dsp/RingBuffer.h
    (record \<open>spsc\<close>, \<open>spsc_new\<close>, \<open>spsc_push\<close>, \<open>spsc_pop\<close>, \<open>spsc_capacity\<close>),
    its masked cursors as words and its fixed 4096-element array, with the abstraction
    \<open>spsc_abs\<close> to the list of queued elements.
  \<^item> Plugin: the iPlug2 plugin (Plugin.cpp: \<open>pl_on_reset\<close>, \<open>pl_on_param_change\<close>,
    \<open>pl_process_block\<close>, \<open>pl_load_file\<close>) and the WAM entry points (wam_entry.cpp:
    \<open>atome_create_core\<close>, \<open>atome_set_param\<close>, \<open>atome_process\<close>,
    \<open>atome_destroy_core\<close>): the composition of render and capture.
  \<^item> Envelope: the ADSR envelope of native/iplug/dsp/Envelope.h as a state machine
    (record \<open>envelope\<close>: stage, stage time, parameters; \<open>env_set\<close>, \<open>env_note_on\<close>,
    \<open>env_note_off\<close>, \<open>env_process\<close>), runs of calls \<open>env_run\<close> and iteration
    \<open>env_iter\<close>.
  \<^item> PlayerDsp: the player skeleton of native/iplug/dsp/PlayerDSP.h/.cpp (voices with their
    envelopes, \<open>pd_new\<close>, \<open>pd_set_sample_rate\<close>, \<open>pd_process\<close>).
  \<^item> Dkd: the output loop of the offline tool DKD_converter.cpp: segment bounds
    \<open>dkd_segment\<close>, the output name \<open>dkd_out_name\<close> (snprintf into 512 bytes), the
    ffmpeg command lines \<open>dkd_commands\<close>, and a reader \<open>dkd_input_field\<close> of the
    quoted input word as a shell reads it.
  \<^item> CAbi: the two C headers of the recorder as record types of functions:
    \<open>recorder_core_api\<close> (RecorderCore.h), instantiated by \<open>core_api\<close> with the wrappers of
    Recorder, and \<open>tauri_recorder_api\<close> (src-tauri/native/recorder.h) with the contract its
    comments state (\<open>start_contract\<close>, \<open>stop_contract\<close>, \<open>tauri_contract\<close>).
  \<^item> PlayerApi: PlayerAPI.h and WebBridge.h: the option and event structs as records with
    their initialisers (\<open>create_clip_opts_init\<close>, \<open>play_opts_init\<close>,
    \<open>player_event_init\<close>), the abstract class as the record of operations \<open>player_api\<close>
    with the calls \<open>player_call\<close> and their dispatch \<open>pa_call\<close>, and the bridge
    (\<open>wb_new\<close>, \<open>wb_set_emit\<close>).

  \<^medskip>\<^bold>\<open>What is proved.\<close> The ring refines the bounded queue (push appends the accepted
  frames, pop hands out the oldest, both keep the invariant). Render outputs the popped
  frames then silence, times the gain, and the silence and error paths are characterised.
  The recorder's header round-trips through a WAVE reader, the conversion clips and never
  wraps, the interleaving loop equals the reference order. \<^verbatim>\<open>start\<close> establishes the
  recorder invariant, \<^verbatim>\<open>push\<close> keeps it, and \<^verbatim>\<open>stop\<close> returns and writes every queued
  frame after what was written, under the patched header. The plugin's block callback
  hands the recorder exactly the planes the host receives. Findings are theorems too: the
  ring-size overflow of \<^verbatim>\<open>start\<close>, the de-interleaving stride of \<^verbatim>\<open>push_interleaved\<close>,
  the negative-length \<^verbatim>\<open>memset\<close> of render, stale samples in channels the ring lacks,
  and stale ring storage published by a \<^verbatim>\<open>push\<close> with zero channels. For the threads:
  the sequential \<^verbatim>\<open>stop\<close> is one of their interleavings (refinement), every interleaving
  keeps the join and release invariant, and a push that starts after the flag is clear
  never faults; two concrete interleavings show frames pushed before \<^verbatim>\<open>stop\<close> lost and a
  push reaching the released ring. The element queue refines a FIFO of
  \<open>capacity - 1\<close> elements for power-of-two capacities up to 4096, and two theorems show
  what happens outside that range: an index past the array for capacity 8192, a one-element
  ring for capacity 6. The envelope's samples stay in [0, 1] over every sequence of calls
  and a released note reaches Idle within \<open>\<lceil>r * sr\<rceil> + 1\<close> samples; its decay
  undershoots the sustain level. The player's render loop is a \<^verbatim>\<open>memset\<close> of the
  block. The slicing tool hands ffmpeg the input path intact exactly when the path has no
  double quote, and cuts backwards segments for onsets closer than 50 ms. The core C ABI meets
  the contract the Tauri header documents, and the player API's default clip envelope is,
  member for member, the envelope's own default.

  \<^medskip>\<^bold>\<open>Bounds and fuel.\<close> The writer loop is a \<^theory_text>\<open>partial_function (option)\<close>:
  with the running flag set and no producer it does not return (\<open>None\<close>); once the flag
  is clear it returns, proved by induction on the queued frames (each pass removes
  \<open>min(1024, queued)\<close> of them). \<open>pi_loop\<close> terminates by the measure
  \<open>frames - offset\<close>. \<open>dr_loop\<close> is run for a given number of iterations. Theorems about
  rings assume that a cursor's slot does not jump at \<open>2^64\<close> (\<open>rb_slot_safe\<close>,
  \<open>rb_drain_safe\<close>): true when the capacity divides \<open>2^64\<close> or before \<open>2^64\<close> frames.
  The envelope's release bound comes from the stage time growing by \<open>1/sr\<close> per sample.

  \<^medskip>\<^bold>\<open>Not modelled.\<close> Memory ordering (the threads' steps are sequentially
  consistent and each step is atomic; the ring's own producer/consumer interleaving inside
  \<^verbatim>\<open>push\<close>/\<^verbatim>\<open>pop\<close> and the disk reader's thread are not split into steps);
  floating-point rounding and NaN (samples and times are reals); allocation failure; the heap
  itself (\<^verbatim>\<open>dup_cstr\<close> is its returned buffer, \<^verbatim>\<open>squirrel_string_free\<close> has no model); the iPlug2
  framework itself (its parameter objects are plain values, the host's reports a record).
  Of the declaration-only headers, everything but behaviour: no class of the repository
  implements \<^verbatim>\<open>PlayerAPI\<close>, \<^verbatim>\<open>WebBridge::onUIMessage\<close> has no body, and no file
  defines the Tauri header's \<^verbatim>\<open>squirrel_recorder_start\<close>/\<^verbatim>\<open>stop\<close> (their contract is
  checked against the core functions of the same signature). In
  DKD_converter.cpp the essentia audio loading and onset detection (a library: the onset
  times are the input of the model), \<^verbatim>\<open>std::to_string\<close> (a parameter), the file
  system and the execution of the commands.
\<close>

end
